(* ===== verification/Prelude.thy ===== *)
theory Prelude
  imports Main "HOL-Library.Word"
begin

text \<open>
  Shared vocabulary of the development: the fixed-width integer types of the firmware, the
  named collections the component theories fill, and the generic facts on words, lists and
  function iteration that more than one component uses.
\<close>

unbundle bit_operations_syntax

type_synonym u8 = "8 word"
type_synonym u16 = "16 word"
type_synonym u32 = "32 word"
type_synonym u64 = "64 word"
type_synonym i32 = "32 word" \<comment> \<open>read as two's complement through \<open>sint\<close>\<close>

text \<open>The implicit integer conversions of the source, by the widths they go between.\<close>

abbreviation u8_of_u16 :: "u16 \<Rightarrow> u8" where "u8_of_u16 \<equiv> ucast"
abbreviation u16_of_u8 :: "u8 \<Rightarrow> u16" where "u16_of_u8 \<equiv> ucast"
abbreviation u32_of_u8 :: "u8 \<Rightarrow> u32" where "u32_of_u8 \<equiv> ucast"
abbreviation u32_of_u16 :: "u16 \<Rightarrow> u32" where "u32_of_u16 \<equiv> ucast"
abbreviation u16_of_u32 :: "u32 \<Rightarrow> u16" where "u16_of_u32 \<equiv> ucast"
abbreviation u64_of_u32 :: "u32 \<Rightarrow> u64" where "u64_of_u32 \<equiv> ucast"

named_theorems mmu_defs "definitions of record-level getters that proofs unfold together"
named_theorems mmu_inv "invariant preservation facts"

section \<open>Words\<close>

lemma word_xor_eq_0_iff [simp]: "(a XOR b = 0) \<longleftrightarrow> (a = (b :: 'a::len word))"
  by (metis xor.left_neutral xor.assoc xor_self_eq)

lemma word_xor_left_cancel [simp]: "(c XOR a = c XOR b) \<longleftrightarrow> (a = (b :: 'a::len word))"
proof
  assume "c XOR a = c XOR b"
  then have "c XOR (c XOR a) = c XOR (c XOR b)" by (rule arg_cong)
  then show "a = b" by (simp add: xor.assoc [symmetric])
qed simp

lemma unat_less_256 [simp]: "unat (x :: u8) < 256"
  using unsigned_less[of x, where ?'a = nat] by simp

lemma unat_less_65536 [simp]: "unat (x :: u16) < 65536"
  using unsigned_less[of x, where ?'a = nat] by simp

lemma unat_ucast_u8_u16 [simp]: "unat (u16_of_u8 x) = unat x"
  by (simp add: unsigned_ucast_eq take_bit_nat_eq_self_iff less_trans[OF unat_less_256])

lemma u8_of_u16_of_u8 [simp]: "u8_of_u16 (u16_of_u8 x) = x"
  by (rule bit_word_eqI) (simp add: bit_simps)

lemma unat_u8_of_u16: "unat (u8_of_u16 x) = unat x mod 256"
  by (simp add: unsigned_ucast_eq take_bit_eq_mod)

lemma unat_u8_and_15: "unat (x AND 15 :: u8) = unat x mod 16"
proof -
  have "x AND 15 = take_bit 4 x"
    by (simp add: take_bit_eq_mask mask_eq_exp_minus_1)
  then have "unat (x AND 15) = take_bit 4 (unat x)"
    by (simp only: unsigned_take_bit_eq)
  then show ?thesis by (simp only: take_bit_eq_mod) simp
qed

lemma unat_drop_bit: "unat (drop_bit n x :: 'a::len word) = unat x div 2 ^ n"
  by (simp add: unat_drop_bit_eq drop_bit_eq_div[where 'a = nat])

lemma not_bit_above: "unat (w :: 'a::len word) < 2 ^ n \<Longrightarrow> \<not> bit w n"
proof
  assume "unat w < 2 ^ n" and "bit w n"
  from \<open>unat w < 2 ^ n\<close> have "\<not> bit (unat w) n" by (simp add: bit_iff_odd)
  moreover from \<open>bit w n\<close> have "n < LENGTH('a)" by (rule bit_imp_le_length)
  ultimately show False using \<open>bit w n\<close> by (simp add: bit_unsigned_iff)
qed

text \<open>A decidable statement about small bytes is checked on each of them.\<close>

lemma all_u8_less:
  assumes "list_all (\<lambda>n. P (word_of_nat n :: u8)) [0..<k]" and "unat x < k"
  shows "P x"
proof -
  from assms have "P (word_of_nat (unat x))"
    unfolding list_all_iff set_upt by (metis atLeastLessThan_iff zero_le)
  then show ?thesis by simp
qed

section \<open>Lists and iteration\<close>

lemma funpow_invariant:
  assumes "P s" and "\<And>s. P s \<Longrightarrow> P (f s)"
  shows "P ((f ^^ n) s)"
  using assms by (induction n) auto

lemma take_Suc_append_nth: "n < length xs \<Longrightarrow> take (Suc n) xs = take n xs @ [xs ! n]"
  by (rule take_Suc_conv_app_nth)

end
