(* ===== verification/Config.thy ===== *)
theory Config
  imports Prelude Complex_Main
begin

text \<open>
  The compile-time configuration (\<open>config/config.h\<close>, \<open>config/axis.h\<close>) and the conversions
  between physical units and steps (\<open>unit.h\<close>, \<open>modules/axisunit.h\<close>). A quantity of class
  \<open>Unit\<close> is its \<open>long double\<close> member \<open>v\<close>, kept as an exact rational; the casts to integers
  truncate towards zero as in the source. An \<open>AxisUnit\<close> is its member \<open>v\<close>, a 32-bit word that
  is read as signed for positions (\<open>pos_t\<close>) and as unsigned for rates (\<open>steps_t\<close>).
\<close>

section \<open>Axes\<close>

datatype Axis = Pulley | Selector | Idler

definition NUM_AXIS :: nat where "NUM_AXIS = 3"

definition all_axes :: "Axis list" where "all_axes = [Pulley, Selector, Idler]"

fun axis_index :: "Axis \<Rightarrow> nat" where
  "axis_index Pulley = 0" | "axis_index Selector = 1" | "axis_index Idler = 2"

datatype MRes =
  MRes_256 | MRes_128 | MRes_64 | MRes_32 | MRes_16 | MRes_8 | MRes_4 | MRes_2 | MRes_1

fun mres_value :: "MRes \<Rightarrow> u8" where
  "mres_value MRes_256 = 0" | "mres_value MRes_128 = 1" | "mres_value MRes_64 = 2"
| "mres_value MRes_32 = 3" | "mres_value MRes_16 = 4" | "mres_value MRes_8 = 5"
| "mres_value MRes_4 = 6" | "mres_value MRes_2 = 7" | "mres_value MRes_1 = 8"

record AxisConfig =
  ac_dirOn :: bool
  ac_mRes :: MRes
  ac_iRun :: u8
  ac_iHold :: u8
  ac_stealth :: bool
  ac_stepsPerUnit :: rat
  ac_stepsPerUnitReciprocal :: rat
  ac_sg_thrs :: u8 \<comment> \<open>\<open>int8_t\<close>\<close>

record AxisLimits =
  al_lenght :: rat
  al_jerk :: rat
  al_accel :: rat

section \<open>Constants\<close>

definition toolCount :: u8 where "toolCount = 5"
definition fsensorDebounceMs :: u16 where "fsensorDebounceMs = 2"
definition ledBlinkPeriodMs :: u16 where "ledBlinkPeriodMs = 1024"
definition findaDebounceMs :: u16 where "findaDebounceMs = 100"
definition buttonCount :: u8 where "buttonCount = 3"
definition buttonsDebounceMs :: u16 where "buttonsDebounceMs = 20"
definition buttonADCLimits :: "(u16 \<times> u16) list" where
  "buttonADCLimits = [(0, 50), (80, 100), (160, 180)]"
definition buttonsADCIndex :: u8 where "buttonsADCIndex = 5"
definition VCCADCIndex :: u8 where "VCCADCIndex = 30"
definition VCCADCThreshold :: u16 where "VCCADCThreshold = 274"
definition VCCADCReadCnt :: nat where "VCCADCReadCnt = 10"

definition dropSegments :: u32 where "dropSegments = 0"
definition maxStepFrequency :: u16 where "maxStepFrequency = 40000"
definition minStepRate :: u32 where "minStepRate = 120"
definition blockBufferSize :: u8 where "blockBufferSize = 4"
definition stepTimerFrequencyDivider :: nat where "stepTimerFrequencyDivider = 8"
definition stepTimerQuantum :: u16 where "stepTimerQuantum = 256"
definition F_CPU :: nat where "F_CPU = 16000000"
definition feedToBondtechMaxRetries :: u8 where "feedToBondtechMaxRetries = 2"

definition pulleyToCuttingEdge :: rat where "pulleyToCuttingEdge = 33"
definition filamentMinLoadedToMMU :: rat where "filamentMinLoadedToMMU = 20"
definition ejectFromCuttingEdge :: rat where "ejectFromCuttingEdge = 40"
definition cuttingEdgeRetract :: rat where "cuttingEdgeRetract = 5"
definition cuttingEdgeToFinda :: rat where "cuttingEdgeToFinda = 185 / 10"
definition findaTriggerDistance :: rat where "findaTriggerDistance = 45 / 10"
definition cuttingEdgeToFindaMidpoint :: rat where "cuttingEdgeToFindaMidpoint = 2285 / 100"
definition findaToCoupler :: rat where "findaToCoupler = 12"
definition couplerToBowden :: rat where "couplerToBowden = 35 / 10"
definition defaultBowdenLength :: rat where "defaultBowdenLength = 360"
definition minimumBowdenLength :: rat where "minimumBowdenLength = 341"
definition maximumBowdenLength :: rat where "maximumBowdenLength = 1000"
definition feedToFinda :: rat where
  "feedToFinda = cuttingEdgeToFindaMidpoint + filamentMinLoadedToMMU"
definition maximumFeedToFinda :: rat where "maximumFeedToFinda = feedToFinda + 20"
definition pulleyHelperMove :: rat where "pulleyHelperMove = 10"
definition cutLength :: rat where "cutLength = 8"
definition fsensorToNozzle :: rat where "fsensorToNozzle = 30"
definition fsensorToNozzleAvoidGrind :: rat where "fsensorToNozzleAvoidGrind = 5"
definition fsensorToNozzleAvoidGrindUnload :: rat where "fsensorToNozzleAvoidGrindUnload = 20"
definition fsensorUnloadCheckDistance :: rat where "fsensorUnloadCheckDistance = 40"

definition pulley :: AxisConfig where
  "pulley = \<lparr>ac_dirOn = False, ac_mRes = MRes_8, ac_iRun = 13, ac_iHold = 0, ac_stealth = False,
     ac_stepsPerUnit = 200 * 8 / (19147274 / 1000000),
     ac_stepsPerUnitReciprocal = 1 / (200 * 8 / (19147274 / 1000000)), ac_sg_thrs = 8\<rparr>"

definition pulleyLimits :: AxisLimits where
  "pulleyLimits = \<lparr>al_lenght = 1000, al_jerk = 4, al_accel = 800\<rparr>"

definition pulleyUnloadFeedrate :: rat where "pulleyUnloadFeedrate = 95"
definition pulleyLoadFeedrate :: rat where "pulleyLoadFeedrate = 95"
definition pulleySlowFeedrate :: rat where "pulleySlowFeedrate = 20"

definition selector :: AxisConfig where
  "selector = \<lparr>ac_dirOn = True, ac_mRes = MRes_8, ac_iRun = 31, ac_iHold = 0, ac_stealth = False,
     ac_stepsPerUnit = 200 * 8 / 8, ac_stepsPerUnitReciprocal = 1 / (200 * 8 / 8),
     ac_sg_thrs = 3\<rparr>"

definition selectorCutIRun :: u8 where "selectorCutIRun = 40"

definition selectorLimits :: AxisLimits where
  "selectorLimits = \<lparr>al_lenght = 75, al_jerk = 1, al_accel = 200\<rparr>"

definition SelectorSlotDistance :: rat where "SelectorSlotDistance = 14"
definition SelectorOffsetFromMax :: rat where "SelectorOffsetFromMax = 1"
definition SelectorOffsetFromMin :: rat where "SelectorOffsetFromMin = 755 / 10"

text \<open>Slots 0 to 4 are the filaments, the last entry is the parking position.\<close>

definition selectorSlotPositions :: "rat list" where
  "selectorSlotPositions =
     [SelectorOffsetFromMax + 0 * SelectorSlotDistance,
      SelectorOffsetFromMax + 1 * SelectorSlotDistance,
      SelectorOffsetFromMax + 2 * SelectorSlotDistance,
      SelectorOffsetFromMax + 3 * SelectorSlotDistance,
      SelectorOffsetFromMax + 4 * SelectorSlotDistance,
      SelectorOffsetFromMax + 5 * SelectorSlotDistance]"

definition selectorFeedrate :: rat where "selectorFeedrate = 45"
definition selectorHomingFeedrate :: rat where "selectorHomingFeedrate = 30"

definition idler :: AxisConfig where
  "idler = \<lparr>ac_dirOn = True, ac_mRes = MRes_16, ac_iRun = 31, ac_iHold = 5, ac_stealth = False,
     ac_stepsPerUnit = 200 * 16 / 360, ac_stepsPerUnitReciprocal = 1 / (200 * 16 / 360),
     ac_sg_thrs = 7\<rparr>"

definition idlerLimits :: AxisLimits where
  "idlerLimits = \<lparr>al_lenght = 225, al_jerk = 1 / 10, al_accel = 500\<rparr>"

definition IdlerSlotDistance :: rat where "IdlerSlotDistance = 40"
definition IdlerOffsetFromHome :: rat where "IdlerOffsetFromHome = 18"

definition idlerSlotPositions :: "rat list" where
  "idlerSlotPositions =
     [IdlerOffsetFromHome + 5 * IdlerSlotDistance,
      IdlerOffsetFromHome + 4 * IdlerSlotDistance,
      IdlerOffsetFromHome + 3 * IdlerSlotDistance,
      IdlerOffsetFromHome + 2 * IdlerSlotDistance,
      IdlerOffsetFromHome + 1 * IdlerSlotDistance,
      IdlerOffsetFromHome]"

definition idlerIntermediateSlotPositions :: "rat list" where
  "idlerIntermediateSlotPositions =
     [IdlerOffsetFromHome + 475 / 100 * IdlerSlotDistance,
      IdlerOffsetFromHome + 375 / 100 * IdlerSlotDistance,
      IdlerOffsetFromHome + 275 / 100 * IdlerSlotDistance,
      IdlerOffsetFromHome + 175 / 100 * IdlerSlotDistance,
      IdlerOffsetFromHome + 75 / 100 * IdlerSlotDistance,
      IdlerOffsetFromHome]"

definition idlerParkPositionDelta :: rat where
  "idlerParkPositionDelta = - IdlerSlotDistance + 5 / 2"

definition idlerFeedrate :: rat where "idlerFeedrate = 300"
definition idlerHomingFeedrate :: rat where "idlerHomingFeedrate = 265"

definition tmc2130_coolStepThreshold :: u32 where "tmc2130_coolStepThreshold = 450"
definition tmc2130_PWM_AMPL :: u32 where "tmc2130_PWM_AMPL = 240"
definition tmc2130_PWM_GRAD :: u32 where "tmc2130_PWM_GRAD = 4"
definition tmc2130_PWM_FREQ :: u32 where "tmc2130_PWM_FREQ = 0"
definition tmc2130_PWM_AUTOSCALE :: u32 where "tmc2130_PWM_AUTOSCALE = 1"
definition tmc2130_freewheel :: u32 where "tmc2130_freewheel = 1"

fun axis_config :: "Axis \<Rightarrow> AxisConfig" where
  "axis_config Pulley = pulley" | "axis_config Selector = selector" | "axis_config Idler = idler"

fun axis_limits :: "Axis \<Rightarrow> AxisLimits" where
  "axis_limits Pulley = pulleyLimits" | "axis_limits Selector = selectorLimits"
| "axis_limits Idler = idlerLimits"

section \<open>Conversions\<close>

definition truncate_rat :: "rat \<Rightarrow> int" where
  "truncate_rat x = (if x < 0 then - \<lfloor>- x\<rfloor> else \<lfloor>x\<rfloor>)"

definition unitToAxisUnit :: "Axis \<Rightarrow> rat \<Rightarrow> u32" where
  "unitToAxisUnit a v = word_of_int (truncate_rat (v * ac_stepsPerUnit (axis_config a)))"

definition axisUnitToTruncatedUnit :: "Axis \<Rightarrow> i32 \<Rightarrow> rat \<Rightarrow> i32" where
  "axisUnitToTruncatedUnit a v mul =
     word_of_int (truncate_rat
       (of_int (sint v) * (ac_stepsPerUnitReciprocal (axis_config a) / mul)))"

definition truncatedUnit :: "rat \<Rightarrow> rat \<Rightarrow> i32" where
  "truncatedUnit v mul = word_of_int (truncate_rat (v * mul))"

text \<open>An integer register value as a quantity, and the cast of a quantity back to one.\<close>

definition unit_of_u16 :: "u16 \<Rightarrow> rat" where "unit_of_u16 x = of_nat (unat x)"
definition unit_of_u8 :: "u8 \<Rightarrow> rat" where "unit_of_u8 x = of_nat (unat x)"
definition u16_of_unit :: "rat \<Rightarrow> u16" where "u16_of_unit v = word_of_int (truncate_rat v)"
definition u8_of_unit :: "rat \<Rightarrow> u8" where "u8_of_unit v = word_of_int (truncate_rat v)"

lemmas config_defs = toolCount_def pulleyToCuttingEdge_def filamentMinLoadedToMMU_def
  cuttingEdgeToFindaMidpoint_def feedToFinda_def maximumFeedToFinda_def
  SelectorSlotDistance_def SelectorOffsetFromMax_def selectorSlotPositions_def
  IdlerSlotDistance_def IdlerOffsetFromHome_def idlerSlotPositions_def
  idlerIntermediateSlotPositions_def pulley_def selector_def idler_def

lemma truncate_rat_of_nat [simp]: "truncate_rat (of_nat n) = int n"
  by (simp add: truncate_rat_def)

lemma truncate_rat_of_int [simp]: "truncate_rat (of_int i) = i"
  by (simp add: truncate_rat_def)

lemma truncate_rat_numeral [simp]: "truncate_rat (numeral k) = numeral k"
  by (simp add: truncate_rat_def)

lemma floor_rat_numeral [simp]:
  "\<lfloor>numeral a / numeral b :: rat\<rfloor> = numeral a div numeral b"
  using floor_divide_of_int_eq[of "numeral a" "numeral b", where ?'a = rat] by simp

text \<open>The slot positions in steps.\<close>

lemma selector_steps:
  "map (unitToAxisUnit Selector) selectorSlotPositions = [200, 3000, 5800, 8600, 11400, 14200]"
  by (simp add: config_defs unitToAxisUnit_def)

lemma idler_steps:
  "map (unitToAxisUnit Idler) idlerSlotPositions = [1937, 1582, 1226, 871, 515, 160]"
  by (simp add: config_defs unitToAxisUnit_def truncate_rat_def)

lemma idler_intermediate_steps:
  "map (unitToAxisUnit Idler) idlerIntermediateSlotPositions = [1848, 1493, 1137, 782, 426, 160]"
  by (simp add: config_defs unitToAxisUnit_def truncate_rat_def)

end
