(* ===== verification/Sensors.thy ===== *)
theory Sensors
  imports Config
begin

text \<open>
  The time base and the debounced inputs: \<open>modules/timebase.cpp\<close>, \<open>modules/debouncer.cpp\<close>,
  \<open>modules/buttons.cpp\<close>, \<open>modules/finda.cpp\<close>, \<open>modules/fsensor.cpp\<close> and
  \<open>modules/voltage.cpp\<close>. What the hardware delivers (the millisecond counter, the level of the
  FINDA pin, ADC readings) is an argument.
\<close>

section \<open>Time base\<close>

definition Timebase_Isr :: "u16 \<Rightarrow> u16" where
  "Timebase_Isr ms = ms + 1"

definition Elapsed :: "u16 \<Rightarrow> u16 \<Rightarrow> u16 \<Rightarrow> bool" where
  "Elapsed ms start timeout \<longleftrightarrow> ms - start > timeout"

section \<open>Debouncing\<close>

datatype DebouncerState = Waiting | Detected | WaitForRelease | Update

record Debouncer =
  db_state :: DebouncerState
  db_tmp :: bool
  db_timeLastChange :: u16
  db_timeout :: u8

definition Debouncer_new :: "u8 \<Rightarrow> Debouncer" where
  "Debouncer_new timeout =
     \<lparr>db_state = Waiting, db_tmp = False, db_timeLastChange = 0, db_timeout = timeout\<rparr>"

definition Pressed :: "Debouncer \<Rightarrow> bool" where
  "Pressed d \<longleftrightarrow> db_state d = WaitForRelease"

text \<open>
  The difference of the two 16-bit times is taken in 16 bits: on the AVR \<open>uint16_t\<close> is
  \<open>unsigned int\<close>, so no promotion to a wider signed type takes place.
\<close>

definition Debouncer_Step :: "u16 \<Rightarrow> bool \<Rightarrow> Debouncer \<Rightarrow> Debouncer" where
  "Debouncer_Step time press d =
     (case db_state d of
        Waiting \<Rightarrow>
          if press then d\<lparr>db_state := Detected, db_timeLastChange := time, db_tmp := press\<rparr> else d
      | Detected \<Rightarrow>
          if db_tmp d = press then
            if time - db_timeLastChange d \<ge> u16_of_u8 (db_timeout d)
            then d\<lparr>db_state := WaitForRelease\<rparr> else d
          else d\<lparr>db_state := Waiting\<rparr>
      | WaitForRelease \<Rightarrow> if \<not> press then d\<lparr>db_state := Update\<rparr> else d
      | Update \<Rightarrow> d\<lparr>db_state := Waiting, db_timeLastChange := time, db_tmp := False\<rparr>)"

section \<open>Buttons\<close>

type_synonym Buttons = "Debouncer list"

definition Buttons_new :: Buttons where
  "Buttons_new = replicate (unat buttonCount) (Debouncer_new (u8_of_u16 buttonsDebounceMs))"

text \<open>\<open>None\<close> stands for the result -1: no button is pressed.\<close>

definition DecodeADC :: "u16 \<Rightarrow> nat option" where
  "DecodeADC rawADC =
     find (\<lambda>i. rawADC \<ge> fst (buttonADCLimits ! i) \<and> rawADC \<le> snd (buttonADCLimits ! i))
       [0..<unat buttonCount]"

definition Buttons_Step :: "u16 \<Rightarrow> u16 \<Rightarrow> Buttons \<Rightarrow> Buttons" where
  "Buttons_Step millis rawADC bs =
     (let currentState = DecodeADC rawADC
      in map (\<lambda>b. Debouncer_Step millis (Some b = currentState) (bs ! b)) [0..<length bs])"

definition ButtonPressed :: "Buttons \<Rightarrow> nat \<Rightarrow> bool" where
  "ButtonPressed bs i = Pressed (bs ! i)"

definition AnyButtonPressed :: "Buttons \<Rightarrow> bool" where
  "AnyButtonPressed bs \<longleftrightarrow> list_ex (ButtonPressed bs) [0..<unat buttonCount]"

section \<open>FINDA and the filament sensor of the printer\<close>

definition FINDA_new :: Debouncer where
  "FINDA_new = Debouncer_new (u8_of_u16 findaDebounceMs)"

definition FINDA_Step :: "u16 \<Rightarrow> bool \<Rightarrow> Debouncer \<Rightarrow> Debouncer" where
  "FINDA_Step millis pin d = Debouncer_Step millis pin d"

record FSensor =
  fs_debouncer :: Debouncer
  fs_reported :: bool

definition FSensor_new :: FSensor where
  "FSensor_new = \<lparr>fs_debouncer = Debouncer_new (u8_of_u16 fsensorDebounceMs), fs_reported = False\<rparr>"

definition FSensor_Step :: "u16 \<Rightarrow> FSensor \<Rightarrow> FSensor" where
  "FSensor_Step millis s = s\<lparr>fs_debouncer := Debouncer_Step millis (fs_reported s) (fs_debouncer s)\<rparr>"

definition FSensor_ProcessMessage :: "bool \<Rightarrow> FSensor \<Rightarrow> FSensor" where
  "FSensor_ProcessMessage on s = s\<lparr>fs_reported := on\<rparr>"

definition FSensor_Pressed :: "FSensor \<Rightarrow> bool" where
  "FSensor_Pressed s = Pressed (fs_debouncer s)"

section \<open>Supply voltage\<close>

text \<open>Ten conversions of which the last one counts.\<close>

definition VCC_Step :: "(nat \<Rightarrow> u16) \<Rightarrow> u16 \<Rightarrow> u16" where
  "VCC_Step adc vcc_val = foldl (\<lambda>_ i. adc i) 0 [0..<VCCADCReadCnt]"

section \<open>What a debounced press means\<close>

definition debounce_run :: "(u16 \<times> bool) list \<Rightarrow> Debouncer \<Rightarrow> Debouncer" where
  "debounce_run samples d = fold (\<lambda>(t, p). Debouncer_Step t p) samples d"

lemma debounce_run_snoc [simp]:
  "debounce_run (xs @ [(t, p)]) d = Debouncer_Step t p (debounce_run xs d)"
  by (simp add: debounce_run_def)

lemma debounce_timeout [simp]: "db_timeout (Debouncer_Step t p d) = db_timeout d"
  by (simp add: Debouncer_Step_def split: DebouncerState.splits)

lemma debounce_run_timeout [simp]: "db_timeout (debounce_run xs d) = db_timeout d"
  by (induction xs rule: rev_induct) (auto simp: debounce_run_def)

text \<open>
  The level was high at every one of the last samples, and some of them was at least the
  timeout later than the first.
\<close>

definition stable_press :: "u8 \<Rightarrow> (u16 \<times> bool) list \<Rightarrow> bool" where
  "stable_press timeout samples \<longleftrightarrow>
     (\<exists>pre t0 seg t. samples = pre @ (t0, True) # seg \<and> list_all snd seg \<and> t \<in> fst ` set seg
        \<and> t - t0 \<ge> u16_of_u8 timeout)"

lemma stable_press_snoc: "stable_press n xs \<Longrightarrow> stable_press n (xs @ [(t, True)])"
proof -
  assume "stable_press n xs"
  then obtain pre t0 seg t' where "xs = pre @ (t0, True) # seg" "list_all snd seg" "t' \<in> fst ` set seg"
    "t' - t0 \<ge> u16_of_u8 n"
    unfolding stable_press_def by blast
  then show ?thesis
    unfolding stable_press_def
    by (intro exI[of _ pre] exI[of _ t0] exI[of _ "seg @ [(t, True)]"] exI[of _ t']) auto
qed

lemma debounce_inv:
  assumes "db_state d = Waiting"
  shows "(db_state (debounce_run xs d) = Detected \<longrightarrow> db_tmp (debounce_run xs d) \<and>
            (\<exists>pre seg. xs = pre @ (db_timeLastChange (debounce_run xs d), True) # seg
                \<and> list_all snd seg))
       \<and> (db_state (debounce_run xs d) = WaitForRelease \<longrightarrow> stable_press (db_timeout d) xs)"
proof (induction xs rule: rev_induct)
  case Nil
  with assms show ?case by (simp add: debounce_run_def)
next
  case (snoc x xs)
  obtain t p where x: "x = (t, p)" by fastforce
  let ?d = "debounce_run xs d"
  show ?case
  proof (cases "db_state ?d")
    case Waiting
    moreover have "\<exists>pre seg. xs @ [(t, True)] = pre @ (t, True) # seg \<and> list_all snd seg"
      by (rule exI[of _ xs], rule exI[of _ "[]"]) simp
    ultimately show ?thesis by (cases p) (simp_all add: x Debouncer_Step_def)
  next
    case Detected
    with snoc obtain pre seg where ps: "db_tmp ?d" "xs = pre @ (db_timeLastChange ?d, True) # seg"
      "list_all snd seg" by blast
    show ?thesis
    proof (cases p)
      case True
      have "\<exists>pre' seg'. xs @ [(t, p)] = pre' @ (db_timeLastChange ?d, True) # seg' \<and> list_all snd seg'
          \<and> t \<in> fst ` set seg'"
        using ps True by (intro exI[of _ pre] exI[of _ "seg @ [(t, p)]"]) auto
      with True Detected ps(1) show ?thesis
        unfolding x debounce_run_snoc stable_press_def by (auto simp: Debouncer_Step_def)
    next
      case False
      with Detected ps(1) show ?thesis by (simp add: x Debouncer_Step_def)
    qed
  next
    case WaitForRelease
    with snoc show ?thesis
      by (cases p) (auto simp: x Debouncer_Step_def intro: stable_press_snoc)
  next
    case Update
    then show ?thesis by (simp add: x Debouncer_Step_def)
  qed
qed

lemma debounce_high_keeps:
  "db_state d = WaitForRelease \<Longrightarrow> list_all snd xs \<Longrightarrow> db_state (debounce_run xs d) = WaitForRelease"
  by (induction xs arbitrary: d) (auto simp: debounce_run_def Debouncer_Step_def)

lemma debounce_detected_run:
  "db_state d = Detected \<Longrightarrow> db_tmp d \<Longrightarrow> list_all snd xs \<Longrightarrow> (t, True) \<in> set xs \<Longrightarrow>
     t - db_timeLastChange d \<ge> u16_of_u8 (db_timeout d) \<Longrightarrow> Pressed (debounce_run xs d)"
proof (induction xs arbitrary: d)
  case (Cons x xs)
  obtain t' p where x: "x = (t', p)" by fastforce
  with Cons.prems(3) have p: "p" and xs: "list_all snd xs" by auto
  let ?e = "Debouncer_Step t' p d"
  have r: "debounce_run (x # xs) d = debounce_run xs ?e" by (simp add: debounce_run_def x)
  show ?case
  proof (cases "t' - db_timeLastChange d \<ge> u16_of_u8 (db_timeout d)")
    case True
    with Cons.prems p have "db_state ?e = WaitForRelease" by (simp add: Debouncer_Step_def)
    then show ?thesis unfolding r Pressed_def using xs by (rule debounce_high_keeps)
  next
    case False
    with Cons.prems p have e: "?e = d" by (simp add: Debouncer_Step_def)
    from False Cons.prems x have "(t, True) \<in> set xs" by auto
    with Cons.IH[of d] Cons.prems xs show ?thesis unfolding r e by blast
  qed
qed simp

section \<open>Properties\<close>

text \<open>A debounced input is reported as pressed only if the raw level was high at all the most
  recent samples and stayed so for at least the debounce time; and it is reported if, starting from
  the idle state, the level is high at all samples and some sample is that much later than the
  first. Times are taken modulo 2 to the 16.\<close>

theorem debounced_press:
  assumes "db_state d = Waiting"
  shows "(Pressed (debounce_run samples d) \<longrightarrow> stable_press (db_timeout d) samples)
    \<and> (\<forall>t0 seg t. samples = (t0, True) # seg \<and> list_all snd seg \<and> (t, True) \<in> set seg
          \<and> t - t0 \<ge> u16_of_u8 (db_timeout d) \<longrightarrow> Pressed (debounce_run samples d))"
proof (intro conjI allI impI)
  assume "Pressed (debounce_run samples d)"
  with debounce_inv[OF assms, of samples] show "stable_press (db_timeout d) samples"
    by (simp add: Pressed_def)
next
  fix t0 seg t
  assume a: "samples = (t0, True) # seg \<and> list_all snd seg \<and> (t, True) \<in> set seg
    \<and> t - t0 \<ge> u16_of_u8 (db_timeout d)"
  let ?e = "Debouncer_Step t0 True d"
  have "db_state ?e = Detected" "db_tmp ?e" "db_timeLastChange ?e = t0"
    using assms by (simp_all add: Debouncer_Step_def)
  with a debounce_detected_run[of ?e seg t] show "Pressed (debounce_run samples d)"
    by (simp add: debounce_run_def)
qed

theorem debounced_press_witness:
  "Pressed (debounce_run [(65530, True), (3, True), (94, True)] FINDA_new)
   \<and> \<not> Pressed (debounce_run [(65530, True), (3, False), (94, True)] FINDA_new)"
proof
  have w: "db_state FINDA_new = Waiting" "db_timeout FINDA_new = 100"
    by (simp_all add: FINDA_new_def Debouncer_new_def findaDebounceMs_def)
  show "Pressed (debounce_run [(65530, True), (3, True), (94, True)] FINDA_new)"
    using debounced_press[OF w(1), of "[(65530, True), (3, True), (94, True)]"] w(2)
    by (simp, elim conjE mp) (rule exI[of _ 94], simp)
  have "\<not> stable_press 100 [(65530, True), (3, False), (94, True)]"
    by (auto simp: stable_press_def Cons_eq_append_conv)
  then show "\<not> Pressed (debounce_run [(65530, True), (3, False), (94, True)] FINDA_new)"
    using debounced_press[OF w(1), of "[(65530, True), (3, False), (94, True)]"] w(2) by auto
qed

end
