(* ===== verification/Leds.thy ===== *)
theory Leds
  imports Sensors
begin

text \<open>
  The LEDs (\<open>modules/leds.cpp\<close>) and the shift register they share with the enable and direction
  lines of the motor drivers (\<open>hal/avr/shr16.cpp\<close>). The register is the 16-bit value last
  written to it.
\<close>

section \<open>The shift register\<close>

type_synonym SHR16 = u16

definition SHR16_LED_MSK :: u16 where "SHR16_LED_MSK = 0xffc0"
definition SHR16_DIR_MSK :: u16 where "SHR16_DIR_MSK = 0x0015"
definition SHR16_ENA_MSK :: u16 where "SHR16_ENA_MSK = 0x002A"

text \<open>The bits shifted out by \<open>Write\<close>, most significant first.\<close>

definition SHR16_Write_bits :: "u16 \<Rightarrow> bool list" where
  "SHR16_Write_bits v = map (\<lambda>i. push_bit i 1 AND v \<noteq> 0) (rev [0..<16])"

definition SHR16_Write :: "u16 \<Rightarrow> SHR16 \<Rightarrow> SHR16" where
  "SHR16_Write v shr16_v = v"

definition SHR16_Init :: "SHR16 \<Rightarrow> SHR16" where
  "SHR16_Init s = SHR16_Write SHR16_ENA_MSK s"

text \<open>
  The unions \<open>InputU\<close> and \<open>OutputU\<close>: the low byte of the input becomes the high byte of the
  output, its bits 8 and 9 become bits 6 and 7, and the lower six bits are 0.
\<close>

definition led_bits :: "u16 \<Rightarrow> u16" where
  "led_bits led = push_bit 8 (led AND 0x00ff) OR drop_bit 2 (led AND 0x0300)"

definition SHR16_SetLED :: "u16 \<Rightarrow> SHR16 \<Rightarrow> SHR16" where
  "SHR16_SetLED led s = SHR16_Write ((s AND NOT SHR16_LED_MSK) OR led_bits led) s"

definition SHR16_SetTMCEnabled :: "nat \<Rightarrow> bool \<Rightarrow> SHR16 \<Rightarrow> SHR16" where
  "SHR16_SetTMCEnabled index ena s =
     (let mask = push_bit (2 * index + 1) 1
      in SHR16_Write (if ena then s AND NOT mask else s OR mask) s)"

definition SHR16_SetTMCDir :: "nat \<Rightarrow> bool \<Rightarrow> SHR16 \<Rightarrow> SHR16" where
  "SHR16_SetTMCDir index dir s =
     (let mask = push_bit (2 * index) 1
      in SHR16_Write (if dir then s AND NOT mask else s OR mask) s)"

section \<open>LEDs\<close>

datatype LedMode = LedOff | LedOn | blink0 | blink1

datatype LedColor = red | green

fun color_index :: "LedColor \<Rightarrow> nat" where
  "color_index red = 0" | "color_index green = 1"

record LED =
  led_on :: bool
  led_mode :: LedMode

definition LED_new :: LED where "LED_new = \<lparr>led_on = False, led_mode = LedOff\<rparr>"

definition LED_SetMode :: "LedMode \<Rightarrow> LED \<Rightarrow> LED" where
  "LED_SetMode m l =
     (case m of
        blink1 \<Rightarrow> l\<lparr>led_mode := m, led_on := False\<rparr>
      | LedOff \<Rightarrow> l\<lparr>led_mode := m, led_on := False\<rparr>
      | blink0 \<Rightarrow> l\<lparr>led_mode := m, led_on := True\<rparr>
      | LedOn \<Rightarrow> l\<lparr>led_mode := m, led_on := True\<rparr>)"

definition LED_Step :: "bool \<Rightarrow> LED \<Rightarrow> LED" where
  "LED_Step oddPeriod l =
     (case led_mode l of
        blink0 \<Rightarrow> l\<lparr>led_on := oddPeriod\<rparr>
      | blink1 \<Rightarrow> l\<lparr>led_on := \<not> oddPeriod\<rparr>
      | _ \<Rightarrow> l)"

text \<open>
  The array has ten elements and the index is a byte. The source does not check it; \<open>leds_oob\<close> records that an
  element behind the array was written, which happens when the slot is \<open>toolCount\<close> (no active
  slot). The array and the other members are unchanged in the model then.
\<close>

record LEDs =
  leds_leds :: "LED list"
  leds_cachedState :: u16
  leds_oob :: bool

definition LEDs_new :: LEDs where
  "LEDs_new = \<lparr>leds_leds = replicate (unat toolCount * 2) LED_new, leds_cachedState = 0,
               leds_oob = False\<rparr>"

definition LEDs_SetMode_index :: "nat \<Rightarrow> LedMode \<Rightarrow> LEDs \<Rightarrow> LEDs" where
  "LEDs_SetMode_index i m s =
     (if i < length (leds_leds s)
      then s\<lparr>leds_leds := (leds_leds s)[i := LED_SetMode m (leds_leds s ! i)]\<rparr>
      else s\<lparr>leds_oob := True\<rparr>)"

definition LEDs_SetMode :: "u8 \<Rightarrow> LedColor \<Rightarrow> LedMode \<Rightarrow> LEDs \<Rightarrow> LEDs" where
  "LEDs_SetMode slot color m s = LEDs_SetMode_index ((unat slot * 2 + color_index color) mod 256) m s"

definition LEDs_Mode :: "u8 \<Rightarrow> LedColor \<Rightarrow> LEDs \<Rightarrow> LedMode" where
  "LEDs_Mode slot color s = led_mode (leds_leds s ! ((unat slot * 2 + color_index color) mod 256))"

definition LEDs_LedOn :: "u8 \<Rightarrow> LedColor \<Rightarrow> LEDs \<Rightarrow> bool" where
  "LEDs_LedOn slot color s = led_on (leds_leds s ! (unat slot * 2 + color_index color))"

definition LEDs_SetAllOff :: "LEDs \<Rightarrow> LEDs" where
  "LEDs_SetAllOff s =
     fold (\<lambda>i s. LEDs_SetMode (word_of_nat i) red LedOff (LEDs_SetMode (word_of_nat i) green LedOff s))
       [0..<unat toolCount] s"

definition SetPairButOffOthers :: "u8 \<Rightarrow> LedMode \<Rightarrow> LedMode \<Rightarrow> LEDs \<Rightarrow> LEDs" where
  "SetPairButOffOthers activeSlot greenMode redMode s =
     LEDs_SetMode activeSlot red redMode (LEDs_SetMode activeSlot green greenMode (LEDs_SetAllOff s))"

definition ActiveSlotProcessing :: "u8 \<Rightarrow> LEDs \<Rightarrow> LEDs" where
  "ActiveSlotProcessing activeSlot = SetPairButOffOthers activeSlot blink0 LedOff"

definition ActiveSlotError :: "u8 \<Rightarrow> LEDs \<Rightarrow> LEDs" where
  "ActiveSlotError activeSlot = SetPairButOffOthers activeSlot LedOff blink0"

definition ActiveSlotDoneEmpty :: "u8 \<Rightarrow> LEDs \<Rightarrow> LEDs" where
  "ActiveSlotDoneEmpty activeSlot = SetPairButOffOthers activeSlot LedOff LedOff"

definition ActiveSlotDonePrimed :: "u8 \<Rightarrow> LEDs \<Rightarrow> LEDs" where
  "ActiveSlotDonePrimed activeSlot = SetPairButOffOthers activeSlot LedOn LedOff"

text \<open>One step at a given time: the new LEDs and the new content of the shift register.\<close>

definition LEDs_result :: "LED list \<Rightarrow> u16" where
  "LEDs_result ls = foldl (\<lambda>r l. push_bit 1 r OR (if led_on l then 1 else 0)) 0 ls"

definition LEDs_Step :: "u16 \<Rightarrow> LEDs \<times> SHR16 \<Rightarrow> LEDs \<times> SHR16" where
  "LEDs_Step millis = (\<lambda>(s, shr).
     let oddPeriod = (millis div (ledBlinkPeriodMs div 2)) AND 0x01 \<noteq> 0;
         ls = map (LED_Step oddPeriod) (leds_leds s);
         result = LEDs_result ls
     in if result \<noteq> leds_cachedState s
        then (s\<lparr>leds_leds := ls, leds_cachedState := result\<rparr>, SHR16_SetLED result shr)
        else (s\<lparr>leds_leds := ls\<rparr>, shr))"

section \<open>Separation of the lines\<close>

lemma bit_led_mask: "bit (SHR16_LED_MSK) i \<longleftrightarrow> 6 \<le> i \<and> i < 16"
proof -
  have m: "SHR16_LED_MSK = push_bit 6 (mask 10)"
    by (simp add: SHR16_LED_MSK_def mask_eq_exp_minus_1)
  show ?thesis unfolding m by (auto simp: bit_simps)
qed

lemma bit_led_bits: "bit (led_bits led) i \<longleftrightarrow>
    (8 \<le> i \<and> i < 16 \<and> bit led (i - 8)) \<or> (6 \<le> i \<and> i < 8 \<and> bit led (i + 2))"
proof -
  have m: "(0xff :: u16) = mask 8" "(0x300 :: u16) = push_bit 8 (mask 2)"
    by (simp_all add: mask_eq_exp_minus_1)
  show ?thesis unfolding led_bits_def m by (auto simp: bit_simps)
qed

lemma bit_SetLED: "bit (SHR16_SetLED led s) i \<longleftrightarrow> (if i < 6 then bit s i else bit (led_bits led) i)"
  using bit_led_bits[of led i] bit_imp_le_length[of s i]
  by (auto simp: SHR16_SetLED_def SHR16_Write_def bit_or_iff bit_and_iff bit_not_iff bit_led_mask)

lemma bit_SetTMCEnabled: "i < 16 \<Longrightarrow>
    bit (SHR16_SetTMCEnabled n e s) i \<longleftrightarrow> (if i = 2 * n + 1 then \<not> e else bit s i)"
  by (auto simp: SHR16_SetTMCEnabled_def SHR16_Write_def Let_def bit_simps)

lemma bit_SetTMCDir: "i < 16 \<Longrightarrow>
    bit (SHR16_SetTMCDir n d s) i \<longleftrightarrow> (if i = 2 * n then \<not> d else bit s i)"
  by (auto simp: SHR16_SetTMCDir_def SHR16_Write_def Let_def bit_simps)

section \<open>Modes\<close>

lemma SetMode_index_length [simp]: "length (leds_leds (LEDs_SetMode_index i m s)) = length (leds_leds s)"
  by (simp add: LEDs_SetMode_index_def)

lemma SetAllOff_pairs:
  assumes "length (leds_leds s) = 10"
  shows "leds_leds (LEDs_SetAllOff s) = map (LED_SetMode LedOff) (leds_leds s)
    \<and> leds_oob (LEDs_SetAllOff s) = leds_oob s"
proof -
  obtain a b c d e f g h i j where l: "leds_leds s = [a, b, c, d, e, f, g, h, i, j]"
    using assms by (auto simp: length_Suc_conv eval_nat_numeral)
  have five: "[0..<unat toolCount] = [0, 1, 2, 3, 4]" by (simp add: toolCount_def upt_rec)
  show ?thesis
    unfolding LEDs_SetAllOff_def five
    by (simp add: LEDs_SetMode_def LEDs_SetMode_index_def l)
qed

text \<open>Only the LEDs of the active slot are lit afterwards, provided there is an active slot.\<close>

lemma SetPairButOffOthers_spec:
  assumes "length (leds_leds s) = 10" "a < toolCount" "k < 10"
  shows "led_mode (leds_leds (SetPairButOffOthers a g r s) ! k) =
      (if k = unat a * 2 + 1 then g else if k = unat a * 2 then r else LedOff)"
    and "leds_oob (SetPairButOffOthers a g r s) = leds_oob s"
proof -
  have a: "unat a < 5" using assms(2) by (simp add: word_less_nat_alt toolCount_def)
  have mode: "led_mode (LED_SetMode m l) = m" for m l by (cases m) (simp_all add: LED_SetMode_def)
  show "led_mode (leds_leds (SetPairButOffOthers a g r s) ! k) =
      (if k = unat a * 2 + 1 then g else if k = unat a * 2 then r else LedOff)"
    using a assms SetAllOff_pairs[OF assms(1)]
    by (simp add: SetPairButOffOthers_def LEDs_SetMode_def LEDs_SetMode_index_def mode nth_list_update)
  show "leds_oob (SetPairButOffOthers a g r s) = leds_oob s"
    using a assms SetAllOff_pairs[OF assms(1)]
    by (simp add: SetPairButOffOthers_def LEDs_SetMode_def LEDs_SetMode_index_def)
qed

lemma SetPairButOffOthers_oob:
  assumes "length (leds_leds s) = 10" "toolCount \<le> a" "a < 128"
  shows "leds_oob (SetPairButOffOthers a g r s)"
proof -
  have "5 \<le> unat a" "unat a < 128"
    using assms(2,3) by (simp_all add: word_less_nat_alt word_le_nat_alt toolCount_def)
  then show ?thesis
    using assms(1) SetAllOff_pairs[OF assms(1)]
    by (simp add: SetPairButOffOthers_def LEDs_SetMode_def LEDs_SetMode_index_def)
qed

section \<open>Properties\<close>

text \<open>The lines in the shift register do not disturb each other. Showing LEDs changes none of
  the six motor lines and puts each of the ten LED bits on its own line; enabling a driver or
  setting its direction changes exactly that one line, the enable line being active low.\<close>

theorem shift_register_lines:
  assumes "n < 3" "i < 16"
  shows "(i < 6 \<longrightarrow> bit (SHR16_SetLED led s) i = bit s i)
    \<and> (\<forall>k < 8. bit (SHR16_SetLED led s) (k + 8) = bit led k)
    \<and> (\<forall>k < 2. bit (SHR16_SetLED led s) (k + 6) = bit led (k + 8))
    \<and> bit (SHR16_SetTMCEnabled n e s) i = (if i = 2 * n + 1 then \<not> e else bit s i)
    \<and> bit (SHR16_SetTMCDir n d s) i = (if i = 2 * n then \<not> d else bit s i)"
  using assms by (auto simp: bit_SetLED bit_led_bits bit_SetTMCEnabled bit_SetTMCDir add.commute)

theorem shift_register_lines_witness:
  "bit (SHR16_SetTMCEnabled 1 True SHR16_ENA_MSK) 3 = False
   \<and> bit (SHR16_SetLED 0x3ff SHR16_ENA_MSK) 3 = bit SHR16_ENA_MSK 3"
  using shift_register_lines[of 1 3 "0x3ff" SHR16_ENA_MSK True True] by simp

end
