(* ===== verification/Tmc2130.thy ===== *)
theory Tmc2130
  imports Leds
begin

text \<open>
  The driver of a TMC2130 motor controller (\<open>hal/tmc2130.cpp\<close>, \<open>hal/tmc2130.h\<close>). The hardware is
  the record \<open>hw\<close>: the frames sent over SPI, newest first, with the bytes the slave answers a
  frame with as a function of them; the shift register; the level of the step pins; and
  which of the diagnostic pins are low, as the drivers pull them on a stall. The pins of an axis are
  identified by the axis.
\<close>

section \<open>Hardware\<close>

record hw =
  hw_spi_log :: "(Axis \<times> u8 list) list"
  hw_spi_slave :: "(Axis \<times> u8 list) list \<Rightarrow> u8 list"
  hw_shr16 :: SHR16
  hw_step :: "Axis \<Rightarrow> bool"
  hw_diag :: "Axis \<Rightarrow> bool"

definition byte_at :: "u8 list \<Rightarrow> nat \<Rightarrow> u8" where
  "byte_at bs i = (if i < length bs then bs ! i else 0)"

section \<open>Types\<close>

datatype MotorMode = Stealth | Normal

record MotorParams =
  mp_axis :: Axis
  mp_dirOn :: bool
  mp_mRes :: MRes
  mp_sg_thrs :: u8

record MotorCurrents =
  mc_vSense :: bool
  mc_iRun :: u8
  mc_iHold :: u8

definition MotorCurrents_new :: "u8 \<Rightarrow> u8 \<Rightarrow> MotorCurrents" where
  "MotorCurrents_new ir ih =
     \<lparr>mc_vSense = (ir < 32), mc_iRun = (if ir < 32 then ir else drop_bit 1 ir),
      mc_iHold = (if ir < 32 then ih else drop_bit 1 ih)\<rparr>"

record ErrorFlags =
  ef_reset_flag :: bool
  ef_uv_cp :: bool
  ef_s2g :: bool
  ef_otpw :: bool
  ef_ot :: bool

definition ErrorFlags_new :: ErrorFlags where
  "ErrorFlags_new = \<lparr>ef_reset_flag = False, ef_uv_cp = False, ef_s2g = False, ef_otpw = False,
     ef_ot = False\<rparr>"

definition ErrorFlags_Good :: "ErrorFlags \<Rightarrow> bool" where
  "ErrorFlags_Good e \<longleftrightarrow>
     \<not> ef_reset_flag e \<and> \<not> ef_uv_cp e \<and> \<not> ef_s2g e \<and> \<not> ef_otpw e \<and> \<not> ef_ot e"

datatype Registers =
  GCONF | GSTAT | IOIN | IHOLD_IRUN | TPOWERDOWN | TSTEP | TPWMTHRS | TCOOLTHRS | THIGH
  | MSCNT | CHOPCONF | COOLCONF | DRV_STATUS | PWMCONF

fun reg_byte :: "Registers \<Rightarrow> u8" where
  "reg_byte GCONF = 0x00" | "reg_byte GSTAT = 0x01" | "reg_byte IOIN = 0x04"
| "reg_byte IHOLD_IRUN = 0x10" | "reg_byte TPOWERDOWN = 0x11" | "reg_byte TSTEP = 0x12"
| "reg_byte TPWMTHRS = 0x13" | "reg_byte TCOOLTHRS = 0x14" | "reg_byte THIGH = 0x15"
| "reg_byte MSCNT = 0x6A" | "reg_byte CHOPCONF = 0x6C" | "reg_byte COOLCONF = 0x6D"
| "reg_byte DRV_STATUS = 0x6F" | "reg_byte PWMCONF = 0x70"

record TMC2130 =
  tmc_errorFlags :: ErrorFlags
  tmc_initialized :: bool
  tmc_enabled :: bool
  tmc_sg_filter_threshold :: u8
  tmc_sg_filter_counter :: u8

definition TMC2130_new :: TMC2130 where
  "TMC2130_new = \<lparr>tmc_errorFlags = ErrorFlags_new, tmc_initialized = False, tmc_enabled = False,
     tmc_sg_filter_threshold = 0, tmc_sg_filter_counter = 0\<rparr>"

section \<open>Registers\<close>

definition spi_tx_rx :: "MotorParams \<Rightarrow> u8 list \<Rightarrow> hw \<Rightarrow> u8 list \<times> hw" where
  "spi_tx_rx params pData h =
     (let log = (mp_axis params, pData) # hw_spi_log h
      in (hw_spi_slave h log, h\<lparr>hw_spi_log := log\<rparr>))"

text \<open>A register is read by the answer to the frame after the one that names it.\<close>

definition ReadRegister :: "MotorParams \<Rightarrow> Registers \<Rightarrow> hw \<Rightarrow> u32 \<times> hw" where
  "ReadRegister params reg h =
     (let (pData, h) = spi_tx_rx params [reg_byte reg, 0, 0, 0, 0] h;
          pData = 0 # map (byte_at pData) [1, 2, 3, 4];
          (pData, h) = spi_tx_rx params pData h
      in (push_bit 24 (u32_of_u8 (byte_at pData 1)) OR push_bit 16 (u32_of_u8 (byte_at pData 2))
            OR push_bit 8 (u32_of_u8 (byte_at pData 3)) OR u32_of_u8 (byte_at pData 4), h))"

definition WriteRegister :: "MotorParams \<Rightarrow> Registers \<Rightarrow> u32 \<Rightarrow> hw \<Rightarrow> hw" where
  "WriteRegister params reg data h =
     snd (spi_tx_rx params
            [reg_byte reg OR 0x80, ucast (drop_bit 24 data), ucast (drop_bit 16 data),
             ucast (drop_bit 8 data), ucast data] h)"

section \<open>Configuration words\<close>

definition TOFF_DEFAULT :: u32 where "TOFF_DEFAULT = 3"
definition TOFF_MASK :: u32 where "TOFF_MASK = 0xf"

definition ChopConf :: "bool \<Rightarrow> u8 \<Rightarrow> u32" where
  "ChopConf vsense mres =
     TOFF_DEFAULT OR push_bit 4 5 OR push_bit 7 1 OR push_bit 15 2
       OR push_bit 17 (if vsense then 1 else 0) OR push_bit 24 (u32_of_u8 mres AND 0xf)
       OR push_bit 28 1 OR push_bit 29 1"

definition IHoldRun :: "u8 \<Rightarrow> u8 \<Rightarrow> u32" where
  "IHoldRun iHold iRun = u32_of_u8 iHold OR push_bit 8 (u32_of_u8 iRun) OR push_bit 16 15"

definition SGTHRS_word :: "u8 \<Rightarrow> u32" where
  "SGTHRS_word sgthrs = push_bit 16 (u32_of_u8 sgthrs AND 0x7f)"

definition gconf_word :: u32 where "gconf_word = push_bit 2 1 OR push_bit 7 1"

definition pwmconf_word :: u32 where
  "pwmconf_word = tmc2130_PWM_AMPL OR push_bit 8 tmc2130_PWM_GRAD OR push_bit 16 tmc2130_PWM_FREQ
     OR push_bit 18 (tmc2130_PWM_AUTOSCALE AND 1) OR push_bit 20 (tmc2130_freewheel AND 3)"

section \<open>Operations\<close>

definition TMC_SetMode :: "MotorParams \<Rightarrow> MotorMode \<Rightarrow> hw \<Rightarrow> hw" where
  "TMC_SetMode params mode h =
     WriteRegister params TPWMTHRS (if mode = Stealth then 70 else 0xFFFF0) h"

definition SetBridgeOutput :: "MotorParams \<Rightarrow> bool \<Rightarrow> hw \<Rightarrow> hw" where
  "SetBridgeOutput params bOn h =
     (let (chopconf, h) = ReadRegister params CHOPCONF h;
          chopconf = chopconf AND NOT TOFF_MASK;
          chopconf = (if bOn then chopconf OR TOFF_DEFAULT else chopconf)
      in WriteRegister params CHOPCONF chopconf h)"

definition TMC_SetCurrents :: "MotorParams \<Rightarrow> MotorCurrents \<Rightarrow> hw \<Rightarrow> hw" where
  "TMC_SetCurrents params currents h =
     (let iHold = mc_iHold currents; iRun = mc_iRun currents
      in WriteRegister params IHOLD_IRUN
           (IHoldRun ((if iHold > iRun then iRun else iHold) AND 0x1f) (iRun AND 0x1f)) h)"

definition SetSGTHRS :: "MotorParams \<Rightarrow> hw \<Rightarrow> hw" where
  "SetSGTHRS params h = WriteRegister params COOLCONF (SGTHRS_word (mp_sg_thrs params)) h"

definition TMC_Init ::
  "MotorParams \<Rightarrow> MotorCurrents \<Rightarrow> MotorMode \<Rightarrow> TMC2130 \<times> hw \<Rightarrow> bool \<times> TMC2130 \<times> hw" where
  "TMC_Init params currents mode = (\<lambda>(t, h).
     let t = t\<lparr>tmc_initialized := False, tmc_sg_filter_threshold := 2\<rparr>;
         h = h\<lparr>hw_step := (hw_step h)(mp_axis params := False)\<rparr>;
         (ioin, h) = ReadRegister params IOIN h
     in if drop_bit 24 ioin \<noteq> 0x11 \<or> ioin AND push_bit 6 1 = 0 then (False, t, h)
        else
          let t = t\<lparr>tmc_errorFlags := (tmc_errorFlags t)\<lparr>ef_reset_flag := False\<rparr>\<rparr>;
              (gstat, h) = ReadRegister params GSTAT h;
              h = WriteRegister params CHOPCONF (ChopConf (mc_vSense currents) (mres_value (mp_mRes params))) h;
              h = TMC_SetCurrents params currents h;
              h = WriteRegister params TPOWERDOWN 0 h;
              h = SetSGTHRS params h;
              h = WriteRegister params TCOOLTHRS tmc2130_coolStepThreshold h;
              h = WriteRegister params GCONF gconf_word h;
              h = WriteRegister params PWMCONF pwmconf_word h;
              h = TMC_SetMode params mode h
          in (True, t\<lparr>tmc_initialized := True\<rparr>, h))"

definition ClearStallguard :: "TMC2130 \<Rightarrow> TMC2130" where
  "ClearStallguard t = t\<lparr>tmc_sg_filter_counter := tmc_sg_filter_threshold t\<rparr>"

definition Stalled :: "TMC2130 \<Rightarrow> bool" where
  "Stalled t \<longleftrightarrow> tmc_sg_filter_counter t = 0"

definition TMC_SetEnabled :: "MotorParams \<Rightarrow> bool \<Rightarrow> TMC2130 \<times> hw \<Rightarrow> TMC2130 \<times> hw" where
  "TMC_SetEnabled params enabled = (\<lambda>(t, h).
     let h = h\<lparr>hw_shr16 := SHR16_SetTMCEnabled (axis_index (mp_axis params)) enabled (hw_shr16 h)\<rparr>;
         t = (if tmc_enabled t \<noteq> enabled then ClearStallguard t else t)
     in (t\<lparr>tmc_enabled := enabled\<rparr>, h))"

definition CheckForErrors :: "MotorParams \<Rightarrow> TMC2130 \<times> hw \<Rightarrow> bool \<times> TMC2130 \<times> hw" where
  "CheckForErrors params = (\<lambda>(t, h).
     if \<not> tmc_initialized t then (False, t, h)
     else
       let (gstat, h) = ReadRegister params GSTAT h;
           (drv_status, h) = ReadRegister params DRV_STATUS h;
           e = (tmc_errorFlags t)
                 \<lparr>ef_reset_flag := ef_reset_flag (tmc_errorFlags t) \<or> gstat AND push_bit 0 1 \<noteq> 0,
                  ef_uv_cp := gstat AND push_bit 2 1 \<noteq> 0,
                  ef_s2g := drv_status AND push_bit 27 3 \<noteq> 0,
                  ef_otpw := drv_status AND push_bit 26 1 \<noteq> 0,
                  ef_ot := drv_status AND push_bit 25 1 \<noteq> 0\<rparr>
       in (gstat \<noteq> 0 \<or> ef_reset_flag e, t\<lparr>tmc_errorFlags := e\<rparr>, h))"

definition SampleDiag :: "MotorParams \<Rightarrow> hw \<Rightarrow> bool" where
  "SampleDiag params h = hw_diag h (mp_axis params)"

definition TMC_Isr :: "MotorParams \<Rightarrow> hw \<Rightarrow> TMC2130 \<Rightarrow> TMC2130" where
  "TMC_Isr params h t =
     (if tmc_sg_filter_counter t \<noteq> 0 then
        if SampleDiag params h then t\<lparr>tmc_sg_filter_counter := tmc_sg_filter_counter t - 1\<rparr>
        else if tmc_sg_filter_counter t < tmc_sg_filter_threshold t
        then t\<lparr>tmc_sg_filter_counter := tmc_sg_filter_counter t + 1\<rparr> else t
      else t)"

text \<open>Direction and step pins.\<close>

definition TMC_SetDir :: "MotorParams \<Rightarrow> bool \<Rightarrow> hw \<Rightarrow> hw" where
  "TMC_SetDir params dir h =
     h\<lparr>hw_shr16 := SHR16_SetTMCDir (axis_index (mp_axis params)) (dir \<noteq> mp_dirOn params) (hw_shr16 h)\<rparr>"

definition SetRawDir :: "MotorParams \<Rightarrow> bool \<Rightarrow> hw \<Rightarrow> hw" where
  "SetRawDir params dir h =
     h\<lparr>hw_shr16 := SHR16_SetTMCDir (axis_index (mp_axis params)) (\<not> dir) (hw_shr16 h)\<rparr>"

definition TMC_Step :: "MotorParams \<Rightarrow> hw \<Rightarrow> hw" where
  "TMC_Step params h = h\<lparr>hw_step := (hw_step h)(mp_axis params := \<not> hw_step h (mp_axis params))\<rparr>"

definition SetStep :: "MotorParams \<Rightarrow> bool \<Rightarrow> hw \<Rightarrow> hw" where
  "SetStep params state h = h\<lparr>hw_step := (hw_step h)(mp_axis params := state)\<rparr>"


section \<open>Frames\<close>

text \<open>The register writes among frames, oldest first: the axis and the register byte.\<close>

definition written :: "(Axis \<times> u8 list) list \<Rightarrow> (Axis \<times> u8) list" where
  "written frames = map (\<lambda>(a, f). (a, hd f AND 0x7f))
     (filter (\<lambda>(a, f). hd f AND 0x80 \<noteq> 0) (rev frames))"

lemma WriteRegister_log [simp]:
  "hw_spi_log (WriteRegister p r d h) =
     (mp_axis p, [reg_byte r OR 0x80, ucast (drop_bit 24 d), ucast (drop_bit 16 d),
       ucast (drop_bit 8 d), ucast d]) # hw_spi_log h"
  by (simp add: WriteRegister_def spi_tx_rx_def Let_def)

lemma ReadRegister_log:
  "\<exists>f. hw_spi_log (snd (ReadRegister p r h)) = (mp_axis p, 0 # f) # (mp_axis p, [reg_byte r, 0, 0, 0, 0]) # hw_spi_log h"
  by (simp add: ReadRegister_def spi_tx_rx_def Let_def)

lemma written_append: "written (xs @ ys) = written ys @ written xs"
  by (simp add: written_def)

lemma reg_byte_read: "reg_byte r AND 0x80 = 0"
  by (cases r) simp_all

lemma reg_byte_write: "(reg_byte r OR 0x80) AND 0x80 \<noteq> 0" "(reg_byte r OR 0x80) AND 0x7f = reg_byte r"
  by (cases r; simp)+

lemma written_WriteRegister [simp]:
  "written (hw_spi_log (WriteRegister p r d h)) = written (hw_spi_log h) @ [(mp_axis p, reg_byte r)]"
  by (simp add: written_def reg_byte_write)

lemma written_ReadRegister:
  assumes "ReadRegister p r h = (v, h')"
  shows "written (hw_spi_log h') = written (hw_spi_log h)"
proof -
  obtain f where "hw_spi_log h' = (mp_axis p, 0 # f) # (mp_axis p, [reg_byte r, 0, 0, 0, 0]) # hw_spi_log h"
    using ReadRegister_log[of p r h] assms by auto
  then show ?thesis by (simp add: written_def reg_byte_read)
qed

section \<open>The StallGuard filter\<close>

text \<open>The interrupt handler run on successive samples of the diagnostic pin.\<close>

definition sample_diag :: "bool \<Rightarrow> TMC2130 \<Rightarrow> TMC2130" where
  "sample_diag low t =
     (let p = \<lparr>mp_axis = Pulley, mp_dirOn = False, mp_mRes = MRes_8, mp_sg_thrs = 0\<rparr>;
          h = \<lparr>hw_spi_log = [], hw_spi_slave = \<lambda>_. [], hw_shr16 = 0, hw_step = \<lambda>_. False,
               hw_diag = \<lambda>_. low\<rparr>
      in TMC_Isr p h t)"

lemma TMC_Isr_sample: "TMC_Isr p h t = sample_diag (hw_diag h (mp_axis p)) t"
  by (simp add: TMC_Isr_def sample_diag_def SampleDiag_def Let_def)

lemma sample_diag_threshold [simp]:
  "tmc_sg_filter_threshold (sample_diag low t) = tmc_sg_filter_threshold t"
  by (simp add: sample_diag_def TMC_Isr_def Let_def)

lemma unat_sample_diag:
  "unat (tmc_sg_filter_counter (sample_diag low t)) =
     (let c = unat (tmc_sg_filter_counter t) in
      if c = 0 then 0 else if low then c - 1
      else if c < unat (tmc_sg_filter_threshold t) then c + 1 else c)"
proof -
  let ?c = "tmc_sg_filter_counter t"
  have "?c \<noteq> 0 \<Longrightarrow> unat (?c - 1) = unat ?c - 1" by (simp add: unat_minus_one)
  moreover have "unat (?c + 1) = unat ?c + 1" if "?c < tmc_sg_filter_threshold t"
  proof -
    have "unat ?c + 1 < 256"
      using that unat_less_256[of "tmc_sg_filter_threshold t"] by (simp add: word_less_nat_alt del: unat_less_256)
    then show ?thesis by (simp add: unat_word_ariths)
  qed
  ultimately show ?thesis
    by (auto simp: sample_diag_def TMC_Isr_def SampleDiag_def Let_def word_less_nat_alt unat_eq_0)
qed

lemma fold_sample_threshold [simp]:
  "tmc_sg_filter_threshold (fold sample_diag xs t) = tmc_sg_filter_threshold t"
  by (induction xs arbitrary: t) simp_all

lemma stalled_latched: "Stalled t \<Longrightarrow> Stalled (fold sample_diag xs t)"
proof (induction xs arbitrary: t)
  case (Cons x xs)
  then have "unat (tmc_sg_filter_counter (sample_diag x t)) = 0"
    by (simp add: unat_sample_diag Stalled_def Let_def)
  with Cons.IH show ?case by (simp add: Stalled_def unat_eq_0)
qed simp

lemma counter_bound:
  "unat (tmc_sg_filter_counter t) \<le> unat (tmc_sg_filter_counter (fold sample_diag xs t)) + length (filter id xs)"
proof (induction xs arbitrary: t)
  case (Cons x xs)
  have "unat (tmc_sg_filter_counter t) \<le> unat (tmc_sg_filter_counter (sample_diag x t)) + (if x then 1 else 0)"
    by (simp add: unat_sample_diag Let_def)
  with Cons.IH[of "sample_diag x t"] show ?case by (cases x) simp_all
qed simp

lemma lows_stall:
  "unat (tmc_sg_filter_counter t) \<le> n \<Longrightarrow> Stalled (fold sample_diag (replicate n True) t)"
proof (induction n arbitrary: t)
  case 0
  then show ?case by (simp add: Stalled_def unat_eq_0)
next
  case (Suc n)
  then have "unat (tmc_sg_filter_counter (sample_diag True t)) \<le> n"
    by (simp only: unat_sample_diag Let_def) auto
  with Suc.IH show ?case by simp
qed

lemma counter_le_threshold:
  "tmc_sg_filter_counter t \<le> tmc_sg_filter_threshold t \<Longrightarrow>
   tmc_sg_filter_counter (fold sample_diag xs t) \<le> tmc_sg_filter_threshold t"
proof (induction xs arbitrary: t)
  case (Cons x xs)
  then have "tmc_sg_filter_counter (sample_diag x t) \<le> tmc_sg_filter_threshold (sample_diag x t)"
    by (auto simp: word_le_nat_alt unat_sample_diag Let_def)
  with Cons.IH[of "sample_diag x t"] show ?case by simp
qed simp

section \<open>Properties\<close>

text \<open>The StallGuard filter. After the filter is cleared, a stall is not reported before as many
  low samples were taken as the threshold says; that many in a row are always enough, whatever
  came before; and a reported stall stays until the filter is cleared again.\<close>

theorem stall_filter:
  fixes t :: TMC2130 and earlier later :: "bool list"
  defines "run \<equiv> \<lambda>xs. fold sample_diag xs (ClearStallguard t)"
  shows "(Stalled (run earlier) \<longrightarrow> unat (tmc_sg_filter_threshold t) \<le> length (filter id earlier))
    \<and> Stalled (run (earlier @ replicate (unat (tmc_sg_filter_threshold t)) True))
    \<and> (Stalled (run earlier) \<longrightarrow> Stalled (run (earlier @ later)))"
proof -
  have "Stalled (run earlier) \<Longrightarrow> unat (tmc_sg_filter_threshold t) \<le> length (filter id earlier)"
    using counter_bound[of "ClearStallguard t" earlier]
    by (simp add: run_def Stalled_def ClearStallguard_def)
  moreover have "unat (tmc_sg_filter_counter (run earlier)) \<le> unat (tmc_sg_filter_threshold t)"
    using counter_le_threshold[of "ClearStallguard t" earlier]
    by (simp add: run_def ClearStallguard_def word_le_nat_alt)
  then have "Stalled (run (earlier @ replicate (unat (tmc_sg_filter_threshold t)) True))"
    using lows_stall[of "run earlier"] by (simp add: run_def)
  moreover have "Stalled (run earlier) \<Longrightarrow> Stalled (run (earlier @ later))"
    using stalled_latched[of "run earlier" later] by (simp add: run_def)
  ultimately show ?thesis by blast
qed

theorem stall_filter_witness:
  "Stalled (fold sample_diag ([True, False] @ [True, True])
     (ClearStallguard (TMC2130_new\<lparr>tmc_sg_filter_threshold := 2\<rparr>)))"
proof -
  let ?t = "TMC2130_new\<lparr>tmc_sg_filter_threshold := 2\<rparr>"
  have u: "unat (tmc_sg_filter_threshold ?t) = 2" by simp
  have "replicate 2 True = [True, True]" by (simp add: numeral_2_eq_2)
  with u stall_filter[where t = ?t and earlier = "[True, False]" and later = "[]"] show ?thesis
    by (simp only:)
qed



end
