(* ===== verification/Speed_Table.thy ===== *)
theory Speed_Table
  imports Config
begin

text \<open>
  Timer intervals for step rates (\<open>modules/speed_table.h\<close>, \<open>modules/speed_table.cpp\<close>) and the
  multiplications of \<open>modules/math.h\<close>, both the portable expressions and the AVR assembly the
  firmware is built with, modelled instruction by instruction on byte registers and the carry.
\<close>

section \<open>The tables for 16 MHz\<close>

definition speed_table_fast :: "(u16 \<times> u16) list" where
  "speed_table_fast =
    [(62500, 55556), (6944, 3268), (3676, 1176), (2500, 607), (1893, 369), (1524, 249),
     (1275, 179), (1096, 135), (961, 105), (856, 85), (771, 69), (702, 58), (644, 49),
     (595, 42), (553, 37), (516, 32), (484, 28), (456, 25), (431, 23), (408, 20), (388, 19),
     (369, 16), (353, 16), (337, 14), (323, 13), (310, 11), (299, 11), (288, 11), (277, 9),
     (268, 9), (259, 8), (251, 8), (243, 8), (235, 7), (228, 6), (222, 6), (216, 6), (210, 6),
     (204, 5), (199, 5), (194, 5), (189, 4), (185, 4), (181, 4), (177, 4), (173, 4), (169, 4),
     (165, 3), (162, 3), (159, 4), (155, 3), (152, 3), (149, 2), (147, 3), (144, 3), (141, 2),
     (139, 3), (136, 2), (134, 2), (132, 3), (129, 2), (127, 2), (125, 2), (123, 2), (121, 2),
     (119, 1), (118, 2), (116, 2), (114, 1), (113, 2), (111, 2), (109, 1), (108, 2), (106, 1),
     (105, 2), (103, 1), (102, 1), (101, 1), (100, 2), (98, 1), (97, 1), (96, 1), (95, 2),
     (93, 1), (92, 1), (91, 1), (90, 1), (89, 1), (88, 1), (87, 1), (86, 1), (85, 1), (84, 1),
     (83, 0), (83, 1), (82, 1), (81, 1), (80, 1), (79, 1), (78, 0), (78, 1), (77, 1), (76, 1),
     (75, 0), (75, 1), (74, 1), (73, 1), (72, 0), (72, 1), (71, 1), (70, 0), (70, 1), (69, 0),
     (69, 1), (68, 1), (67, 0), (67, 1), (66, 0), (66, 1), (65, 0), (65, 1), (64, 1), (63, 0),
     (63, 1), (62, 0), (62, 1), (61, 0), (61, 1), (60, 0), (60, 0), (60, 1), (59, 0), (59, 1),
     (58, 0), (58, 1), (57, 0), (57, 1), (56, 0), (56, 0), (56, 1), (55, 0), (55, 1), (54, 0),
     (54, 0), (54, 1), (53, 0), (53, 0), (53, 1), (52, 0), (52, 0), (52, 1), (51, 0), (51, 0),
     (51, 1), (50, 0), (50, 0), (50, 1), (49, 0), (49, 0), (49, 1), (48, 0), (48, 0), (48, 1),
     (47, 0), (47, 0), (47, 0), (47, 1), (46, 0), (46, 0), (46, 1), (45, 0), (45, 0), (45, 0),
     (45, 1), (44, 0), (44, 0), (44, 0), (44, 1), (43, 0), (43, 0), (43, 0), (43, 1), (42, 0),
     (42, 0), (42, 0), (42, 1), (41, 0), (41, 0), (41, 0), (41, 0), (41, 1), (40, 0), (40, 0),
     (40, 0), (40, 0), (40, 1), (39, 0), (39, 0), (39, 0), (39, 0), (39, 1), (38, 0), (38, 0),
     (38, 0), (38, 0), (38, 1), (37, 0), (37, 0), (37, 0), (37, 0), (37, 0), (37, 1), (36, 0),
     (36, 0), (36, 0), (36, 0), (36, 1), (35, 0), (35, 0), (35, 0), (35, 0), (35, 0), (35, 0),
     (35, 1), (34, 0), (34, 0), (34, 0), (34, 0), (34, 0), (34, 1), (33, 0), (33, 0), (33, 0),
     (33, 0), (33, 0), (33, 0), (33, 1), (32, 0), (32, 0), (32, 0), (32, 0), (32, 0), (32, 0),
     (32, 0), (32, 1), (31, 0), (31, 0), (31, 0), (31, 0), (31, 0), (31, 0), (31, 1), (30, 0),
     (30, 0), (30, 0), (30, 0)]"

definition speed_table_slow :: "(u16 \<times> u16) list" where
  "speed_table_slow =
    [(62500, 12500), (50000, 8334), (41666, 5952), (35714, 4464), (31250, 3473), (27777, 2777),
     (25000, 2273), (22727, 1894), (20833, 1603), (19230, 1373), (17857, 1191), (16666, 1041),
     (15625, 920), (14705, 817), (13888, 731), (13157, 657), (12500, 596), (11904, 541),
     (11363, 494), (10869, 453), (10416, 416), (10000, 385), (9615, 356), (9259, 331),
     (8928, 308), (8620, 287), (8333, 269), (8064, 252), (7812, 237), (7575, 223), (7352, 210),
     (7142, 198), (6944, 188), (6756, 178), (6578, 168), (6410, 160), (6250, 153), (6097, 145),
     (5952, 139), (5813, 132), (5681, 126), (5555, 121), (5434, 115), (5319, 111), (5208, 106),
     (5102, 102), (5000, 99), (4901, 94), (4807, 91), (4716, 87), (4629, 84), (4545, 81),
     (4464, 79), (4385, 75), (4310, 73), (4237, 71), (4166, 68), (4098, 66), (4032, 64),
     (3968, 62), (3906, 60), (3846, 59), (3787, 56), (3731, 55), (3676, 53), (3623, 52),
     (3571, 50), (3521, 49), (3472, 48), (3424, 46), (3378, 45), (3333, 44), (3289, 43),
     (3246, 41), (3205, 41), (3164, 39), (3125, 39), (3086, 38), (3048, 36), (3012, 36),
     (2976, 35), (2941, 35), (2906, 33), (2873, 33), (2840, 32), (2808, 31), (2777, 30),
     (2747, 30), (2717, 29), (2688, 29), (2659, 28), (2631, 27), (2604, 27), (2577, 26),
     (2551, 26), (2525, 25), (2500, 25), (2475, 25), (2450, 23), (2427, 24), (2403, 23),
     (2380, 22), (2358, 22), (2336, 22), (2314, 21), (2293, 21), (2272, 20), (2252, 20),
     (2232, 20), (2212, 20), (2192, 19), (2173, 18), (2155, 19), (2136, 18), (2118, 18),
     (2100, 17), (2083, 17), (2066, 17), (2049, 17), (2032, 16), (2016, 16), (2000, 16),
     (1984, 16), (1968, 15), (1953, 16), (1937, 14), (1923, 15), (1908, 15), (1893, 14),
     (1879, 14), (1865, 14), (1851, 13), (1838, 14), (1824, 13), (1811, 13), (1798, 13),
     (1785, 12), (1773, 13), (1760, 12), (1748, 12), (1736, 12), (1724, 12), (1712, 12),
     (1700, 11), (1689, 12), (1677, 11), (1666, 11), (1655, 11), (1644, 11), (1633, 10),
     (1623, 11), (1612, 10), (1602, 10), (1592, 10), (1582, 10), (1572, 10), (1562, 10),
     (1552, 9), (1543, 10), (1533, 9), (1524, 9), (1515, 9), (1506, 9), (1497, 9), (1488, 9),
     (1479, 9), (1470, 9), (1461, 8), (1453, 8), (1445, 9), (1436, 8), (1428, 8), (1420, 8),
     (1412, 8), (1404, 8), (1396, 8), (1388, 7), (1381, 8), (1373, 7), (1366, 8), (1358, 7),
     (1351, 7), (1344, 8), (1336, 7), (1329, 7), (1322, 7), (1315, 7), (1308, 6), (1302, 7),
     (1295, 7), (1288, 6), (1282, 7), (1275, 6), (1269, 7), (1262, 6), (1256, 6), (1250, 7),
     (1243, 6), (1237, 6), (1231, 6), (1225, 6), (1219, 6), (1213, 6), (1207, 6), (1201, 5),
     (1196, 6), (1190, 6), (1184, 5), (1179, 6), (1173, 5), (1168, 6), (1162, 5), (1157, 5),
     (1152, 6), (1146, 5), (1141, 5), (1136, 5), (1131, 5), (1126, 5), (1121, 5), (1116, 5),
     (1111, 5), (1106, 5), (1101, 5), (1096, 5), (1091, 5), (1086, 4), (1082, 5), (1077, 5),
     (1072, 4), (1068, 5), (1063, 4), (1059, 5), (1054, 4), (1050, 4), (1046, 5), (1041, 4),
     (1037, 4), (1033, 5), (1028, 4), (1024, 4), (1020, 4), (1016, 4), (1012, 4), (1008, 4),
     (1004, 4), (1000, 4), (996, 4), (992, 4), (988, 4), (984, 4), (980, 4), (976, 4), (972, 4),
     (968, 3), (965, 3)]"

section \<open>Multiplication\<close>

text \<open>The portable versions.\<close>

definition mulU8X16toH16_c :: "u8 \<Rightarrow> u16 \<Rightarrow> u16" where
  "mulU8X16toH16_c charIn1 intIn2 =
     u16_of_u32 (drop_bit 8 (u32_of_u8 charIn1 * u32_of_u16 intIn2))"

definition mulU24X24toH16_c :: "u32 \<Rightarrow> u32 \<Rightarrow> u16" where
  "mulU24X24toH16_c longIn1 longIn2 =
     ucast (drop_bit 24 (u64_of_u32 longIn1 * u64_of_u32 longIn2))"

text \<open>
  The instructions the assembly uses. A result register of two bytes and the byte \<open>r27\<close> below it
  form an accumulator of three bytes; a triple of additions is \<open>add\<close>, \<open>adc\<close>, \<open>adc\<close> on its
  bytes, lowest first, with the carry passed on.
\<close>

definition byte :: "nat \<Rightarrow> u32 \<Rightarrow> u8" where
  "byte n x = ucast (drop_bit (8 * n) x)"

definition mul_lo :: "u8 \<Rightarrow> u8 \<Rightarrow> u8" where
  "mul_lo a b = u8_of_u16 (u16_of_u8 a * u16_of_u8 b)"

definition mul_hi :: "u8 \<Rightarrow> u8 \<Rightarrow> u8" where
  "mul_hi a b = u8_of_u16 (drop_bit 8 (u16_of_u8 a * u16_of_u8 b))"

definition adc :: "u8 \<Rightarrow> u8 \<Rightarrow> bool \<Rightarrow> u8 \<times> bool" where
  "adc x y c = (x + y + (if c then 1 else 0), unat x + unat y + (if c then 1 else 0) > 255)"

definition add_adc_adc :: "u8 \<Rightarrow> u8 \<Rightarrow> u8 \<Rightarrow> u8 \<times> u8 \<times> u8 \<Rightarrow> u8 \<times> u8 \<times> u8" where
  "add_adc_adc x y z = (\<lambda>(r27, A0, B0).
     let (r27, c) = adc r27 x False; (A0, c) = adc A0 y c; (B0, c) = adc B0 z c
     in (r27, A0, B0))"

definition lsl_adc_adc :: "u8 \<times> u8 \<times> u8 \<Rightarrow> u8 \<times> u8 \<times> u8" where
  "lsl_adc_adc = (\<lambda>(r27, A0, B0).
     let c = bit r27 7; (A0, c) = adc A0 0 c; (B0, c) = adc B0 0 c in (push_bit 1 r27, A0, B0))"

definition word_of_bytes :: "u8 \<times> u8 \<times> u8 \<Rightarrow> u16" where
  "word_of_bytes = (\<lambda>(r27, A0, B0). push_bit 8 (u16_of_u8 B0) OR u16_of_u8 A0)"

text \<open>The low byte of the second product is only used for the rounding bit.\<close>

definition mulU8X16toH16 :: "u8 \<Rightarrow> u16 \<Rightarrow> u16" where
  "mulU8X16toH16 charIn1 intIn2 =
     (let A2 = u8_of_u16 intIn2; B2 = u8_of_u16 (drop_bit 8 intIn2);
          A0 = mul_lo B2 charIn1; B0 = mul_hi B2 charIn1;
          c = bit (mul_lo A2 charIn1) 7;
          (A0, c) = adc A0 (mul_hi A2 charIn1) c;
          (B0, c) = adc B0 0 c
      in word_of_bytes (0, A0, B0))"

definition mulU24X24toH16 :: "u32 \<Rightarrow> u32 \<Rightarrow> u16" where
  "mulU24X24toH16 longIn1 longIn2 =
     (let A1 = byte 0 longIn1; B1 = byte 1 longIn1; C1 = byte 2 longIn1;
          A2 = byte 0 longIn2; B2 = byte 1 longIn2; C2 = byte 2 longIn2;
          t = (mul_hi A1 B2, mul_lo B1 C2, mul_hi B1 C2);
          t = add_adc_adc 0 0 (mul_lo C1 C2) t;
          t = add_adc_adc 0 (mul_lo C1 B2) (mul_hi C1 B2) t;
          t = add_adc_adc (mul_lo A1 C2) (mul_hi A1 C2) 0 t;
          t = add_adc_adc (mul_lo B1 B2) (mul_hi B1 B2) 0 t;
          t = add_adc_adc (mul_lo C1 A2) (mul_hi C1 A2) 0 t;
          t = add_adc_adc (mul_hi B1 A2) 0 0 t;
          t = lsl_adc_adc t
      in word_of_bytes t)"

section \<open>Timer intervals\<close>

text \<open>
  The result is the interval and the number of steps per interrupt. In the lower branch the
  product of a table entry and the remainder is a 16-bit product, \<open>int\<close> being 16 bits wide.
\<close>

definition calc_timer :: "u16 \<Rightarrow> u16 \<times> u8" where
  "calc_timer step_rate =
     (let step_rate = (if step_rate > maxStepFrequency then maxStepFrequency else step_rate);
          (step_rate, step_loops) =
            (if step_rate > 20000 then (drop_bit 2 step_rate AND 0x3fff, 4)
             else if step_rate > 10000 then (drop_bit 1 step_rate AND 0x7fff, 2)
             else (step_rate, 1));
          minimal = word_of_nat (F_CPU div 500000);
          step_rate = (if step_rate < minimal then minimal else step_rate) - minimal;
          timer =
            (if step_rate \<ge> 8 * 256 then
               let (base, gain) = speed_table_fast ! unat (u8_of_u16 (drop_bit 8 step_rate));
                   tmp_step_rate = u8_of_u16 (step_rate AND 0x00ff)
               in base - mulU8X16toH16 tmp_step_rate gain
             else
               let (base, gain) = speed_table_slow ! (unat (drop_bit 2 step_rate AND 0xfffe) div 2)
               in base - drop_bit 3 (gain * (step_rate AND 0x0007)))
      in (if timer < 100 then 100 else timer, step_loops))"

section \<open>The assembly against the portable code\<close>

definition val3 :: "u8 \<times> u8 \<times> u8 \<Rightarrow> nat" where
  "val3 = (\<lambda>(x, y, z). unat x + 256 * unat y + 65536 * unat z)"

lemma u8_le: "unat (x :: u8) \<le> 255"
  using unat_less_256[of x] by linarith

lemma unat_mul_bytes: "256 * unat (mul_hi a b) + unat (mul_lo a b) = unat a * unat b"
proof -
  have "unat a * unat b \<le> 255 * 255"
    by (intro mult_mono u8_le) auto
  then have p: "unat (u16_of_u8 a * u16_of_u8 b) = unat a * unat b"
    by (simp add: unat_word_ariths)
  have "unat (mul_hi a b) = unat a * unat b div 256"
    using \<open>unat a * unat b \<le> 255 * 255\<close>
    by (simp add: mul_hi_def unat_u8_of_u16 unat_drop_bit p)
  moreover have "unat (mul_lo a b) = unat a * unat b mod 256"
    by (simp add: mul_lo_def unat_u8_of_u16 p)
  ultimately show ?thesis by simp
qed

lemma adc_spec:
  assumes "adc x y c = (r, c')"
  shows "unat r + 256 * of_bool c' = unat x + unat y + of_bool c"
proof -
  have "unat r = (unat x + unat y + of_bool c) mod 256"
    using assms by (auto simp: adc_def unat_word_ariths mod_simps)
  moreover have "c' \<longleftrightarrow> unat x + unat y + of_bool c > 255"
    using assms by (auto simp: adc_def)
  moreover have "unat x + unat y + of_bool c < 512"
    using u8_le[of x] u8_le[of y] by (cases c) auto
  ultimately show ?thesis by (cases c') (auto simp: le_mod_geq)
qed

lemma val3_add: "val3 (add_adc_adc x y z t) = (val3 t + unat x + 256 * unat y + 65536 * unat z) mod 2 ^ 24"
proof -
  obtain a b c where t: "t = (a, b, c)" by (cases t)
  obtain a' c1 where 1: "adc a x False = (a', c1)" by fastforce
  obtain b' c2 where 2: "adc b y c1 = (b', c2)" by fastforce
  obtain d' c3 where 3: "adc c z c2 = (d', c3)" by fastforce
  note s = adc_spec[OF 1] adc_spec[OF 2] adc_spec[OF 3]
  have v: "val3 (add_adc_adc x y z t) = unat a' + 256 * unat b' + 65536 * unat d'"
    by (simp add: add_adc_adc_def t 1 2 3 val3_def)
  have "val3 (add_adc_adc x y z t) + 2 ^ 24 * of_bool c3 =
      val3 t + unat x + 256 * unat y + 65536 * unat z"
    unfolding v unfolding t val3_def prod.case using s by simp
  moreover have "val3 (add_adc_adc x y z t) < 2 ^ 24"
    unfolding v using u8_le[of a'] u8_le[of b'] u8_le[of d'] by simp
  ultimately show ?thesis by (metis mod_less mod_mult_self2)
qed

lemma unat_word_of_bytes: "unat (word_of_bytes (r, a, b)) = unat a + 256 * unat b"
proof -
  have "push_bit 8 (u16_of_u8 b) OR u16_of_u8 a = push_bit 8 (u16_of_u8 b) + u16_of_u8 a"
    by (intro disjunctive_add_eq_or [symmetric] bit_eqI)
      (auto simp: bit_simps dest: bit_imp_le_length)
  moreover have "unat (push_bit 8 (u16_of_u8 b) + u16_of_u8 a) = unat a + 256 * unat b"
    using u8_le[of a] u8_le[of b] by (simp add: push_bit_eq_mult unat_word_ariths mod_simps)
  ultimately show ?thesis by (simp add: word_of_bytes_def)
qed

lemma bit_7: "bit (x :: u8) 7 \<longleftrightarrow> 128 \<le> unat x"
proof -
  have "bit x 7 \<longleftrightarrow> bit (unat x) 7" by (simp add: bit_unsigned_iff)
  then have "bit x 7 \<longleftrightarrow> odd (unat x div 128)" by (simp add: bit_iff_odd[of "unat x"])
  moreover have "unat x div 128 < 2" using u8_le[of x] by (intro less_mult_imp_div_less) simp
  ultimately show ?thesis by (cases "unat x div 128 = 0") auto
qed

lemma round_div: "r \<le> 255 \<Longrightarrow> (256 * q + r + 128) div 256 = q + of_bool (128 \<le> r)" for q r :: nat
  by (cases "128 \<le> r") simp_all

lemma val3_lsl: "unat (word_of_bytes (lsl_adc_adc t)) = ((val3 t + 128) div 256) mod 65536"
proof -
  obtain a b c where t: "t = (a, b, c)" by (cases t)
  obtain b' c1 where 1: "adc b 0 (bit a 7) = (b', c1)" by fastforce
  obtain d' c2 where 2: "adc c 0 c1 = (d', c2)" by fastforce
  note s = adc_spec[OF 1] adc_spec[OF 2]
  have v: "unat (word_of_bytes (lsl_adc_adc t)) = unat b' + 256 * unat d'"
    by (simp add: lsl_adc_adc_def t 1 2 unat_word_of_bytes)
  have "(val3 t + 128) div 256 = unat b + 256 * unat c + of_bool (bit a 7)"
    using round_div[of "unat a" "unat b + 256 * unat c", OF u8_le]
    by (simp add: t val3_def bit_7 algebra_simps)
  also have "\<dots> = unat b' + 256 * unat d' + 65536 * of_bool c2" using s by simp
  finally have "((val3 t + 128) div 256) mod 65536 = (unat b' + 256 * unat d') mod 65536" by simp
  also have "\<dots> = unat b' + 256 * unat d'" using u8_le[of b'] u8_le[of d'] by simp
  finally show ?thesis by (simp add: v)
qed

lemma unat_bytes_u16: "256 * unat (u8_of_u16 (drop_bit 8 x)) + unat (u8_of_u16 x) = unat x"
proof -
  have "unat x div 256 < 256" using unat_less_65536[of x] by (intro less_mult_imp_div_less) simp
  then show ?thesis by (simp add: unat_u8_of_u16 unat_drop_bit)
qed

lemma mul_by_bytes:
  fixes x a :: nat
  assumes "256 * xh + xl = x" "256 * ph + pl = xh * a" "256 * qh + ql = xl * a"
  shows "a * x = 256 * (256 * ph + pl + qh) + ql"
proof -
  have "a * x = 256 * (xh * a) + xl * a" by (simp add: assms(1) [symmetric] algebra_simps)
  then show ?thesis by (simp add: assms(2,3) [symmetric])
qed

lemma unat_mulU8X16toH16: "unat (mulU8X16toH16 a b) = (unat a * unat b + 128) div 256"
proof -
  let ?A = "u8_of_u16 b" and ?B = "u8_of_u16 (drop_bit 8 b)"
  obtain a0 c1 where 1: "adc (mul_lo ?B a) (mul_hi ?A a) (bit (mul_lo ?A a) 7) = (a0, c1)" by fastforce
  obtain b0 c2 where 2: "adc (mul_hi ?B a) 0 c1 = (b0, c2)" by fastforce
  note s = adc_spec[OF 1] adc_spec[OF 2] unat_mul_bytes[of ?A a] unat_mul_bytes[of ?B a]
  have r: "unat (mulU8X16toH16 a b) = unat a0 + 256 * unat b0"
    by (simp add: mulU8X16toH16_def Let_def 1 2 unat_word_of_bytes)
  have m: "unat a * unat b =
      256 * (256 * unat (mul_hi ?B a) + unat (mul_lo ?B a) + unat (mul_hi ?A a)) + unat (mul_lo ?A a)"
    by (rule mul_by_bytes[OF unat_bytes_u16 unat_mul_bytes unat_mul_bytes])
  have p: "(unat a * unat b + 128) div 256 =
      256 * unat (mul_hi ?B a) + unat (mul_lo ?B a) + unat (mul_hi ?A a) + of_bool (bit (mul_lo ?A a) 7)"
    unfolding bit_7 m by (rule round_div[OF u8_le])
  have "unat a * unat b \<le> 255 * 65535"
    using unat_less_65536[of b] by (intro mult_mono u8_le) linarith+
  then have "(unat a * unat b + 128) div 256 < 65536" by simp
  then have "c2 = False" using s(1,2) p by (cases c2) auto
  with s(1,2) p r show ?thesis by simp
qed

lemma unat_bytes_u24:
  assumes "unat x < 2 ^ 24"
  shows "unat x = unat (byte 0 x) + 256 * unat (byte 1 x) + 65536 * unat (byte 2 x)"
proof -
  have b: "unat (byte n x) = unat x div 2 ^ (8 * n) mod 256" for n
    by (simp add: byte_def unsigned_ucast_eq take_bit_eq_mod unat_drop_bit)
  have "unat x div 65536 < 256" using assms by (intro less_mult_imp_div_less) simp
  then have b2: "unat (byte 2 x) = unat x div 65536" by (simp add: b)
  have b1: "unat (byte 1 x) = unat x div 256 mod 256" and b0: "unat (byte 0 x) = unat x mod 256"
    using b[of 1] b[of 0] by simp_all
  have "unat x = 256 * (unat x div 256) + unat x mod 256" by simp
  moreover have "unat x div 256 = 256 * (unat x div 65536) + unat x div 256 mod 256"
    using div_mult2_eq[of "unat x" 256 256] by simp
  ultimately show ?thesis unfolding b0 b1 b2 by linarith
qed

lemma mod_shift_div: "((t mod 2 ^ 24 + 128) div 256) mod 65536 = ((t + 128) div 256) mod (65536 :: nat)"
proof -
  have "t + 128 = 256 * (65536 * (t div 2 ^ 24)) + (t mod 2 ^ 24 + 128)" by simp
  then have "(t + 128) div 256 = 65536 * (t div 2 ^ 24) + (t mod 2 ^ 24 + 128) div 256"
    by (metis div_mult_self4 zero_neq_numeral)
  then show ?thesis by simp
qed

text \<open>The accumulator before rounding, in units of two to the 16.\<close>

definition mul24_high :: "nat \<Rightarrow> nat \<Rightarrow> nat \<Rightarrow> nat \<Rightarrow> nat \<Rightarrow> nat \<Rightarrow> nat \<Rightarrow> nat \<Rightarrow> nat" where
  "mul24_high a1 b1 c1 a2 b2 c2 h1 h2 =
     h1 + h2 + 256 * (b1 * c2 + c1 * b2) + 65536 * (c1 * c2) + a1 * c2 + b1 * b2 + c1 * a2"

lemma unat_mulU24X24toH16:
  "unat (mulU24X24toH16 x y) =
     ((mul24_high (unat (byte 0 x)) (unat (byte 1 x)) (unat (byte 2 x))
         (unat (byte 0 y)) (unat (byte 1 y)) (unat (byte 2 y))
         (unat (mul_hi (byte 0 x) (byte 1 y))) (unat (mul_hi (byte 1 x) (byte 0 y))) + 128) div 256)
       mod 65536"
proof -
  define A1 B1 C1 where "A1 = byte 0 x" and "B1 = byte 1 x" and "C1 = byte 2 x"
  define A2 B2 C2 where "A2 = byte 0 y" and "B2 = byte 1 y" and "C2 = byte 2 y"
  note defs = A1_def B1_def C1_def A2_def B2_def C2_def
  define t0 where "t0 = (mul_hi A1 B2, mul_lo B1 C2, mul_hi B1 C2)"
  define t1 where "t1 = add_adc_adc 0 0 (mul_lo C1 C2) t0"
  define t2 where "t2 = add_adc_adc 0 (mul_lo C1 B2) (mul_hi C1 B2) t1"
  define t3 where "t3 = add_adc_adc (mul_lo A1 C2) (mul_hi A1 C2) 0 t2"
  define t4 where "t4 = add_adc_adc (mul_lo B1 B2) (mul_hi B1 B2) 0 t3"
  define t5 where "t5 = add_adc_adc (mul_lo C1 A2) (mul_hi C1 A2) 0 t4"
  define t6 where "t6 = add_adc_adc (mul_hi B1 A2) 0 0 t5"
  have r: "mulU24X24toH16 x y = word_of_bytes (lsl_adc_adc t6)"
    by (simp add: mulU24X24toH16_def Let_def t6_def t5_def t4_def t3_def t2_def t1_def t0_def defs)
  let ?M = "2 ^ 24 :: nat"
  have v0: "val3 t0 = unat (mul_hi A1 B2) + 256 * (unat B1 * unat C2)"
    using unat_mul_bytes[of B1 C2] by (simp add: t0_def val3_def)
  have v1: "val3 t1 mod ?M = (val3 t0 + 65536 * (unat C1 * unat C2)) mod ?M"
  proof -
    have "65536 * (unat C1 * unat C2) = 2 ^ 24 * unat (mul_hi C1 C2) + 65536 * unat (mul_lo C1 C2)"
      using unat_mul_bytes[of C1 C2] by simp
    then have "(val3 t0 + 65536 * (unat C1 * unat C2)) mod ?M
        = (val3 t0 + 65536 * unat (mul_lo C1 C2) + ?M * unat (mul_hi C1 C2)) mod ?M"
      by (simp only: ac_simps)
    then show ?thesis by (simp only: mod_mult_self2 t1_def val3_add) simp
  qed
  have step: "val3 (add_adc_adc a b c t) mod ?M = (val3 t mod ?M + k) mod ?M"
    if "unat a + 256 * unat b + 65536 * unat c = k" for a b c t k
    by (simp add: val3_add that [symmetric] mod_simps add.assoc)
  have v2: "val3 t2 mod ?M = (val3 t1 mod ?M + 256 * (unat C1 * unat B2)) mod ?M"
    unfolding t2_def using unat_mul_bytes[of C1 B2] by (intro step) simp
  have v3: "val3 t3 mod ?M = (val3 t2 mod ?M + unat A1 * unat C2) mod ?M"
    unfolding t3_def using unat_mul_bytes[of A1 C2] by (intro step) simp
  have v4: "val3 t4 mod ?M = (val3 t3 mod ?M + unat B1 * unat B2) mod ?M"
    unfolding t4_def using unat_mul_bytes[of B1 B2] by (intro step) simp
  have v5: "val3 t5 mod ?M = (val3 t4 mod ?M + unat C1 * unat A2) mod ?M"
    unfolding t5_def using unat_mul_bytes[of C1 A2] by (intro step) simp
  have v6: "val3 t6 mod ?M = (val3 t5 mod ?M + unat (mul_hi B1 A2)) mod ?M"
    unfolding t6_def by (intro step) simp
  let ?T = "mul24_high (unat A1) (unat B1) (unat C1) (unat A2) (unat B2) (unat C2)
      (unat (mul_hi A1 B2)) (unat (mul_hi B1 A2))"
  have "val3 t6 mod ?M = ?T mod ?M"
    unfolding v6 v5 v4 v3 v2 v1 v0 mul24_high_def by (simp only: mod_simps) (simp add: ac_simps)
  moreover have "val3 t6 mod ?M = val3 t6"
    unfolding t6_def val3_add by simp
  ultimately have "unat (mulU24X24toH16 x y) = ((?T mod ?M + 128) div 256) mod 65536"
    by (simp only: r val3_lsl)
  then show ?thesis by (simp only: mod_shift_div defs)
qed

lemma mul24_high_near:
  fixes a1 b1 c1 a2 b2 c2 h1 h2 l1 l2 P M :: nat
  assumes h: "256 * h1 + l1 = a1 * b2" "l1 \<le> 255" "256 * h2 + l2 = b1 * a2" "l2 \<le> 255"
    and a: "a1 \<le> 255" "a2 \<le> 255"
  defines "P \<equiv> (a1 + 256 * b1 + 65536 * c1) * (a2 + 256 * b2 + 65536 * c2)"
    and "M \<equiv> mul24_high a1 b1 c1 a2 b2 c2 h1 h2"
  shows "65536 * M \<le> P" "P < 65536 * (M + 3)"
proof -
  have "P = 65536 * M + (256 * l1 + 256 * l2 + a1 * a2)"
    using h(1,3) unfolding P_def M_def mul24_high_def by (simp add: algebra_simps)
  moreover have "a1 * a2 \<le> 255 * 255" by (intro mult_mono a) auto
  ultimately show "65536 * M \<le> P" "P < 65536 * (M + 3)" using h(2,4) by simp_all
qed

text \<open>On 24-bit operands whose product stays below the top of the result, the multiplication in
  assembly gives the product divided by two to the 24, rounded: the products of the low bytes it
  leaves out cost less than three units of two to the 16. The portable version truncates.\<close>

theorem mulU24X24toH16_rounds:
  assumes "unat x < 2 ^ 24" "unat y < 2 ^ 24" "unat x * unat y + 2 ^ 23 < 2 ^ 40"
  shows "2 ^ 24 * unat (mulU24X24toH16 x y) \<le> unat x * unat y + 2 ^ 23
    \<and> unat x * unat y < 2 ^ 24 * unat (mulU24X24toH16 x y) + 2 ^ 23 + 3 * 2 ^ 16"
proof -
  define M where "M = mul24_high (unat (byte 0 x)) (unat (byte 1 x)) (unat (byte 2 x))
         (unat (byte 0 y)) (unat (byte 1 y)) (unat (byte 2 y))
         (unat (mul_hi (byte 0 x) (byte 1 y))) (unat (mul_hi (byte 1 x) (byte 0 y)))"
  have near: "65536 * M \<le> unat x * unat y" "unat x * unat y < 65536 * (M + 3)"
    unfolding M_def unat_bytes_u24[OF assms(1)] unat_bytes_u24[OF assms(2)]
    by (rule mul24_high_near[OF unat_mul_bytes u8_le unat_mul_bytes u8_le u8_le u8_le])+
  define q where "q = (M + 128) div 256"
  have "M + 128 = 256 * q + (M + 128) mod 256" "(M + 128) mod 256 < 256" by (simp_all add: q_def)
  then have q: "256 * q \<le> M + 128" "M + 128 < 256 * q + 256" by linarith+
  then have "q < 65536" using near(1) assms(3) by simp
  then have "unat (mulU24X24toH16 x y) = q"
    by (simp only: unat_mulU24X24toH16 M_def[symmetric] q_def[symmetric]) simp
  then show ?thesis using near q by simp
qed

theorem mulU24X24toH16_rounds_witness:
  "2 ^ 24 * unat (mulU24X24toH16 0xfedcba 0x00f123) \<le> unat (0xfedcba :: u32) * unat (0x00f123 :: u32) + 2 ^ 23
    \<and> unat (0xfedcba :: u32) * unat (0x00f123 :: u32)
      < 2 ^ 24 * unat (mulU24X24toH16 0xfedcba 0x00f123) + 2 ^ 23 + 3 * 2 ^ 16"
  by (rule mulU24X24toH16_rounds) simp_all

section \<open>Accuracy of the tables\<close>

text \<open>
  Within a segment of \<open>d\<close> rates from \<open>r\<close>, the interval is the base minus a linear term, so its
  product with the rate is concave in the rate: it is enough to look at the two ends for the lower
  bound and at the tangent in the first point for the upper one. The products of interval and rate
  should be 2000000, the timer frequency; the bounds are two percent off.
\<close>

definition segment_ok :: "nat \<Rightarrow> nat \<Rightarrow> nat \<Rightarrow> u16 \<times> u16 \<Rightarrow> bool" where
  "segment_ok d off r bg =
     (let b = int (unat (fst bg)); g = int (unat (snd bg)); d = int d; off = int off; r = int r;
          a = d * b - off in
      g * (d - 1) \<le> a
      \<and> 1960000 * d \<le> r * a \<and> 1960000 * d \<le> (r + d - 1) * (a - g * (d - 1))
      \<and> r * (a + d - 1) + (d - 1) * max 0 (a + d - 1 - g * r) \<le> 2040000 * d)"

fun segments_ok :: "nat \<Rightarrow> nat \<Rightarrow> nat \<Rightarrow> (u16 \<times> u16) list \<Rightarrow> bool" where
  "segments_ok d off r [] = True"
| "segments_ok d off r (bg # rest) \<longleftrightarrow> segment_ok d off r bg \<and> segments_ok d off (r + d) rest"

lemma segments_ok_nth:
  "segments_ok d off r xs \<Longrightarrow> i < length xs \<Longrightarrow> segment_ok d off (r + d * i) (xs ! i)"
proof (induction xs arbitrary: r i)
  case (Cons x xs)
  show ?case
  proof (cases i)
    case (Suc j)
    with Cons.prems Cons.IH[of "r + d" j] show ?thesis by (simp add: add.assoc)
  qed (use Cons.prems in simp)
qed simp

lemma fast_segments: "segments_ok 256 128 (32 + 256 * 8) (take 31 (drop 8 speed_table_fast))"
  by (simp add: speed_table_fast_def segment_ok_def Let_def)

lemma slow_segments: "segments_ok 8 0 (32 + 8 * 11) (drop 11 speed_table_slow)"
  by (simp add: speed_table_slow_def segment_ok_def Let_def)

lemma concave_lower:
  fixes A g r n x l :: int
  assumes "0 \<le> x" "x \<le> n" "0 \<le> g" "0 < n" "l \<le> r * A" "l \<le> (r + n) * (A - g * n)"
  shows "l \<le> (r + x) * (A - g * x)"
proof -
  have "n * ((r + x) * (A - g * x)) =
      (n - x) * (r * A) + x * ((r + n) * (A - g * n)) + g * n * x * (n - x)"
    by (simp add: algebra_simps)
  moreover have "(n - x) * l \<le> (n - x) * (r * A)" "x * l \<le> x * ((r + n) * (A - g * n))"
    "0 \<le> g * n * x * (n - x)"
    using assms by (simp_all add: mult_left_mono)
  moreover have "n * l = (n - x) * l + x * l" by (simp add: algebra_simps)
  ultimately have "n * l \<le> n * ((r + x) * (A - g * x))" by linarith
  with assms(4) show ?thesis by simp
qed

lemma tangent_upper:
  fixes B g r n x u :: int
  assumes "0 \<le> x" "x \<le> n" "0 \<le> g" "r * B + n * max 0 (B - g * r) \<le> u"
  shows "(r + x) * (B - g * x) \<le> u"
proof -
  have "(r + x) * (B - g * x) = r * B + x * (B - g * r) - g * x * x" by (simp add: algebra_simps)
  moreover have "0 \<le> g * x * x" using assms by simp
  moreover have "x * (B - g * r) \<le> n * max 0 (B - g * r)"
  proof -
    have "x * (B - g * r) \<le> x * max 0 (B - g * r)" using assms(1) by (intro mult_left_mono) auto
    also have "\<dots> \<le> n * max 0 (B - g * r)" using assms(2) by (intro mult_right_mono) auto
    finally show ?thesis .
  qed
  ultimately show ?thesis using assms(4) by linarith
qed

lemma segment_bounds:
  assumes "segment_ok d off r (b, g)" "x < d" "1 < d"
    and t: "t = unat b - (unat g * x + off) div d"
  shows "(unat g * x + off) div d \<le> unat b" "1960000 \<le> (r + x) * t" "(r + x) * t \<le> 2040000"
proof -
  define nb ng where "nb = unat b" and "ng = unat g"
  note [simp] = nb_def [symmetric] ng_def [symmetric]
  let ?b = "int nb" and ?g = "int ng" and ?d = "int d" and ?q = "int ((ng * x + off) div d)"
  define A where "A = ?d * ?b - int off"
  have ok: "?g * (?d - 1) \<le> A" "1960000 * ?d \<le> int r * A"
    "1960000 * ?d \<le> (int r + (?d - 1)) * (A - ?g * (?d - 1))"
    "int r * (A + ?d - 1) + (?d - 1) * max 0 (A + ?d - 1 - ?g * int r) \<le> 2040000 * ?d"
    using assms(1) by (simp_all add: segment_ok_def Let_def A_def algebra_simps del: of_nat_unat)
  have x: "0 \<le> int x" "int x \<le> ?d - 1" "0 < ?d - 1" using assms(2,3) by simp_all
  have "ng * x + off = d * ((ng * x + off) div d) + (ng * x + off) mod d" by simp
  moreover have "(ng * x + off) mod d < d" using assms(3) by simp
  ultimately have "int (ng * x + off) = ?d * ?q + int ((ng * x + off) mod d)"
    "int ((ng * x + off) mod d) \<le> ?d - 1"
    by (metis of_nat_add of_nat_mult, linarith)
  then have q: "?d * ?q \<le> ?g * int x + int off" "?g * int x + int off - (?d - 1) \<le> ?d * ?q" by simp_all
  have "?g * int x \<le> ?g * (?d - 1)" using x by (intro mult_left_mono) auto
  with ok(1) q(1) have "?d * ?q \<le> ?d * ?b" by (simp add: A_def)
  then have le: "(ng * x + off) div d \<le> nb" using assms(3) by simp
  then show "(unat g * x + off) div d \<le> unat b" by simp
  then have tb: "?d * int t = ?d * ?b - ?d * ?q" using le by (simp add: t of_nat_diff algebra_simps)
  have "A - ?g * int x \<le> ?d * int t" using tb q(1) by (simp add: A_def)
  then have "(int r + int x) * (A - ?g * int x) \<le> (int r + int x) * (?d * int t)"
    by (intro mult_left_mono) auto
  moreover have "1960000 * ?d \<le> (int r + int x) * (A - ?g * int x)"
    using concave_lower[OF x(1,2) _ x(3) ok(2)] ok(3) by simp
  ultimately have "?d * 1960000 \<le> ?d * ((int r + int x) * int t)" by (simp add: algebra_simps)
  then have "1960000 \<le> (int r + int x) * int t" using x(3) by simp
  then show "1960000 \<le> (r + x) * t" by (metis of_nat_add of_nat_le_iff of_nat_mult of_nat_numeral)
  have "?d * int t \<le> (A + ?d - 1) - ?g * int x" using tb q(2) by (simp add: A_def)
  then have "(int r + int x) * (?d * int t) \<le> (int r + int x) * ((A + ?d - 1) - ?g * int x)"
    by (intro mult_left_mono) auto
  moreover have "(int r + int x) * ((A + ?d - 1) - ?g * int x) \<le> 2040000 * ?d"
    using tangent_upper[OF x(1,2) _ ok(4)] by simp
  ultimately have "?d * ((int r + int x) * int t) \<le> ?d * 2040000" by (simp add: algebra_simps)
  then have "(int r + int x) * int t \<le> 2040000" using x(3) by simp
  then show "(r + x) * t \<le> 2040000" by (metis of_nat_add of_nat_le_iff of_nat_mult of_nat_numeral)
qed

lemma slow_gains: "list_all (\<lambda>bg. unat (snd bg) \<le> 9000) (drop 11 speed_table_slow)"
  by (simp add: speed_table_slow_def)

lemma table_lengths: "length speed_table_fast = 256" "length speed_table_slow = 256"
  by (simp_all add: speed_table_fast_def speed_table_slow_def)

text \<open>The interval for a rate \<open>r\<close> of single steps, by the table it is looked up in.\<close>

definition table_timer :: "u16 \<Rightarrow> u16" where
  "table_timer step_rate =
     (if step_rate \<ge> 8 * 256 then
        let (base, gain) = speed_table_fast ! unat (u8_of_u16 (drop_bit 8 step_rate))
        in base - mulU8X16toH16 (u8_of_u16 (step_rate AND 0x00ff)) gain
      else
        let (base, gain) = speed_table_slow ! (unat (drop_bit 2 step_rate AND 0xfffe) div 2)
        in base - drop_bit 3 (gain * (step_rate AND 0x0007)))"

lemma unat_and_low: "unat (s AND mask n :: u16) = unat s mod 2 ^ n"
  by (simp only: take_bit_eq_mask [symmetric] unsigned_take_bit_eq) (simp only: take_bit_eq_mod)

lemma drop_even: "unat (drop_bit 2 s AND 0xfffe :: u16) div 2 = unat s div 8"
proof -
  have m: "(0xfffe :: u16) = NOT (mask 1)" by simp
  have "drop_bit 1 (drop_bit 2 s AND 0xfffe) = drop_bit 3 s"
    unfolding m
    by (rule bit_word_eqI) (auto simp only: bit_drop_bit_eq o_def bit_and_iff bit_not_iff bit_mask_iff
        possible_bit_word add_2_eq_Suc add_Suc_right numeral_3_eq_3 add_Suc plus_1_eq_Suc add_0 dest: bit_imp_le_length)
  then have "unat (drop_bit 1 (drop_bit 2 s AND 0xfffe)) = unat (drop_bit 3 s)" by (rule arg_cong)
  then show ?thesis by (simp only: unat_drop_bit) simp
qed

lemma table_timer_accurate:
  assumes "88 \<le> unat s" "unat s \<le> 9968"
  shows "1960000 \<le> (32 + unat s) * unat (table_timer s)" "(32 + unat s) * unat (table_timer s) \<le> 2040000"
proof -
  have "1960000 \<le> (32 + unat s) * unat (table_timer s) \<and> (32 + unat s) * unat (table_timer s) \<le> 2040000"
  proof (cases "s \<ge> 8 * 256")
    case True
    then have ge: "2048 \<le> unat s" by (simp add: word_le_nat_alt)
    let ?i = "unat s div 256" and ?x = "unat s mod 256"
    have i: "?i - 8 < 31" "8 \<le> ?i" using ge assms(2) by (simp_all add: div_le_mono div_less_iff_less_mult)
    obtain b g where bg: "speed_table_fast ! ?i = (b, g)" by fastforce
    have "take 31 (drop 8 speed_table_fast) ! (?i - 8) = (b, g)"
      using i bg by (simp add: table_lengths)
    then have ok: "segment_ok 256 128 (32 + 256 * 8 + 256 * (?i - 8)) (b, g)"
      using segments_ok_nth[OF fast_segments, of "?i - 8"] i by (simp add: table_lengths)
    have r: "32 + 256 * 8 + 256 * (?i - 8) + ?x = 32 + unat s"
    proof -
      have "256 * 8 + 256 * (?i - 8) = 256 * ?i" using i(2) by (simp add: algebra_simps)
      moreover have "256 * ?i + ?x = unat s" by simp
      ultimately show ?thesis by linarith
    qed
    have idx: "unat (u8_of_u16 (drop_bit 8 s)) = ?i"
      using i(1) by (simp add: unat_u8_of_u16 unat_drop_bit)
    have m: "(0x00ff :: u16) = mask 8" by (simp add: mask_eq_exp_minus_1)
    have xs: "unat (u8_of_u16 (s AND 0x00ff)) = ?x"
      unfolding m by (simp add: unat_u8_of_u16 unat_and_low)
    have tt: "table_timer s = b - mulU8X16toH16 (u8_of_u16 (s AND 0x00ff)) g"
      using True by (simp only: table_timer_def if_True idx bg prod.case Let_def)
    note sb = segment_bounds[OF ok, of ?x]
    have "unat (mulU8X16toH16 (u8_of_u16 (s AND 0x00ff)) g) = (unat g * ?x + 128) div 256"
      by (simp only: unat_mulU8X16toH16 xs mult.commute)
    then have "unat (table_timer s) = unat b - (unat g * ?x + 128) div 256"
      using sb(1) unfolding tt by (subst unat_sub) (simp_all add: word_le_nat_alt)
    with sb(2,3) show ?thesis unfolding r by simp
  next
    case False
    then have lt: "unat s < 2048" by (simp add: word_le_nat_alt)
    let ?i = "unat s div 8" and ?x = "unat s mod 8"
    have i: "?i < 256" "11 \<le> ?i" "?i - 11 < 245"
      using lt assms(1) by (simp_all add: div_le_mono div_less_iff_less_mult)
    obtain b g where bg: "speed_table_slow ! ?i = (b, g)" by fastforce
    have d: "drop 11 speed_table_slow ! (?i - 11) = (b, g)"
      using i bg by (simp add: table_lengths)
    then have ok: "segment_ok 8 0 (32 + 8 * 11 + 8 * (?i - 11)) (b, g)"
      using segments_ok_nth[OF slow_segments, of "?i - 11"] i by (simp add: table_lengths)
    have "(b, g) \<in> set (drop 11 speed_table_slow)"
      using nth_mem[of "?i - 11" "drop 11 speed_table_slow"] i(3) by (simp only: d length_drop table_lengths)
    then have g: "unat g \<le> 9000" using slow_gains by (auto simp: list_all_iff)
    have r: "32 + 8 * 11 + 8 * (?i - 11) + ?x = 32 + unat s"
    proof -
      have "8 * 11 + 8 * (?i - 11) = 8 * ?i" using i(2) by (simp add: algebra_simps)
      moreover have "8 * ?i + ?x = unat s" by simp
      ultimately show ?thesis by linarith
    qed
    have m: "(0x0007 :: u16) = mask 3" by (simp add: mask_eq_exp_minus_1)
    have x: "unat (s AND 0x0007) = ?x" unfolding m unat_and_low by simp
    have tt: "table_timer s = b - drop_bit 3 (g * (s AND 0x0007))"
      using False by (simp only: table_timer_def if_False drop_even bg prod.case Let_def)
    note sb = segment_bounds[OF ok, of ?x]
    have "?x \<le> 7" using mod_less_divisor[of 8 "unat s"] by linarith
    then have "unat g * ?x \<le> 9000 * 7" by (rule mult_le_mono[OF g])
    then have "unat g * ?x < 2 ^ LENGTH(16)" by simp
    then have "unat (g * (s AND 0x0007)) = unat g * ?x" 
      using unat_mult_lem[of g "s AND 0x0007"] by (simp only: x)
    then have "unat (drop_bit 3 (g * (s AND 0x0007))) = (unat g * ?x + 0) div 8"
      by (simp only: unat_drop_bit) simp
    then have "unat (table_timer s) = unat b - (unat g * ?x + 0) div 8"
      using sb(1) unfolding tt by (subst unat_sub) (simp_all add: word_le_nat_alt)
    with sb(2,3) show ?thesis unfolding r by simp
  qed
  then show "1960000 \<le> (32 + unat s) * unat (table_timer s)"
    "(32 + unat s) * unat (table_timer s) \<le> 2040000" by simp_all
qed


section \<open>The timer calculation\<close>

text \<open>The rate after the multiplication of the steps, and the number of steps per interrupt.\<close>

definition step_split :: "u16 \<Rightarrow> u16 \<times> u8" where
  "step_split step_rate =
     (let step_rate = (if step_rate > maxStepFrequency then maxStepFrequency else step_rate)
      in if step_rate > 20000 then (drop_bit 2 step_rate AND 0x3fff, 4)
         else if step_rate > 10000 then (drop_bit 1 step_rate AND 0x7fff, 2)
         else (step_rate, 1))"

lemma calc_timer_table:
  "calc_timer r =
     (let (s, n) = step_split r; t = table_timer ((if s < 32 then 32 else s) - 32)
      in (if t < 100 then 100 else t, n))"
  unfolding calc_timer_def step_split_def table_timer_def Let_def F_CPU_def
  by (auto split: prod.splits if_splits)

lemma drop_and_mask: "drop_bit n r AND mask (16 - n) = drop_bit n (r :: u16)"
proof (rule bit_word_eqI)
  fix k
  show "bit (drop_bit n r AND mask (16 - n)) k = bit (drop_bit n r) k"
    using bit_imp_le_length[of r "n + k"] by (auto simp: bit_simps)
qed

lemma step_split_cases:
  fixes r :: u16
  defines "v \<equiv> min (unat r) 40000"
  assumes "120 \<le> unat r"
  obtains s n where "step_split r = (s, n)" "n \<in> {1, 2, 4}" "unat s = v div unat n"
    "120 \<le> unat s" "unat s \<le> 10000"
proof -
  define c where "c = (if r > maxStepFrequency then maxStepFrequency else r)"
  have c: "unat c = v" unfolding c_def v_def maxStepFrequency_def by (auto simp: word_less_nat_alt)
  have m: "(0x3fff :: u16) = mask (16 - 2)" "(0x7fff :: u16) = mask (16 - 1)"
    by (simp_all add: mask_eq_exp_minus_1)
  have v: "120 \<le> v" "v \<le> 40000" using assms by (auto simp: v_def)
  consider (four) "20000 < v" | (two) "10000 < v" "v \<le> 20000" | (one) "v \<le> 10000" by linarith
  then show thesis
  proof cases
    case four
    then have "step_split r = (drop_bit 2 c, 4)"
      unfolding step_split_def c_def[symmetric] Let_def m drop_and_mask
      by (simp add: word_less_nat_alt c)
    then show thesis using that[of "drop_bit 2 c" 4] four v
      by (simp add: unat_drop_bit c)
  next
    case two
    then have "step_split r = (drop_bit 1 c, 2)"
      unfolding step_split_def c_def[symmetric] Let_def m drop_and_mask
      by (simp add: word_less_nat_alt c)
    then show thesis using that[of "drop_bit 1 c" 2] two v
      by (simp only: unat_drop_bit c) simp
  next
    case one
    then have "step_split r = (c, 1)"
      unfolding step_split_def c_def[symmetric] Let_def
      by (simp add: word_less_nat_alt c)
    then show thesis using that[of c 1] one v by (simp add: c)
  qed
qed

text \<open>
  Below that the 16-bit product of the slow table's correction can wrap: at 38 steps per second the
  interval is longer than at 37.
\<close>

lemma slow_rates_wrap: "calc_timer 37 = (54688, 1)" "calc_timer 38 = (61317, 1)"
proof -
  obtain t where t: "speed_table_slow = (62500, 12500) # t" by (simp add: speed_table_slow_def)
  show "calc_timer 37 = (54688, 1)" "calc_timer 38 = (61317, 1)"
    by (simp_all add: calc_timer_def t maxStepFrequency_def F_CPU_def Let_def)
qed

text \<open>C21: From 120 steps per second on, the timer interval chosen for a rate reproduces the rate,
  capped at the maximum of 40000 steps, to two percent of the 2 MHz timer clock: one, two or four
  steps are done in an interrupt, the interval is never below the 100 ticks an interrupt needs, and
  the 16-bit differences of table base and interpolated correction do not wrap.\<close>

theorem calc_timer_accurate:
  assumes "120 \<le> unat rate"
  shows "case calc_timer rate of (timer, step_loops) \<Rightarrow>
    step_loops \<in> {1, 2, 4} \<and> 100 \<le> unat timer
    \<and> 1960000 \<le> min (unat rate) 40000 div unat step_loops * unat timer
    \<and> min (unat rate) 40000 div unat step_loops * unat timer \<le> 2040000"
proof -
  obtain s n where sn: "step_split rate = (s, n)" "n \<in> {1, 2, 4}"
    "unat s = min (unat rate) 40000 div unat n" "120 \<le> unat s" "unat s \<le> 10000"
    using assms by (rule step_split_cases)
  have s: "unat (s - 32) = unat s - 32" "\<not> s < 32"
    using sn(4) by (simp_all add: unat_sub word_le_nat_alt word_less_nat_alt)
  define t where "t = table_timer (s - 32)"
  have t: "1960000 \<le> unat s * unat t" "unat s * unat t \<le> 2040000"
    using table_timer_accurate[of "s - 32"] sn(4,5) by (simp_all add: s t_def)
  have "100 \<le> unat t"
  proof (rule ccontr)
    assume "\<not> 100 \<le> unat t"
    then have "unat s * unat t \<le> 10000 * 99" using sn(5) by (intro mult_le_mono) auto
    with t(1) show False by simp
  qed
  moreover from this have "calc_timer rate = (t, n)"
    
    by (simp only: calc_timer_table sn(1) s(2) if_False Let_def prod.case t_def[symmetric])
      (simp add: word_less_nat_alt)
  ultimately show ?thesis using t sn(2) by (simp add: sn(3))
qed

theorem calc_timer_accurate_witness:
  "case calc_timer 31000 of (timer, step_loops) \<Rightarrow>
    step_loops \<in> {1, 2, 4} \<and> 100 \<le> unat timer
    \<and> 1960000 \<le> min (unat (31000 :: u16)) 40000 div unat step_loops * unat timer
    \<and> min (unat (31000 :: u16)) 40000 div unat step_loops * unat timer \<le> 2040000"
  by (rule calc_timer_accurate) simp

end
