(* ===== verification/Circular_Buffer.thy ===== *)
theory Circular_Buffer
  imports Prelude
begin

text \<open>
  The circular index and buffer of \<open>hal/circular_buffer.h\<close>. The template parameter \<open>size\<close> is
  the first argument of every operation and \<open>index_t\<close> is the byte the firmware instantiates it
  with; both the power-of-two and the general branch are modelled. The buffer is an instance of
  the locale \<open>bounded_queue\<close>, the contract its clients rely on.
\<close>

section \<open>The circular index\<close>

record CircularIndex =
  ci_tail :: u8
  ci_head :: u8

definition size_is_power2 :: "u8 \<Rightarrow> bool" where
  "size_is_power2 sz \<longleftrightarrow> sz AND (sz - 1) = 0"

definition mask_cursor :: "u8 \<Rightarrow> u8 \<Rightarrow> u8" where
  "mask_cursor sz cursor = cursor mod sz"

definition next_cursor :: "u8 \<Rightarrow> u8 \<Rightarrow> u8" where
  "next_cursor sz cursor =
     (if size_is_power2 sz then cursor + 1 else (cursor + 1) mod (sz * 2))"

definition CI_new :: CircularIndex where
  "CI_new = \<lparr>ci_tail = 0, ci_head = 0\<rparr>"

definition CI_empty :: "CircularIndex \<Rightarrow> bool" where
  "CI_empty i \<longleftrightarrow> ci_tail i = ci_head i"

definition CI_count :: "u8 \<Rightarrow> CircularIndex \<Rightarrow> u8" where
  "CI_count sz i =
     (if size_is_power2 sz then ci_head i - ci_tail i
      else if ci_head i \<ge> ci_tail i then ci_head i - ci_tail i
      else (sz * 2 + ci_head i) - ci_tail i)"

definition CI_full :: "u8 \<Rightarrow> CircularIndex \<Rightarrow> bool" where
  "CI_full sz i \<longleftrightarrow> CI_count sz i = sz"

definition CI_reset :: "CircularIndex \<Rightarrow> CircularIndex" where
  "CI_reset i = i\<lparr>ci_head := ci_tail i\<rparr>"

definition CI_push :: "u8 \<Rightarrow> CircularIndex \<Rightarrow> CircularIndex" where
  "CI_push sz i = i\<lparr>ci_head := next_cursor sz (ci_head i)\<rparr>"

definition CI_pop :: "u8 \<Rightarrow> CircularIndex \<Rightarrow> CircularIndex" where
  "CI_pop sz i = i\<lparr>ci_tail := next_cursor sz (ci_tail i)\<rparr>"

definition CI_front :: "u8 \<Rightarrow> CircularIndex \<Rightarrow> u8" where
  "CI_front sz i = mask_cursor sz (ci_tail i)"

definition CI_back :: "u8 \<Rightarrow> CircularIndex \<Rightarrow> u8" where
  "CI_back sz i = mask_cursor sz (ci_head i)"

section \<open>The circular buffer\<close>

record 'a CircularBuffer =
  cb_data :: "'a list"
  cb_index :: CircularIndex

definition CB_new :: "u8 \<Rightarrow> 'a \<Rightarrow> 'a CircularBuffer" where
  "CB_new sz x = \<lparr>cb_data = replicate (unat sz) x, cb_index = CI_new\<rparr>"

definition CB_empty :: "'a CircularBuffer \<Rightarrow> bool" where
  "CB_empty b = CI_empty (cb_index b)"

definition CB_full :: "u8 \<Rightarrow> 'a CircularBuffer \<Rightarrow> bool" where
  "CB_full sz b = CI_full sz (cb_index b)"

definition CB_reset :: "'a CircularBuffer \<Rightarrow> 'a CircularBuffer" where
  "CB_reset b = b\<lparr>cb_index := CI_reset (cb_index b)\<rparr>"

definition CB_push :: "u8 \<Rightarrow> 'a \<Rightarrow> 'a CircularBuffer \<Rightarrow> bool \<times> 'a CircularBuffer" where
  "CB_push sz e b =
     (if CB_full sz b then (False, b)
      else (True, b\<lparr>cb_data := (cb_data b)[unat (CI_back sz (cb_index b)) := e],
                    cb_index := CI_push sz (cb_index b)\<rparr>))"

definition CB_front :: "u8 \<Rightarrow> 'a CircularBuffer \<Rightarrow> 'a" where
  "CB_front sz b = cb_data b ! unat (CI_front sz (cb_index b))"

text \<open>The reference argument of \<open>pop\<close> is written only if an element was there.\<close>

definition CB_pop :: "u8 \<Rightarrow> 'a CircularBuffer \<Rightarrow> 'a option \<times> 'a CircularBuffer" where
  "CB_pop sz b =
     (if CB_empty b then (None, b)
      else (Some (CB_front sz b), b\<lparr>cb_index := CI_pop sz (cb_index b)\<rparr>))"

definition CB_count :: "u8 \<Rightarrow> 'a CircularBuffer \<Rightarrow> u8" where
  "CB_count sz b = CI_count sz (cb_index b)"

section \<open>Cursor arithmetic\<close>

text \<open>
  Both branches count modulo a multiple of the size: 256 when the byte simply wraps, twice the
  size otherwise.
\<close>

definition valid_size :: "u8 \<Rightarrow> bool" where
  "valid_size sz \<longleftrightarrow> 0 < unat sz \<and> unat sz \<le> 127"

definition cursor_modulus :: "u8 \<Rightarrow> nat" where
  "cursor_modulus sz = (if size_is_power2 sz then 256 else 2 * unat sz)"

definition CI_wf :: "u8 \<Rightarrow> CircularIndex \<Rightarrow> bool" where
  "CI_wf sz i \<longleftrightarrow> valid_size sz
     \<and> unat (ci_tail i) < cursor_modulus sz \<and> unat (ci_head i) < cursor_modulus sz
     \<and> unat (CI_count sz i) \<le> unat sz"

lemma power2_dvd: "valid_size sz \<Longrightarrow> size_is_power2 sz \<Longrightarrow> unat sz dvd 256"
proof -
  have "valid_size sz \<and> size_is_power2 sz \<longrightarrow> 256 mod unat sz = 0" if "unat sz < 128"
    by (rule all_u8_less[where k = 128
          and P = "\<lambda>sz. valid_size sz \<and> size_is_power2 sz \<longrightarrow> 256 mod unat sz = 0"])
      (code_simp, rule that)
  then show "valid_size sz \<Longrightarrow> size_is_power2 sz \<Longrightarrow> unat sz dvd 256"
    by (auto simp: valid_size_def)
qed

lemma cursor_modulus_dvd: "valid_size sz \<Longrightarrow> unat sz dvd cursor_modulus sz"
  by (simp add: cursor_modulus_def power2_dvd)

lemma cursor_modulus_bounds:
  assumes "valid_size sz"
  shows "2 * unat sz \<le> cursor_modulus sz" "cursor_modulus sz \<le> 256" "0 < cursor_modulus sz"
  using assms by (auto simp: cursor_modulus_def valid_size_def)

lemma unat_double: "valid_size sz \<Longrightarrow> unat (sz * 2) = 2 * unat sz"
  by (simp add: valid_size_def unat_mult_lem [symmetric] unat_word_ariths)

lemma unat_next_cursor:
  assumes "valid_size sz" "unat c < cursor_modulus sz"
  shows "unat (next_cursor sz c) = (unat c + 1) mod cursor_modulus sz"
proof (cases "size_is_power2 sz")
  case True
  then show ?thesis by (simp add: next_cursor_def cursor_modulus_def unat_word_ariths)
next
  case False
  with assms have "unat (c + 1) = unat c + 1"
    by (simp add: cursor_modulus_def valid_size_def unat_word_ariths)
  with False assms show ?thesis
    by (simp add: next_cursor_def cursor_modulus_def unat_mod_distrib unat_double)
qed

lemma unat_CI_count:
  assumes "valid_size sz" "unat (ci_tail i) < cursor_modulus sz" "unat (ci_head i) < cursor_modulus sz"
  shows "unat (CI_count sz i) =
    (unat (ci_head i) + cursor_modulus sz - unat (ci_tail i)) mod cursor_modulus sz"
proof (cases "size_is_power2 sz")
  case True
  have "unat (h - t) = (unat h + 256 - unat t) mod 256" for h t :: u8
    using unat_less_256[of h] unat_less_256[of t]
    by (cases "unat t \<le> unat h") (simp_all add: unat_sub_if' word_le_nat_alt le_mod_geq less_imp_diff_less)
  with True show ?thesis by (simp add: CI_count_def cursor_modulus_def)
next
  case False
  show ?thesis
  proof (cases "ci_tail i \<le> ci_head i")
    case True
    then have le: "unat (ci_tail i) \<le> unat (ci_head i)" by (simp add: word_le_nat_alt)
    then have "(unat (ci_head i) + 2 * unat sz - unat (ci_tail i)) mod (2 * unat sz) =
        (unat (ci_head i) - unat (ci_tail i)) mod (2 * unat sz)"
      by (metis Nat.add_diff_assoc2 mod_add_self2)
    with False True assms(2,3) show ?thesis
      by (simp add: CI_count_def cursor_modulus_def unat_sub)
  next
    case lt: False
    then have l: "unat (ci_head i) < unat (ci_tail i)" by (simp add: word_le_nat_alt)
    have "(word_of_nat (2 * unat sz + unat (ci_head i) - unat (ci_tail i)) :: u8) =
        sz * 2 + ci_head i - ci_tail i"
      using assms(2) False by (simp add: of_nat_diff cursor_modulus_def mult.commute)
    moreover have "unat (word_of_nat (2 * unat sz + unat (ci_head i) - unat (ci_tail i)) :: u8) =
        2 * unat sz + unat (ci_head i) - unat (ci_tail i)"
      using assms(1) l by (auto simp: unat_of_nat valid_size_def intro!: mod_less)
    ultimately show ?thesis
      using False lt l assms by (simp add: CI_count_def cursor_modulus_def add.commute)
  qed
qed

lemma CI_full_iff: "CI_wf sz i \<Longrightarrow> CI_full sz i \<longleftrightarrow> unat (CI_count sz i) = unat sz"
  by (simp only: CI_full_def word_unat_eq_iff)

lemma CI_empty_iff:
  assumes "CI_wf sz i" shows "CI_empty i \<longleftrightarrow> unat (CI_count sz i) = 0"
proof -
  let ?M = "cursor_modulus sz"
  let ?t = "unat (ci_tail i)" and ?h = "unat (ci_head i)"
  from assms have b: "?t < ?M" "?h < ?M" by (simp_all add: CI_wf_def)
  have "(?h + ?M - ?t) mod ?M = 0 \<longleftrightarrow> ?t = ?h"
  proof (cases "?t \<le> ?h")
    case True
    then have "(?h + ?M - ?t) mod ?M = ?h - ?t"
      using b by (metis Nat.add_diff_assoc2 less_imp_diff_less mod_add_self2 mod_less)
    with True show ?thesis by auto
  next
    case False
    then have "(?h + ?M - ?t) mod ?M = ?h + ?M - ?t" using b by (intro mod_less) linarith
    with False b show ?thesis by auto
  qed
  with assms show ?thesis
    by (simp add: CI_empty_def CI_wf_def unat_CI_count word_unat_eq_iff)
qed

text \<open>Counting up from the tail reaches the head after \<open>count\<close> turns.\<close>

lemma cursor_head:
  assumes "CI_wf sz i"
  shows "(unat (ci_tail i) + unat (CI_count sz i)) mod cursor_modulus sz = unat (ci_head i)"
proof -
  let ?M = "cursor_modulus sz"
  from assms have b: "unat (ci_tail i) < ?M" "unat (ci_head i) < ?M" by (simp_all add: CI_wf_def)
  then have "(unat (ci_tail i) + (unat (ci_head i) + ?M - unat (ci_tail i)) mod ?M) mod ?M =
      (unat (ci_head i) + ?M) mod ?M"
    by (simp add: mod_simps)
  with assms b show ?thesis by (simp add: unat_CI_count CI_wf_def)
qed

text \<open>The cells in use, oldest first.\<close>

definition CI_cells :: "u8 \<Rightarrow> CircularIndex \<Rightarrow> nat list" where
  "CI_cells sz i =
     map (\<lambda>k. (unat (ci_tail i) + k) mod unat sz) [0..<unat (CI_count sz i)]"

lemma CI_cells_less: "CI_wf sz i \<Longrightarrow> c \<in> set (CI_cells sz i) \<Longrightarrow> c < unat sz"
  by (auto simp: CI_cells_def CI_wf_def valid_size_def)

lemma CI_cells_distinct:
  assumes "CI_wf sz i" shows "distinct (CI_cells sz i)"
proof -
  have lt: "(t + a) mod n \<noteq> (t + b) mod n" if "a < b" "b < n" for t a b n :: nat
  proof
    assume "(t + a) mod n = (t + b) mod n"
    with that(1) have "n dvd (t + b) - (t + a)" by (metis add_le_cancel_left less_imp_le mod_eq_dvd_iff_nat)
    then have "n dvd b - a" by simp
    with that show False using nat_dvd_not_less[of "b - a" n] by simp
  qed
  have "inj_on (\<lambda>k. (t + k) mod n) {0..<m}" if "m \<le> n" for t m n :: nat
  proof (rule inj_onI)
    fix a b assume "a \<in> {0..<m}" "b \<in> {0..<m}" "(t + a) mod n = (t + b) mod n"
    with that lt[of a b n t] lt[of b a n t] show "a = b" by (cases a b rule: linorder_cases) auto
  qed
  with assms show ?thesis by (simp add: CI_cells_def distinct_map CI_wf_def)
qed

lemma CI_back_cell:
  assumes "CI_wf sz i"
  shows "unat (CI_back sz i) = (unat (ci_tail i) + unat (CI_count sz i)) mod unat sz"
proof -
  have "unat sz dvd cursor_modulus sz" using assms by (simp add: CI_wf_def cursor_modulus_dvd)
  then show ?thesis
    by (simp add: CI_back_def mask_cursor_def unat_mod_distrib mod_mod_cancel
        flip: cursor_head[OF assms])
qed

lemma CI_push_wf:
  assumes "CI_wf sz i" "\<not> CI_full sz i"
  shows "CI_wf sz (CI_push sz i)" "CI_cells sz (CI_push sz i) = CI_cells sz i @ [unat (CI_back sz i)]"
proof -
  let ?M = "cursor_modulus sz" and ?t = "unat (ci_tail i)" and ?n = "unat (CI_count sz i)"
  have v: "valid_size sz" "?t < ?M" "unat (ci_head i) < ?M" "?n \<le> unat sz"
    using assms(1) by (simp_all add: CI_wf_def)
  have room: "?n < unat sz" using v(4) assms CI_full_iff by force
  have h: "unat (ci_head (CI_push sz i)) = (?t + Suc ?n) mod ?M"
    using cursor_head[OF assms(1)] v by (simp add: CI_push_def unat_next_cursor mod_Suc_eq flip: cursor_head[OF assms(1)])
  have hM: "unat (ci_head (CI_push sz i)) < ?M"
    unfolding h using cursor_modulus_bounds[OF v(1)] by (intro mod_less_divisor)
  have t: "ci_tail (CI_push sz i) = ci_tail i" by (simp add: CI_push_def)
  have c: "unat (CI_count sz (CI_push sz i)) = Suc ?n"
  proof -
    have "unat (CI_count sz (CI_push sz i)) = ((?t + Suc ?n) mod ?M + ?M - ?t) mod ?M"
      using unat_CI_count[OF v(1), of "CI_push sz i"] hM v(2) by (simp add: t h)
    also have "\<dots> = ((?t + Suc ?n) mod ?M + (?M - ?t)) mod ?M" using v(2) by simp
    also have "\<dots> = (?t + Suc ?n + (?M - ?t)) mod ?M" by (rule mod_add_left_eq)
    also have "?t + Suc ?n + (?M - ?t) = Suc ?n + ?M" using v(2) by simp
    also have "(Suc ?n + ?M) mod ?M = Suc ?n"
      using room cursor_modulus_bounds(1)[OF v(1)] by (simp only: mod_add_self2) simp
    finally show ?thesis .
  qed
  show "CI_wf sz (CI_push sz i)"
    using v room hM by (simp add: CI_wf_def t c)
  show "CI_cells sz (CI_push sz i) = CI_cells sz i @ [unat (CI_back sz i)]"
    by (simp add: CI_cells_def t c CI_back_cell[OF assms(1)])
qed

lemma CI_pop_wf:
  assumes "CI_wf sz i" "\<not> CI_empty i"
  shows "CI_wf sz (CI_pop sz i)" "CI_cells sz i = unat (CI_front sz i) # CI_cells sz (CI_pop sz i)"
proof -
  let ?M = "cursor_modulus sz" and ?t = "unat (ci_tail i)" and ?n = "unat (CI_count sz i)"
  have v: "valid_size sz" "?t < ?M" "unat (ci_head i) < ?M" "?n \<le> unat sz"
    using assms(1) by (simp_all add: CI_wf_def)
  obtain m where m: "?n = Suc m" using assms CI_empty_iff by (cases ?n) auto
  have h: "ci_head (CI_pop sz i) = ci_head i" by (simp add: CI_pop_def)
  have t: "unat (ci_tail (CI_pop sz i)) = Suc ?t mod ?M"
    using v by (simp add: CI_pop_def unat_next_cursor)
  have tM: "unat (ci_tail (CI_pop sz i)) < ?M"
    unfolding t using cursor_modulus_bounds[OF v(1)] by (intro mod_less_divisor)
  have c: "unat (CI_count sz (CI_pop sz i)) = m"
  proof -
    let ?t' = "Suc ?t mod ?M"
    have "unat (CI_count sz (CI_pop sz i)) = (unat (ci_head i) + ?M - ?t') mod ?M"
      using unat_CI_count[OF v(1), of "CI_pop sz i"] tM v(3) by (simp add: t h)
    also have "unat (ci_head i) = (?t + Suc m) mod ?M" using cursor_head[OF assms(1)] m by simp
    also have "((?t + Suc m) mod ?M + ?M - ?t') mod ?M = ((?t + Suc m) mod ?M + (?M - ?t')) mod ?M"
      using tM t by simp
    also have "\<dots> = (?t + Suc m + (?M - ?t')) mod ?M" by (rule mod_add_left_eq)
    also have "\<dots> = ((Suc ?t + m) mod ?M + (?M - ?t')) mod ?M" by (simp add: mod_simps)
    also have "\<dots> = ((?t' + m) mod ?M + (?M - ?t')) mod ?M" by (simp add: mod_simps)
    also have "\<dots> = (?t' + m + (?M - ?t')) mod ?M" by (rule mod_add_left_eq)
    also have "?t' + m + (?M - ?t') = m + ?M" using tM t by simp
    also have "(m + ?M) mod ?M = m"
      using m v(4) cursor_modulus_bounds(1)[OF v(1)] by simp
    finally show ?thesis .
  qed
  show "CI_wf sz (CI_pop sz i)"
    using v m tM by (simp add: CI_wf_def h c)
  have "(Suc ?t mod ?M + k) mod unat sz = (?t + Suc k) mod unat sz" for k
  proof -
    have "Suc ?t mod ?M mod unat sz = Suc ?t mod unat sz"
      using cursor_modulus_dvd[OF v(1)] by (rule mod_mod_cancel)
    then have "(Suc ?t mod ?M + k) mod unat sz = (Suc ?t + k) mod unat sz"
      by (metis mod_add_left_eq)
    then show ?thesis by simp
  qed
  then show "CI_cells sz i = unat (CI_front sz i) # CI_cells sz (CI_pop sz i)"
    by (simp add: CI_cells_def t c m CI_front_def mask_cursor_def unat_mod_distrib
        upt_conv_Cons map_Suc_upt [symmetric] comp_def del: upt_Suc)
qed

section \<open>The buffer as a bounded queue\<close>

fun push_all :: "('a \<Rightarrow> 'q \<Rightarrow> bool \<times> 'q) \<Rightarrow> 'a list \<Rightarrow> 'q \<Rightarrow> 'q" where
  "push_all push [] q = q"
| "push_all push (x # xs) q = push_all push xs (snd (push x q))"

fun pop_n :: "('q \<Rightarrow> 'a option \<times> 'q) \<Rightarrow> nat \<Rightarrow> 'q \<Rightarrow> 'a option list \<times> 'q" where
  "pop_n pop 0 q = ([], q)"
| "pop_n pop (Suc n) q = (let (x, q') = pop q; (xs, q'') = pop_n pop n q' in (x # xs, q''))"

text \<open>
  The contract of a queue that holds at most \<open>capacity\<close> elements: what its clients may rely on.
\<close>

locale bounded_queue =
  fixes wf :: "'q \<Rightarrow> bool"
    and contents :: "'q \<Rightarrow> 'a list"
    and push :: "'a \<Rightarrow> 'q \<Rightarrow> bool \<times> 'q"
    and pop :: "'q \<Rightarrow> 'a option \<times> 'q"
    and capacity :: nat
  assumes push_room: "wf q \<Longrightarrow> length (contents q) < capacity \<Longrightarrow>
        fst (push x q) \<and> wf (snd (push x q)) \<and> contents (snd (push x q)) = contents q @ [x]"
    and push_full: "wf q \<Longrightarrow> \<not> length (contents q) < capacity \<Longrightarrow> push x q = (False, q)"
    and pop_empty: "wf q \<Longrightarrow> contents q = [] \<Longrightarrow> pop q = (None, q)"
    and pop_head: "wf q \<Longrightarrow> contents q = x # xs \<Longrightarrow>
        fst (pop q) = Some x \<and> wf (snd (pop q)) \<and> contents (snd (pop q)) = xs"
    and size_bound: "wf q \<Longrightarrow> length (contents q) \<le> capacity"
begin

lemma push_all_contents:
  "wf q \<Longrightarrow> length (contents q) + length xs \<le> capacity \<Longrightarrow>
     wf (push_all push xs q) \<and> contents (push_all push xs q) = contents q @ xs"
proof (induction xs arbitrary: q)
  case (Cons x xs)
  with push_room[of q x] Cons.IH[of "snd (push x q)"] show ?case by simp
qed simp

lemma pop_n_contents:
  "wf q \<Longrightarrow> contents q = xs @ ys \<Longrightarrow>
     fst (pop_n pop (length xs) q) = map Some xs
     \<and> wf (snd (pop_n pop (length xs) q)) \<and> contents (snd (pop_n pop (length xs) q)) = ys"
proof (induction xs arbitrary: q)
  case (Cons x xs)
  with pop_head[of q x "xs @ ys"] Cons.IH[of "snd (pop q)"] show ?case
    by (simp add: case_prod_beta Let_def)
qed simp

text \<open>What goes in comes out, in the same order, behind what was there before.\<close>

lemma fifo:
  assumes "wf q" "length (contents q) + length xs \<le> capacity"
  shows "fst (pop_n pop (length (contents q) + length xs) (push_all push xs q)) = map Some (contents q @ xs)"
  using push_all_contents[OF assms] pop_n_contents[of "push_all push xs q" "contents q @ xs" "[]"] by simp

lemma push_iff_room: "wf q \<Longrightarrow> fst (push x q) \<longleftrightarrow> length (contents q) < capacity"
  using push_room push_full by fastforce

end

definition CB_wf :: "u8 \<Rightarrow> 'a CircularBuffer \<Rightarrow> bool" where
  "CB_wf sz b \<longleftrightarrow> CI_wf sz (cb_index b) \<and> length (cb_data b) = unat sz"

definition CB_contents :: "u8 \<Rightarrow> 'a CircularBuffer \<Rightarrow> 'a list" where
  "CB_contents sz b = map ((!) (cb_data b)) (CI_cells sz (cb_index b))"

lemma CI_cells_length [simp]: "length (CI_cells sz i) = unat (CI_count sz i)"
  by (simp add: CI_cells_def)

lemma CB_contents_length: "length (CB_contents sz b) = unat (CB_count sz b)"
  by (simp add: CB_contents_def CB_count_def)

lemma CB_new_wf: "valid_size sz \<Longrightarrow> CB_wf sz (CB_new sz x) \<and> CB_contents sz (CB_new sz x) = []"
  by (auto simp: CB_wf_def CI_wf_def CB_new_def CI_new_def CB_contents_def CI_cells_def
      CI_count_def cursor_modulus_bounds)

lemma CI_back_fresh:
  assumes "CI_wf sz i" "\<not> CI_full sz i" shows "unat (CI_back sz i) \<notin> set (CI_cells sz i)"
  using CI_cells_distinct[OF CI_push_wf(1)[OF assms]] by (simp add: CI_push_wf(2)[OF assms])

lemma CB_push_room:
  assumes "CB_wf sz b" "length (CB_contents sz b) < unat sz"
  shows "fst (CB_push sz x b) \<and> CB_wf sz (snd (CB_push sz x b))
    \<and> CB_contents sz (snd (CB_push sz x b)) = CB_contents sz b @ [x]"
proof -
  let ?i = "cb_index b"
  from assms have i: "CI_wf sz ?i" "\<not> CI_full sz ?i"
    by (auto simp: CB_wf_def CB_contents_def CI_full_iff)
  have bk: "unat (CI_back sz ?i) < unat sz"
    using CI_cells_less[OF CI_push_wf(1)[OF i]] by (simp add: CI_push_wf(2)[OF i])
  have "map ((!) ((cb_data b)[unat (CI_back sz ?i) := x])) (CI_cells sz ?i) =
      map ((!) (cb_data b)) (CI_cells sz ?i)"
    using CI_back_fresh[OF i] by (intro map_cong refl nth_list_update_neq) auto
  with i bk assms show ?thesis
    by (simp add: CB_push_def CB_full_def CB_wf_def CB_contents_def CI_push_wf)
qed

lemma CB_reset_wf:
  assumes "CB_wf sz b" shows "CB_wf sz (CB_reset b)" "CB_contents sz (CB_reset b) = []"
proof -
  have "CI_count sz (CI_reset (cb_index b)) = 0" by (simp add: CI_count_def CI_reset_def)
  with assms show "CB_wf sz (CB_reset b)" "CB_contents sz (CB_reset b) = []"
    by (simp_all add: CB_wf_def CI_wf_def CB_reset_def CB_contents_def CI_cells_def)
      (simp add: CI_reset_def)
qed

interpretation circular: bounded_queue "CB_wf sz" "CB_contents sz" "CB_push sz" "CB_pop sz" "unat sz"
  for sz :: u8
proof unfold_locales
  fix b :: "'a CircularBuffer" and x :: 'a and xs
  assume wf: "CB_wf sz b"
  show "length (CB_contents sz b) \<le> unat sz"
    using wf by (simp add: CB_wf_def CI_wf_def CB_contents_def)
  show "CB_push sz x b = (False, b)" if "\<not> length (CB_contents sz b) < unat sz"
    using that wf CI_full_iff[of sz "cb_index b"]
    by (simp add: CB_push_def CB_full_def CB_wf_def CI_wf_def CB_contents_def)
  show "CB_pop sz b = (None, b)" if "CB_contents sz b = []"
    using that wf CI_empty_iff[of sz "cb_index b"] CI_cells_length[of sz "cb_index b"]
    by (simp add: CB_pop_def CB_empty_def CB_wf_def CB_contents_def del: CI_cells_length)
  show "fst (CB_pop sz b) = Some x \<and> CB_wf sz (snd (CB_pop sz b))
      \<and> CB_contents sz (snd (CB_pop sz b)) = xs" if c: "CB_contents sz b = x # xs"
  proof -
    have i: "CI_wf sz (cb_index b)" "\<not> CI_empty (cb_index b)"
      using wf c CI_empty_iff[of sz "cb_index b"] CI_cells_length[of sz "cb_index b"]
      by (auto simp: CB_wf_def CB_contents_def simp del: CI_cells_length)
    with c wf show ?thesis
      using CI_pop_wf[OF i]
      by (simp add: CB_pop_def CB_empty_def CB_front_def CB_wf_def CB_contents_def)
  qed
qed (simp_all add: CB_push_room)

section \<open>Properties\<close>

text \<open>C22: the circular buffer refines a list of bounded length, for every size up to 127, power of
  two or not: \<open>push\<close> appends exactly when fewer than \<open>size\<close> elements are held and otherwise
  changes nothing, \<open>pop\<close> takes the oldest element or reports none, \<open>count\<close>, \<open>full\<close> and
  \<open>empty\<close> speak of the same list, and the representation stays well formed.\<close>

theorem circular_buffer_refines_list:
  assumes "CB_wf sz b"
  shows "(if length (CB_contents sz b) < unat sz
          then fst (CB_push sz x b) \<and> CB_contents sz (snd (CB_push sz x b)) = CB_contents sz b @ [x]
          else CB_push sz x b = (False, b))
    \<and> CB_wf sz (snd (CB_push sz x b))
    \<and> fst (CB_pop sz b) = (case CB_contents sz b of [] \<Rightarrow> None | y # ys \<Rightarrow> Some y)
    \<and> CB_contents sz (snd (CB_pop sz b)) = tl (CB_contents sz b)
    \<and> CB_wf sz (snd (CB_pop sz b))
    \<and> unat (CB_count sz b) = length (CB_contents sz b)
    \<and> (CB_full sz b \<longleftrightarrow> length (CB_contents sz b) = unat sz)
    \<and> (CB_empty b \<longleftrightarrow> CB_contents sz b = [])"
proof -
  have push: "if length (CB_contents sz b) < unat sz
          then fst (CB_push sz x b) \<and> CB_contents sz (snd (CB_push sz x b)) = CB_contents sz b @ [x]
          else CB_push sz x b = (False, b)" "CB_wf sz (snd (CB_push sz x b))"
    using circular.push_room[OF assms] circular.push_full[OF assms] assms
    by (cases "length (CB_contents sz b) < unat sz"; simp)+
  have pop: "fst (CB_pop sz b) = (case CB_contents sz b of [] \<Rightarrow> None | y # ys \<Rightarrow> Some y)
      \<and> CB_contents sz (snd (CB_pop sz b)) = tl (CB_contents sz b) \<and> CB_wf sz (snd (CB_pop sz b))"
    using circular.pop_head[OF assms] circular.pop_empty[OF assms] assms
    by (cases "CB_contents sz b") simp_all
  have "CI_wf sz (cb_index b)" using assms by (simp add: CB_wf_def)
  then have "CB_full sz b \<longleftrightarrow> length (CB_contents sz b) = unat sz"
    and "CB_empty b \<longleftrightarrow> CB_contents sz b = []"
    by (simp_all only: CB_full_def CB_empty_def CI_full_iff CI_empty_iff CB_contents_length
        CB_count_def length_0_conv [symmetric])
  with push pop show ?thesis by (simp add: CB_contents_length)
qed

theorem circular_buffer_refines_list_witness:
  "CB_contents 4 (snd (CB_push 4 True (CB_new 4 False))) = [True]"
proof -
  have new: "CB_wf 4 (CB_new 4 False) \<and> CB_contents 4 (CB_new 4 False) = []"
    by (rule CB_new_wf) (simp add: valid_size_def)
  then show ?thesis
    using circular_buffer_refines_list[of 4 "CB_new 4 False" True] by simp
qed

text \<open>First in, first out: pushing elements while there is room and then popping everything
  returns what was in the buffer before, followed by the new elements in order, also when the
  indices wrap around in between.\<close>

theorem circular_buffer_fifo:
  assumes "CB_wf sz b" "length (CB_contents sz b) + length xs \<le> unat sz"
  shows "fst (pop_n (CB_pop sz) (length (CB_contents sz b) + length xs) (push_all (CB_push sz) xs b))
    = map Some (CB_contents sz b @ xs)"
  using assms by (rule circular.fifo)

theorem circular_buffer_fifo_witness:
  "fst (pop_n (CB_pop 3) 2 (push_all (CB_push 3) [True, False] (CB_new 3 False)))
     = [Some True, Some False]"
proof -
  have new: "CB_wf 3 (CB_new 3 False) \<and> CB_contents 3 (CB_new 3 False) = []"
    by (rule CB_new_wf) (simp add: valid_size_def)
  then have n: "2 = length (CB_contents 3 (CB_new 3 False)) + length [True, False]" by simp
  have "fst (pop_n (CB_pop 3) (length (CB_contents 3 (CB_new 3 False)) + length [True, False])
      (push_all (CB_push 3) [True, False] (CB_new 3 False))) =
      map Some (CB_contents 3 (CB_new 3 False) @ [True, False])"
    by (rule circular_buffer_fifo) (simp_all add: new)
  then show ?thesis unfolding n [symmetric] by (simp add: new)
qed

end
