(* ===== verification/Pulse_Gen.thy ===== *)
theory Pulse_Gen
  imports Speed_Table Circular_Buffer
begin

text \<open>
  The step generator of an axis (\<open>modules/pulse_gen.cpp\<close>, \<open>modules/pulse_gen.h\<close>): planned moves
  become blocks of a circular buffer, \<open>Step\<close> executes them from the stepping interrupt. The
  pointer \<open>current_block\<close> is the index of its cell; positions are 32-bit words read as signed.
  What \<open>Step\<close> does to the driver pins is returned as a list of pin events.
\<close>

section \<open>Library functions\<close>

text \<open>
  \<open>abs\<close> of \<open>cmath.h\<close> on \<open>int32_t\<close>, and the C library's \<open>sqrt\<close> on a 32-bit argument: \<open>double\<close> is
  the single-precision type of the AVR, so the argument is rounded to 24 significant bits, and so
  is the root before the cast to an integer drops its fraction.
\<close>

definition abs_i32 :: "i32 \<Rightarrow> i32" where
  "abs_i32 n = (if sint n < 0 then - n else n)"

fun excess_bits :: "nat \<Rightarrow> nat" where
  "excess_bits x = (if x < 2 ^ 24 then 0 else Suc (excess_bits (x div 2)))"

declare excess_bits.simps [simp del]

definition round_single :: "nat \<Rightarrow> nat" where
  "round_single x =
     (let k = excess_bits x; q = x div 2 ^ k; r = x mod 2 ^ k
      in (if 2 * r > 2 ^ k \<or> (2 * r = 2 ^ k \<and> odd q) then q + 1 else q) * 2 ^ k)"

fun isqrt_bits :: "nat \<Rightarrow> nat \<Rightarrow> nat \<Rightarrow> nat" where
  "isqrt_bits 0 x r = r"
| "isqrt_bits (Suc k) x r = isqrt_bits k x (if (r + 2 ^ k) ^ 2 \<le> x then r + 2 ^ k else r)"

definition sqrt_u32 :: "u32 \<Rightarrow> u32" where
  "sqrt_u32 x =
     (let y = round_single (unat x) * 2 ^ 50; r = isqrt_bits 42 y 0;
          sticky = (if r * r < y then 1 else 0)
      in word_of_nat (round_single (2 * r + sticky) div 2 ^ 26))"


section \<open>State\<close>

record block_t =
  b_steps :: u32
  b_direction :: bool
  b_acceleration_rate :: u32
  b_accelerate_until :: u32
  b_decelerate_after :: u32
  b_nominal_rate :: u32
  b_initial_rate :: u32
  b_final_rate :: u32
  b_acceleration :: u32

definition block_zero :: block_t where
  "block_zero = \<lparr>b_steps = 0, b_direction = False, b_acceleration_rate = 0, b_accelerate_until = 0,
     b_decelerate_after = 0, b_nominal_rate = 0, b_initial_rate = 0, b_final_rate = 0,
     b_acceleration = 0\<rparr>"

record PulseGen =
  pg_block_buffer :: "block_t list"
  pg_block_index :: CircularIndex
  pg_current_block :: "u8 option"
  pg_position :: i32
  pg_max_jerk :: u32
  pg_acceleration :: u32
  pg_last_rate :: u32
  pg_acceleration_time :: u32
  pg_deceleration_time :: u32
  pg_acc_step_rate :: u16
  pg_step_loops :: u8
  pg_step_loops_nominal :: u8
  pg_timer_nominal :: u16
  pg_steps_completed :: u32

text \<open>What the constructor leaves alone is zero, the objects being static.\<close>

definition PulseGen_new :: "u32 \<Rightarrow> u32 \<Rightarrow> PulseGen" where
  "PulseGen_new max_jerk acceleration =
     \<lparr>pg_block_buffer = replicate (unat blockBufferSize) block_zero, pg_block_index = CI_new,
      pg_current_block = None, pg_position = 0, pg_max_jerk = max_jerk,
      pg_acceleration = acceleration, pg_last_rate = 0, pg_acceleration_time = 0,
      pg_deceleration_time = 0, pg_acc_step_rate = 0, pg_step_loops = 0,
      pg_step_loops_nominal = 0, pg_timer_nominal = 0, pg_steps_completed = 0\<rparr>"

section \<open>Planning\<close>

text \<open>
  The steps of acceleration and of the plateau, and the final rate: the middle part of
  \<open>CalculateTrapezoid\<close>, from the estimate of the distances on.
\<close>

definition trapezoid_steps :: "u32 \<Rightarrow> u32 \<Rightarrow> u32 \<Rightarrow> u32 \<Rightarrow> u32 \<Rightarrow> u32 \<times> u32 \<times> u32" where
  "trapezoid_steps steps acceleration initial_rate nominal_rate final_rate =
     (let initial_rate_sqr = initial_rate * initial_rate;
          nominal_rate_sqr = nominal_rate * nominal_rate;
          final_rate_sqr = final_rate * final_rate;
          acceleration_x2 = push_bit 1 acceleration;
          accelerate_steps =
            (nominal_rate_sqr - initial_rate_sqr + acceleration_x2 - 1) div acceleration_x2;
          decelerate_steps = (nominal_rate_sqr - final_rate_sqr) div acceleration_x2;
          accel_decel_steps = accelerate_steps + decelerate_steps
      in if accel_decel_steps < steps
         then (accelerate_steps, steps - accel_decel_steps, final_rate)
         else
           let acceleration_x4 = push_bit 2 acceleration in
           if final_rate_sqr \<ge> initial_rate_sqr then
             let a = final_rate_sqr - initial_rate_sqr + acceleration_x4 - 1;
                 a = (if steps AND 1 \<noteq> 0 then a + acceleration_x2 else a);
                 a = a div acceleration_x4 + drop_bit 1 steps
             in if a > steps
                then (steps, 0, sqrt_u32 (acceleration_x2 * steps + initial_rate_sqr))
                else (a, 0, final_rate)
           else
             let d = initial_rate_sqr - final_rate_sqr;
                 d = (if steps AND 1 \<noteq> 0 then d + acceleration_x2 else d);
                 d = d div acceleration_x4 + drop_bit 1 steps;
                 d = (if d > steps then steps else d)
             in (steps - d, 0, final_rate))"

definition CalculateTrapezoid :: "u32 \<Rightarrow> u32 \<Rightarrow> block_t \<Rightarrow> block_t" where
  "CalculateTrapezoid entry_speed exit_speed block =
     (let initial_rate = (if entry_speed < minStepRate then minStepRate else entry_speed);
          initial_rate = (if initial_rate > b_nominal_rate block then b_nominal_rate block else initial_rate);
          final_rate = (if exit_speed < minStepRate then minStepRate else exit_speed);
          final_rate = (if final_rate > b_nominal_rate block then b_nominal_rate block else final_rate);
          acceleration = (if b_acceleration block = 0 then 1 else b_acceleration block);
          (accelerate_steps, plateau_steps, final_rate) =
            trapezoid_steps (b_steps block) acceleration initial_rate (b_nominal_rate block) final_rate
      in block\<lparr>b_accelerate_until := accelerate_steps,
               b_decelerate_after := accelerate_steps + plateau_steps,
               b_initial_rate := initial_rate, b_final_rate := final_rate\<rparr>)"

text \<open>
  The ratio of the timer frequency to two to the 24, times the factor \<open>mul = 8\<close>, truncated: the
  exact value is 67.1, which the single-precision constants of the source do not change.
\<close>

definition acceleration_ratio :: u32 where
  "acceleration_ratio =
     word_of_int (truncate_rat (2 ^ 24 / of_nat (F_CPU div stepTimerFrequencyDivider) * 8))"

definition PG_PlanMoveTo :: "i32 \<Rightarrow> u32 \<Rightarrow> u32 \<Rightarrow> PulseGen \<Rightarrow> bool \<times> PulseGen" where
  "PG_PlanMoveTo target feed_rate end_rate pg =
     (if CI_full blockBufferSize (pg_block_index pg) then (False, pg)
      else
        let cell = unat (CI_back blockBufferSize (pg_block_index pg));
            steps = target - pg_position pg;
            block = (pg_block_buffer pg ! cell)\<lparr>b_steps := abs_i32 steps\<rparr>
        in if b_steps block \<le> dropSegments
           then (True, pg\<lparr>pg_block_buffer := (pg_block_buffer pg)[cell := block]\<rparr>)
           else
             let block = block\<lparr>b_direction := (sint steps \<ge> 0), b_nominal_rate := feed_rate,
                   b_acceleration := pg_acceleration pg,
                   b_acceleration_rate := pg_acceleration pg * acceleration_ratio div 8\<rparr>;
                 entry_speed =
                   (if feed_rate \<ge> pg_last_rate pg
                    then pg_last_rate pg + min (feed_rate - pg_last_rate pg) (pg_max_jerk pg)
                    else pg_last_rate pg - min (pg_last_rate pg - feed_rate) (pg_max_jerk pg));
                 block = CalculateTrapezoid entry_speed end_rate block
             in (True, pg\<lparr>pg_block_buffer := (pg_block_buffer pg)[cell := block],
                          pg_last_rate := b_final_rate block,
                          pg_block_index := CI_push blockBufferSize (pg_block_index pg),
                          pg_position := target\<rparr>))"

section \<open>Positions\<close>

definition BlockShift :: "block_t \<Rightarrow> i32" where
  "BlockShift block = (if b_direction block then b_steps block else - b_steps block)"

definition CurBlockShift :: "u8 \<Rightarrow> PulseGen \<Rightarrow> i32" where
  "CurBlockShift current pg =
     (let block = pg_block_buffer pg ! unat current;
          steps_missing = b_steps block - pg_steps_completed pg
      in if b_direction block then steps_missing else - steps_missing)"

text \<open>The loop that takes the queued blocks off the position; every turn brings the tail closer.\<close>

function rollback_blocks :: "block_t list \<Rightarrow> CircularIndex \<Rightarrow> i32 \<Rightarrow> i32" where
  "rollback_blocks blocks iter cur_pos =
     (if CI_empty iter then cur_pos
      else rollback_blocks blocks (CI_pop blockBufferSize iter)
             (cur_pos - BlockShift (blocks ! unat (CI_front blockBufferSize iter))))"
  by pat_completeness auto

termination
proof (relation "measure (\<lambda>(_, i, _). unat (ci_head i - ci_tail i))", simp_all only: wf_measure)
  fix blocks :: "block_t list" and iter :: CircularIndex and cur_pos :: i32
  assume "\<not> CI_empty iter"
  then have "ci_head iter - ci_tail iter \<noteq> 0" by (auto simp: CI_empty_def)
  moreover have "ci_head (CI_pop blockBufferSize iter) - ci_tail (CI_pop blockBufferSize iter)
      = (ci_head iter - ci_tail iter) - 1"
    by (simp add: CI_pop_def next_cursor_def size_is_power2_def blockBufferSize_def)
  ultimately show "((blocks, CI_pop blockBufferSize iter,
      cur_pos - BlockShift (blocks ! unat (CI_front blockBufferSize iter))), blocks, iter, cur_pos)
      \<in> measure (\<lambda>(_, i, _). unat (ci_head i - ci_tail i))"
    by (simp add: measure_unat)
qed

declare rollback_blocks.simps [simp del]

definition PG_CurPosition :: "PulseGen \<Rightarrow> i32" where
  "PG_CurPosition pg =
     (case pg_current_block pg of
        Some current \<Rightarrow>
          rollback_blocks (pg_block_buffer pg) (CI_pop blockBufferSize (pg_block_index pg))
            (pg_position pg - CurBlockShift current pg)
      | None \<Rightarrow> rollback_blocks (pg_block_buffer pg) (pg_block_index pg) (pg_position pg))"

definition PG_AbortPlannedMoves :: "bool \<Rightarrow> PulseGen \<Rightarrow> PulseGen" where
  "PG_AbortPlannedMoves halt pg =
     (let pg = pg\<lparr>pg_position := PG_CurPosition pg\<rparr>;
          pg = (if pg_current_block pg \<noteq> None
                then pg\<lparr>pg_last_rate := u32_of_u16 (pg_acc_step_rate pg), pg_current_block := None\<rparr>
                else pg);
          pg = pg\<lparr>pg_block_index := CI_reset (pg_block_index pg)\<rparr>
      in if halt then pg\<lparr>pg_last_rate := 0\<rparr> else pg)"

definition PG_QueueEmpty :: "PulseGen \<Rightarrow> bool" where
  "PG_QueueEmpty pg = CI_empty (pg_block_index pg)"

definition PG_Full :: "PulseGen \<Rightarrow> bool" where
  "PG_Full pg = CI_full blockBufferSize (pg_block_index pg)"

definition PG_PlannedMoves :: "PulseGen \<Rightarrow> u8" where
  "PG_PlannedMoves pg = CI_count blockBufferSize (pg_block_index pg)"


section \<open>Stepping\<close>

text \<open>
  \<open>PulseGen::Step\<close>, in the order of its four parts: fetching the next block if none is live,
  issuing the pulses of this interrupt, calculating the next interval, and leaving a finished block.
\<close>

datatype pin_event = SetDir bool | StepPulse

definition fetch_block :: "PulseGen \<Rightarrow> (u8 \<times> PulseGen \<times> pin_event list) option" where
  "fetch_block pg =
     (case pg_current_block pg of
        Some current \<Rightarrow> Some (current, pg, [])
      | None \<Rightarrow>
          if CI_empty (pg_block_index pg) then None
          else
            let current = CI_front blockBufferSize (pg_block_index pg);
                block = pg_block_buffer pg ! unat current;
                rate = u16_of_u32 (b_initial_rate block);
                (time, loops) = calc_timer rate
            in Some (current,
                 pg\<lparr>pg_current_block := Some current, pg_deceleration_time := 0,
                    pg_acc_step_rate := rate, pg_acceleration_time := u32_of_u16 time,
                    pg_step_loops := loops, pg_steps_completed := 0,
                    pg_step_loops_nominal := 0\<rparr>,
                 [SetDir (b_direction block)]))"

fun issue_pulses :: "nat \<Rightarrow> u32 \<Rightarrow> u32 \<Rightarrow> u32 \<times> pin_event list" where
  "issue_pulses 0 steps completed = (completed, [])"
| "issue_pulses (Suc n) steps completed =
     (let completed = completed + 1 in
      if completed \<ge> steps then (completed, [StepPulse])
      else let (completed, events) = issue_pulses n steps completed
           in (completed, StepPulse # events))"

definition next_interval :: "block_t \<Rightarrow> PulseGen \<Rightarrow> PulseGen \<times> u16" where
  "next_interval block pg =
     (if pg_steps_completed pg \<le> b_accelerate_until block then
        let rate = mulU24X24toH16 (pg_acceleration_time pg) (b_acceleration_rate block)
                     + u16_of_u32 (b_initial_rate block);
            rate = (if rate > u16_of_u32 (b_nominal_rate block)
                    then u16_of_u32 (b_nominal_rate block) else rate);
            (timer, loops) = calc_timer rate
        in (pg\<lparr>pg_acc_step_rate := rate, pg_step_loops := loops,
               pg_acceleration_time := pg_acceleration_time pg + u32_of_u16 timer\<rparr>, timer)
      else if pg_steps_completed pg > b_decelerate_after block then
        let step_rate = mulU24X24toH16 (pg_deceleration_time pg) (b_acceleration_rate block);
            step_rate =
              (if step_rate > pg_acc_step_rate pg then u16_of_u32 (b_final_rate block)
               else
                 let r = pg_acc_step_rate pg - step_rate
                 in if u32_of_u16 r < b_final_rate block then u16_of_u32 (b_final_rate block) else r);
            (timer, loops) = calc_timer step_rate
        in (pg\<lparr>pg_step_loops := loops,
               pg_deceleration_time := pg_deceleration_time pg + u32_of_u16 timer\<rparr>, timer)
      else
        let pg = (if pg_step_loops_nominal pg = 0 then
                    let (timer, loops) = calc_timer (u16_of_u32 (b_nominal_rate block))
                    in pg\<lparr>pg_timer_nominal := timer, pg_step_loops := loops,
                          pg_step_loops_nominal := loops\<rparr>
                  else pg)
        in (pg, pg_timer_nominal pg))"

definition PG_Step :: "PulseGen \<Rightarrow> PulseGen \<times> u16 \<times> pin_event list" where
  "PG_Step pg =
     (case fetch_block pg of
        None \<Rightarrow> (pg, 0, [])
      | Some (current, pg, dir_events) \<Rightarrow>
          let block = pg_block_buffer pg ! unat current;
              (completed, events) =
                issue_pulses (unat (pg_step_loops pg)) (b_steps block) (pg_steps_completed pg);
              (pg, timer) = next_interval block (pg\<lparr>pg_steps_completed := completed\<rparr>);
              pg = (if pg_steps_completed pg \<ge> b_steps block
                    then pg\<lparr>pg_current_block := None,
                            pg_block_index := CI_pop blockBufferSize (pg_block_index pg)\<rparr>
                    else pg)
          in (pg, timer, dir_events @ events))"

section \<open>The invariant\<close>

text \<open>
  The live block is the oldest one of the queue and has steps left, every queued block has steps,
  and a live block has a positive number of steps per interrupt.
\<close>

definition queued :: "PulseGen \<Rightarrow> block_t list" where
  "queued pg = map (\<lambda>c. pg_block_buffer pg ! c) (CI_cells blockBufferSize (pg_block_index pg))"

definition pg_wf :: "PulseGen \<Rightarrow> bool" where
  "pg_wf pg \<longleftrightarrow> CI_wf blockBufferSize (pg_block_index pg)
     \<and> length (pg_block_buffer pg) = unat blockBufferSize
     \<and> (\<forall>b \<in> set (queued pg). 0 < b_steps b)
     \<and> (case pg_current_block pg of None \<Rightarrow> True
        | Some current \<Rightarrow>
            \<not> CI_empty (pg_block_index pg)
            \<and> current = CI_front blockBufferSize (pg_block_index pg)
            \<and> pg_steps_completed pg < b_steps (pg_block_buffer pg ! unat current)
            \<and> 0 < pg_step_loops pg)"

text \<open>The steps the axis still has to do, the live block's first.\<close>

definition remaining :: "PulseGen \<Rightarrow> nat" where
  "remaining pg = sum_list (map (\<lambda>b. unat (b_steps b)) (queued pg))
     - (if pg_current_block pg = None then 0 else unat (pg_steps_completed pg))"

definition pulses :: "pin_event list \<Rightarrow> nat" where
  "pulses events = length (filter (\<lambda>e. e = StepPulse) events)"

lemma PulseGen_new_wf: "pg_wf (PulseGen_new jerk accel)"
  unfolding pg_wf_def PulseGen_new_def queued_def
  by (simp add: CI_wf_def CI_new_def CI_count_def size_is_power2_def blockBufferSize_def
      cursor_modulus_def valid_size_def CI_cells_def)

lemma rollback_queue:
  assumes "CI_wf blockBufferSize i"
  shows "rollback_blocks blocks i p =
    p - sum_list (map (\<lambda>c. BlockShift (blocks ! c)) (CI_cells blockBufferSize i))"
  using assms
proof (induction blocks i p rule: rollback_blocks.induct)
  case (1 blocks i p)
  show ?case
  proof (cases "CI_empty i")
    case True
    then have "CI_cells blockBufferSize i = []"
      using "1.prems" by (simp add: CI_empty_iff CI_cells_def)
    with True show ?thesis by (simp add: rollback_blocks.simps)
  next
    case False
    note pop = CI_pop_wf[OF "1.prems" False]
    show ?thesis
      using "1.IH"[OF False pop(1)] False
      by (subst rollback_blocks.simps) (simp add: pop(2) algebra_simps)
  qed
qed

text \<open>The position, expressed by the queue.\<close>

lemma CurPosition_queue:
  assumes "pg_wf pg"
  shows "PG_CurPosition pg = pg_position pg - sum_list (map BlockShift (queued pg))
    + (case pg_current_block pg of None \<Rightarrow> 0
       | Some c \<Rightarrow> if b_direction (pg_block_buffer pg ! unat c) then pg_steps_completed pg
                   else - pg_steps_completed pg)"
proof (cases "pg_current_block pg")
  case None
  with assms show ?thesis
    by (simp add: PG_CurPosition_def pg_wf_def rollback_queue queued_def comp_def)
next
  case (Some c)
  with assms have w: "CI_wf blockBufferSize (pg_block_index pg)" "\<not> CI_empty (pg_block_index pg)"
    "c = CI_front blockBufferSize (pg_block_index pg)" by (auto simp: pg_wf_def)
  note pop = CI_pop_wf[OF w(1,2)]
  show ?thesis
    unfolding queued_def
    by (simp add: PG_CurPosition_def Some rollback_queue[OF pop(1)] pop(2) w(3) [symmetric] comp_def
        CurBlockShift_def BlockShift_def Let_def)
qed


lemma calc_timer_loops: "0 < snd (calc_timer r)"
  by (simp add: calc_timer_table step_split_def Let_def split: prod.split)

lemma queued_cons:
  assumes "pg_wf pg" "\<not> CI_empty (pg_block_index pg)"
  shows "queued pg = pg_block_buffer pg ! unat (CI_front blockBufferSize (pg_block_index pg))
    # queued (pg\<lparr>pg_block_index := CI_pop blockBufferSize (pg_block_index pg)\<rparr>)"
  using assms CI_pop_wf(2)[of blockBufferSize "pg_block_index pg"]
  by (simp add: queued_def pg_wf_def)

lemma queued_update [simp]:
  "queued (pg\<lparr>pg_current_block := a\<rparr>) = queued pg"
  "queued (pg\<lparr>pg_deceleration_time := b\<rparr>) = queued pg"
  "queued (pg\<lparr>pg_acc_step_rate := r\<rparr>) = queued pg"
  "queued (pg\<lparr>pg_acceleration_time := b\<rparr>) = queued pg"
  "queued (pg\<lparr>pg_step_loops := l\<rparr>) = queued pg"
  "queued (pg\<lparr>pg_steps_completed := b\<rparr>) = queued pg"
  "queued (pg\<lparr>pg_step_loops_nominal := l\<rparr>) = queued pg"
  "queued (pg\<lparr>pg_timer_nominal := r\<rparr>) = queued pg"
  "queued (pg\<lparr>pg_position := b\<rparr>) = queued pg"
  "queued (pg\<lparr>pg_last_rate := b\<rparr>) = queued pg"
  by (simp_all add: queued_def)

text \<open>A live block in the sense of the invariant.\<close>

definition live :: "u8 \<Rightarrow> PulseGen \<Rightarrow> bool" where
  "live c pg \<longleftrightarrow> pg_wf pg \<and> pg_current_block pg = Some c"

lemma fetch_block_live:
  assumes "pg_wf pg" "\<not> CI_empty (pg_block_index pg)"
  obtains c pg1 ev where "fetch_block pg = Some (c, pg1, ev)" "live c pg1"
    "pg_block_buffer pg1 = pg_block_buffer pg" "pg_block_index pg1 = pg_block_index pg"
    "pg_position pg1 = pg_position pg" "remaining pg1 = remaining pg"
    "PG_CurPosition pg1 = PG_CurPosition pg" "pulses ev = 0"
    "ev = [] \<or> ev = [SetDir (b_direction (hd (queued pg)))]"
    "pg_current_block pg = None \<longrightarrow> ev \<noteq> []"
proof (cases "pg_current_block pg")
  case (Some c)
  then have "fetch_block pg = Some (c, pg, [])" by (simp add: fetch_block_def)
  with Some assms(1) show thesis by (intro that[of c pg "[]"]) (simp_all add: live_def pulses_def)
next
  case None
  let ?c = "CI_front blockBufferSize (pg_block_index pg)"
  let ?b = "pg_block_buffer pg ! unat ?c"
  obtain t l where tl: "calc_timer (u16_of_u32 (b_initial_rate ?b)) = (t, l)" by fastforce
  then have l: "0 < l" using calc_timer_loops[of "u16_of_u32 (b_initial_rate ?b)"] by simp
  define pg1 where "pg1 = pg\<lparr>pg_current_block := Some ?c, pg_deceleration_time := 0,
      pg_acc_step_rate := u16_of_u32 (b_initial_rate ?b), pg_acceleration_time := u32_of_u16 t,
      pg_step_loops := l, pg_steps_completed := 0, pg_step_loops_nominal := 0\<rparr>"
  have f: "fetch_block pg = Some (?c, pg1, [SetDir (b_direction ?b)])"
    using assms(2) by (simp add: fetch_block_def None tl pg1_def Let_def)
  note q = queued_cons[OF assms]
  have "0 < b_steps ?b" using assms(1) q by (simp add: pg_wf_def)
  then have w: "pg_wf pg1" using assms l by (simp add: pg_wf_def pg1_def)
  show thesis
  proof (rule that[OF f])
    show "live ?c pg1" using w by (simp add: live_def pg1_def)
    show "PG_CurPosition pg1 = PG_CurPosition pg"
      using CurPosition_queue[OF w] CurPosition_queue[OF assms(1)] by (simp add: pg1_def None)
  qed (use q in \<open>simp_all add: pg1_def remaining_def None pulses_def\<close>)
qed

lemma issue_pulses_spec:
  assumes "issue_pulses n s c = (c', ev)" "c < s" "0 < n"
  shows "unat c' = unat c + pulses ev \<and> 0 < pulses ev \<and> c' \<le> s
    \<and> ev = replicate (pulses ev) StepPulse"
  using assms
proof (induction n s c arbitrary: c' ev rule: issue_pulses.induct)
  case (2 n s c)
  have nz: "unat (c + 1) = unat c + 1"
    using "2.prems"(2) unsigned_less[of s, where ?'a = nat]
    by (simp add: unat_word_ariths word_less_nat_alt)
  show ?case
  proof (cases "c + 1 \<ge> s \<or> n = 0")
    case True
    then have "c' = c + 1" "ev = [StepPulse]" using "2.prems"(1) by (auto simp: Let_def split: if_splits)
    then show ?thesis using nz "2.prems"(2) by (simp add: pulses_def inc_le)
  next
    case False
    then obtain ev1 where e: "issue_pulses n s (c + 1) = (c', ev1)" "ev = StepPulse # ev1"
      using "2.prems"(1) by (auto simp: Let_def split: prod.splits)
    have "unat c' = unat (c + 1) + pulses ev1 \<and> 0 < pulses ev1 \<and> c' \<le> s
        \<and> ev1 = replicate (pulses ev1) StepPulse"
      using "2.IH"[OF refl _ e(1)] False by (simp add: not_le)
    moreover from this have "pulses ev = Suc (pulses ev1)" using e(2) by (simp add: pulses_def)
    ultimately show ?thesis using nz e(2) by simp
  qed
qed simp

lemma next_interval_frame:
  assumes "next_interval b pg = (pg', t)"
  shows "pg_block_buffer pg' = pg_block_buffer pg \<and> pg_block_index pg' = pg_block_index pg
    \<and> pg_current_block pg' = pg_current_block pg \<and> pg_position pg' = pg_position pg
    \<and> pg_steps_completed pg' = pg_steps_completed pg
    \<and> (0 < pg_step_loops pg \<longrightarrow> 0 < pg_step_loops pg')"
  using assms calc_timer_loops
  unfolding next_interval_def Let_def
  by (auto split: if_splits prod.splits) (metis snd_conv)+


text \<open>The position change of a number of pulses in the direction of a block.\<close>

definition signed_pulses :: "bool \<Rightarrow> nat \<Rightarrow> i32" where
  "signed_pulses dir n = (if dir then word_of_nat n else - word_of_nat n)"

lemma remaining_live:
  assumes "live c pg"
  obtains b bs where "queued pg = b # bs" "b = pg_block_buffer pg ! unat c"
    "remaining pg = unat (b_steps b) - unat (pg_steps_completed pg) + sum_list (map (\<lambda>b. unat (b_steps b)) bs)"
    "unat (pg_steps_completed pg) < unat (b_steps b)"
proof -
  from assms have w: "pg_wf pg" "\<not> CI_empty (pg_block_index pg)"
    "c = CI_front blockBufferSize (pg_block_index pg)" "pg_current_block pg = Some c"
    "pg_steps_completed pg < b_steps (pg_block_buffer pg ! unat c)"
    by (auto simp: live_def pg_wf_def)
  show thesis
    using that[OF queued_cons[OF w(1,2)]] w(3-5) queued_cons[OF w(1,2)]
    by (simp add: remaining_def word_less_nat_alt)
qed

lemma PG_Step_spec:
  assumes "pg_wf pg" "\<not> PG_QueueEmpty pg" "PG_Step pg = (pg', timer, ev)"
  shows "pg_wf pg' \<and> pg_position pg' = pg_position pg \<and> pg_block_buffer pg' = pg_block_buffer pg
    \<and> 0 < pulses ev \<and> remaining pg = remaining pg' + pulses ev
    \<and> PG_CurPosition pg' = PG_CurPosition pg + signed_pulses (b_direction (hd (queued pg))) (pulses ev)
    \<and> (\<exists>n. ev = (if pg_current_block pg = None then [SetDir (b_direction (hd (queued pg)))] else [])
              @ replicate n StepPulse)"
proof -
  have ne: "\<not> CI_empty (pg_block_index pg)" using assms(2) by (simp add: PG_QueueEmpty_def)
  obtain c pg1 ev0 where f: "fetch_block pg = Some (c, pg1, ev0)" "live c pg1"
    "pg_block_buffer pg1 = pg_block_buffer pg" "pg_block_index pg1 = pg_block_index pg"
    "pg_position pg1 = pg_position pg" "remaining pg1 = remaining pg"
    "PG_CurPosition pg1 = PG_CurPosition pg" "pulses ev0 = 0"
    "ev0 = [] \<or> ev0 = [SetDir (b_direction (hd (queued pg)))]"
    "pg_current_block pg = None \<longrightarrow> ev0 \<noteq> []"
    using fetch_block_live[OF assms(1) ne] by blast
  have ev0: "ev0 = (if pg_current_block pg = None then [SetDir (b_direction (hd (queued pg)))] else [])"
    using f(1,9,10) by (auto simp: fetch_block_def)
  have q1: "queued pg1 = queued pg" by (simp add: queued_def f(3,4))
  obtain b bs where b: "queued pg1 = b # bs" "b = pg_block_buffer pg1 ! unat c"
    "remaining pg1 = unat (b_steps b) - unat (pg_steps_completed pg1) + sum_list (map (\<lambda>b. unat (b_steps b)) bs)"
    "unat (pg_steps_completed pg1) < unat (b_steps b)"
    using remaining_live[OF f(2)] by blast
  have w1: "pg_wf pg1" "pg_current_block pg1 = Some c" "0 < pg_step_loops pg1"
    "c = CI_front blockBufferSize (pg_block_index pg1)"
    using f(2) by (auto simp: live_def pg_wf_def)
  obtain k ev1 where i: "issue_pulses (unat (pg_step_loops pg1)) (b_steps b) (pg_steps_completed pg1) = (k, ev1)"
    by fastforce
  have i2: "unat k = unat (pg_steps_completed pg1) + pulses ev1" "0 < pulses ev1" "k \<le> b_steps b"
    "ev1 = replicate (pulses ev1) StepPulse"
    using issue_pulses_spec[OF i] b(4) w1(3) by (simp_all add: word_less_nat_alt)
  obtain pg2 t where n: "next_interval b (pg1\<lparr>pg_steps_completed := k\<rparr>) = (pg2, t)" by fastforce
  note fr = next_interval_frame[OF n, simplified]
  have st: "pg' = (if k \<ge> b_steps b
      then pg2\<lparr>pg_current_block := None, pg_block_index := CI_pop blockBufferSize (pg_block_index pg2)\<rparr>
      else pg2)" and ev: "ev = ev0 @ ev1"
    using assms(3) fr unfolding PG_Step_def f(1) by (simp_all add: Let_def b(2)[symmetric] i n)
  have pl: "pulses ev = pulses ev1" using f(8) by (simp add: ev pulses_def)
  have q2: "queued pg2 = b # bs" using fr b(1) by (simp add: queued_def)
  have k: "k = pg_steps_completed pg1 + word_of_nat (pulses ev1)"
  proof -
    have "k = word_of_nat (unat k)" by simp
    also have "\<dots> = pg_steps_completed pg1 + word_of_nat (pulses ev1)" unfolding i2(1) by simp
    finally show ?thesis .
  qed
  have cp1: "PG_CurPosition pg1 = pg_position pg1 - sum_list (map BlockShift (b # bs))
      + (if b_direction b then pg_steps_completed pg1 else - pg_steps_completed pg1)"
    using CurPosition_queue[OF w1(1)] b(1,2) w1(2) by simp
  have d: "hd (queued pg) = b" using b(1) q1 by simp
  have main: "pg_wf pg' \<and> remaining pg1 = remaining pg' + pulses ev1
      \<and> PG_CurPosition pg' = PG_CurPosition pg1 + signed_pulses (b_direction b) (pulses ev1)"
  proof (cases "k \<ge> b_steps b")
    case True
    then have kb: "k = b_steps b" using i2(3) by simp
    have wi: "CI_wf blockBufferSize (pg_block_index pg2)" "\<not> CI_empty (pg_block_index pg2)"
      using w1(1) fr ne f(4) by (simp_all add: pg_wf_def)
    define pg3 where "pg3 = pg2\<lparr>pg_block_index := CI_pop blockBufferSize (pg_block_index pg2)\<rparr>"
    have p: "pg' = pg3\<lparr>pg_current_block := None\<rparr>" using st True by (simp add: pg3_def)
    have q3: "queued pg3 = bs"
      using q2 CI_pop_wf(2)[OF wi] by (simp add: queued_def pg3_def)
    have w: "pg_wf pg'"
      using w1(1) b(1) CI_pop_wf(1)[OF wi] fr q3 unfolding p by (simp add: pg_wf_def pg3_def)
    have "remaining pg1 = remaining pg' + pulses ev1"
      using b(3,4) i2(1) unfolding p by (simp add: remaining_def q3 kb)
    moreover have "PG_CurPosition pg' = PG_CurPosition pg1 + signed_pulses (b_direction b) (pulses ev1)"
      using CurPosition_queue[OF w] q3 fr unfolding p cp1
      by (simp add: pg3_def signed_pulses_def BlockShift_def kb[symmetric] k)
    ultimately show ?thesis using w by simp
  next
    case False
    then have p: "pg' = pg2" using st by simp
    have w: "pg_wf pg'"
      using w1 b(1,2) fr q2 False ne f(4) unfolding p by (simp add: pg_wf_def not_le)
    have "remaining pg1 = remaining pg' + pulses ev1"
      using b(3,4) i2(1,3) fr w1(2) unfolding p
      by (simp add: remaining_def q2 word_le_nat_alt)
    moreover have "PG_CurPosition pg' = PG_CurPosition pg1 + signed_pulses (b_direction b) (pulses ev1)"
      using CurPosition_queue[OF w] q2 fr w1(2) b(2) unfolding p cp1
      by (simp add: signed_pulses_def k)
    ultimately show ?thesis using w by simp
  qed
  have "pg_position pg' = pg_position pg \<and> pg_block_buffer pg' = pg_block_buffer pg"
    using st fr f(3,5) by simp
  moreover have "\<exists>n. ev = ev0 @ replicate n StepPulse" using i2(4) unfolding ev by blast
  ultimately show ?thesis using main i2(2) f(6,7) pl ev0 d by simp
qed


section \<open>Planning and aborting keep the invariant\<close>

lemma CalculateTrapezoid_keeps [simp]:
  "b_steps (CalculateTrapezoid v w b) = b_steps b"
  "b_direction (CalculateTrapezoid v w b) = b_direction b"
  by (simp_all add: CalculateTrapezoid_def Let_def split: prod.splits)

lemma abs_i32_zero: "abs_i32 n = 0 \<longleftrightarrow> n = 0"
  by (simp add: abs_i32_def)

lemma CI_back_fresh_cell:
  assumes "CI_wf sz i" "\<not> CI_full sz i"
  shows "unat (CI_back sz i) \<notin> set (CI_cells sz i)" "unat (CI_back sz i) < unat sz"
  using CI_cells_distinct[OF CI_push_wf(1)[OF assms]] CI_cells_less[OF CI_push_wf(1)[OF assms]]
  by (simp_all add: CI_push_wf(2)[OF assms])

lemma queued_fresh:
  assumes "unat (CI_back blockBufferSize (pg_block_index pg)) \<notin> set (CI_cells blockBufferSize (pg_block_index pg))"
  shows "queued (pg\<lparr>pg_block_buffer := (pg_block_buffer pg)[unat (CI_back blockBufferSize (pg_block_index pg)) := b]\<rparr>)
    = queued pg"
  using assms unfolding queued_def by (auto intro!: map_cong nth_list_update_neq)

lemma PG_PlanMoveTo_spec:
  assumes "pg_wf pg" "\<not> PG_Full pg" "PG_PlanMoveTo target fr er pg = (ok, pg')"
  shows "ok \<and> pg_wf pg' \<and> pg_position pg' = target \<and> PG_CurPosition pg' = PG_CurPosition pg
    \<and> (if target = pg_position pg then queued pg' = queued pg
       else \<exists>b. queued pg' = queued pg @ [b] \<and> BlockShift b = target - pg_position pg)"
proof -
  let ?i = "pg_block_index pg" and ?steps = "target - pg_position pg"
  let ?cell = "unat (CI_back blockBufferSize ?i)"
  have w: "CI_wf blockBufferSize ?i" "\<not> CI_full blockBufferSize ?i"
    "length (pg_block_buffer pg) = unat blockBufferSize"
    using assms(1,2) by (simp_all add: pg_wf_def PG_Full_def)
  note fresh = CI_back_fresh_cell[OF w(1,2)]
  define blk where "blk = (pg_block_buffer pg ! ?cell)\<lparr>b_steps := abs_i32 ?steps\<rparr>"
  have cur: "c = CI_front blockBufferSize ?i \<and> \<not> CI_empty ?i \<and> unat c \<noteq> ?cell"
    if "pg_current_block pg = Some c" for c
  proof -
    have c: "c = CI_front blockBufferSize ?i" "\<not> CI_empty ?i" using assms(1) that by (simp_all add: pg_wf_def)
    then have "unat c \<in> set (CI_cells blockBufferSize ?i)" using CI_pop_wf(2)[OF w(1)] by simp
    with fresh c show ?thesis by auto
  qed
  show ?thesis
  proof (cases "?steps = 0")
    case True
    then have pg': "ok" "pg' = pg\<lparr>pg_block_buffer := (pg_block_buffer pg)[?cell := blk]\<rparr>"
      using assms(3) w(2) by (auto simp: PG_PlanMoveTo_def Let_def dropSegments_def abs_i32_zero blk_def)
    have q: "queued pg' = queued pg" unfolding pg'(2) by (rule queued_fresh[OF fresh(1)])
    have wf: "pg_wf pg'"
      using assms(1) q cur unfolding pg_wf_def pg'(2) by (auto split: option.splits)
    have "PG_CurPosition pg' = PG_CurPosition pg"
      using CurPosition_queue[OF wf] CurPosition_queue[OF assms(1)] q cur
      unfolding pg'(2) by (auto split: option.splits)
    with pg' wf q True show ?thesis by simp
  next
    case False
    obtain v where v: "pg' = pg\<lparr>pg_block_buffer := (pg_block_buffer pg)[?cell := v],
        pg_last_rate := b_final_rate v, pg_block_index := CI_push blockBufferSize ?i, pg_position := target\<rparr>"
      "b_steps v = abs_i32 ?steps" "b_direction v \<longleftrightarrow> sint ?steps \<ge> 0" and ok: ok
      using assms(3) w(2) False
      by (auto simp: PG_PlanMoveTo_def Let_def dropSegments_def abs_i32_zero)
    define pg1 where "pg1 = pg\<lparr>pg_block_buffer := (pg_block_buffer pg)[?cell := v]\<rparr>"
    have q1: "queued pg1 = queued pg" unfolding pg1_def by (rule queued_fresh[OF fresh(1)])
    note push = CI_push_wf[OF w(1,2)]
    have q: "queued pg' = queued pg @ [v]"
      using q1 fresh(2) w(3) by (simp add: queued_def v(1) push(2) pg1_def)
    have sh: "BlockShift v = ?steps"
      by (simp add: BlockShift_def v(2,3) abs_i32_def)
    have "0 < b_steps v" using False by (simp add: v(2) word_neq_0_conv abs_i32_zero flip: word_neq_0_conv)
    have ne: "\<not> CI_empty (CI_push blockBufferSize ?i)"
      using push CI_empty_iff[OF push(1)] by (metis CI_cells_length length_append_singleton nat.distinct(1))
    have front: "CI_front blockBufferSize (CI_push blockBufferSize ?i) = CI_front blockBufferSize ?i"
      by (simp add: CI_front_def CI_push_def)
    have wf: "pg_wf pg'"
      using assms(1) q push(1) cur ne front \<open>0 < b_steps v\<close>
      unfolding pg_wf_def v(1) by (auto split: option.splits)
    have "PG_CurPosition pg' = PG_CurPosition pg"
      using CurPosition_queue[OF wf] CurPosition_queue[OF assms(1)] q cur sh
      unfolding v(1) by (auto split: option.splits)
    with ok wf q sh False show ?thesis unfolding v(1) by auto
  qed
qed

lemma PG_AbortPlannedMoves_spec:
  assumes "pg_wf pg"
  shows "pg_wf (PG_AbortPlannedMoves halt pg) \<and> PG_QueueEmpty (PG_AbortPlannedMoves halt pg)
    \<and> pg_current_block (PG_AbortPlannedMoves halt pg) = None
    \<and> pg_position (PG_AbortPlannedMoves halt pg) = PG_CurPosition pg
    \<and> PG_CurPosition (PG_AbortPlannedMoves halt pg) = PG_CurPosition pg"
proof -
  have i: "CI_wf blockBufferSize (CI_reset (pg_block_index pg))"
    "CI_count blockBufferSize (CI_reset (pg_block_index pg)) = 0"
    using assms by (auto simp: pg_wf_def CI_wf_def CI_reset_def CI_count_def)
  define pg' where "pg' = PG_AbortPlannedMoves halt pg"
  have f: "pg_block_index pg' = CI_reset (pg_block_index pg)" "pg_current_block pg' = None"
    "pg_position pg' = PG_CurPosition pg" "pg_block_buffer pg' = pg_block_buffer pg"
    by (simp_all add: pg'_def PG_AbortPlannedMoves_def Let_def)
  have q: "queued pg' = []" by (simp add: queued_def f(1) CI_cells_def i(2))
  have wf: "pg_wf pg'" using assms i(1) f q by (simp add: pg_wf_def)
  moreover have "PG_QueueEmpty pg'" by (simp add: PG_QueueEmpty_def f(1) CI_empty_def CI_reset_def)
  moreover have "PG_CurPosition pg' = PG_CurPosition pg" using CurPosition_queue[OF wf] by (simp add: f q)
  ultimately show ?thesis using f unfolding pg'_def by simp
qed


section \<open>Properties\<close>

text \<open>The state after a number of stepping interrupts.\<close>

definition after_steps :: "nat \<Rightarrow> PulseGen \<Rightarrow> PulseGen" where
  "after_steps n = (\<lambda>pg. fst (PG_Step pg)) ^^ n"

lemma PG_Step_idle:
  assumes "pg_wf pg" "PG_QueueEmpty pg" shows "PG_Step pg = (pg, 0, [])"
  using assms by (auto simp: PG_Step_def fetch_block_def pg_wf_def PG_QueueEmpty_def split: option.splits)

lemma idle_CurPosition:
  assumes "pg_wf pg" "PG_QueueEmpty pg" shows "PG_CurPosition pg = pg_position pg"
proof -
  have "queued pg = []"
    using assms CI_empty_iff[of blockBufferSize "pg_block_index pg"]
    by (simp add: pg_wf_def PG_QueueEmpty_def queued_def CI_cells_def)
  moreover have "pg_current_block pg = None"
    using assms by (auto simp: pg_wf_def PG_QueueEmpty_def split: option.splits)
  ultimately show ?thesis using CurPosition_queue[OF assms(1)] by simp
qed

lemma runs_to_idle:
  assumes "pg_wf pg"
  shows "\<exists>n \<le> remaining pg. pg_wf (after_steps n pg) \<and> PG_QueueEmpty (after_steps n pg)
    \<and> pg_position (after_steps n pg) = pg_position pg"
  using assms
proof (induction "remaining pg" arbitrary: pg rule: less_induct)
  case less
  show ?case
  proof (cases "PG_QueueEmpty pg")
    case True
    then show ?thesis using less.prems by (intro exI[of _ 0]) (simp add: after_steps_def)
  next
    case False
    obtain pg' t ev where st: "PG_Step pg = (pg', t, ev)" by (metis prod_cases3)
    note sp = PG_Step_spec[OF less.prems False st]
    then have "remaining pg' < remaining pg" by simp
    then obtain n where n: "n \<le> remaining pg'" "pg_wf (after_steps n pg')"
      "PG_QueueEmpty (after_steps n pg')" "pg_position (after_steps n pg') = pg_position pg'"
      using less.hyps sp by blast
    have "after_steps (Suc n) pg = after_steps n pg'"
      by (simp add: after_steps_def funpow_Suc_right st del: funpow.simps)
    with n sp show ?thesis by (intro exI[of _ "Suc n"]) simp
  qed
qed

text \<open>C7: A move accepted by the planner is carried out. From any consistent state with room in the
  queue, planning a move to a target succeeds and leaves the axis where it physically is; after at
  most as many stepping interrupts as there are steps in the queue the axis is idle and stands at
  the target, whatever was queued before.\<close>

theorem planned_move_reaches_target:
  assumes "pg_wf pg" "\<not> PG_Full pg" "PG_PlanMoveTo target feed_rate end_rate pg = (ok, pg')"
  shows "ok \<and> PG_CurPosition pg' = PG_CurPosition pg
    \<and> (\<exists>n \<le> remaining pg'. PG_QueueEmpty (after_steps n pg')
          \<and> pg_position (after_steps n pg') = target \<and> PG_CurPosition (after_steps n pg') = target)"
proof -
  note plan = PG_PlanMoveTo_spec[OF assms]
  then obtain n where n: "n \<le> remaining pg'" "pg_wf (after_steps n pg')"
    "PG_QueueEmpty (after_steps n pg')" "pg_position (after_steps n pg') = target"
    using runs_to_idle[of pg'] by auto
  with idle_CurPosition[OF n(2,3)] plan show ?thesis by metis
qed

theorem planned_move_reaches_target_witness:
  "\<exists>pg' n. PG_PlanMoveTo 1000 300 0 (PulseGen_new 4 800) = (True, pg')
     \<and> PG_QueueEmpty (after_steps n pg') \<and> PG_CurPosition (after_steps n pg') = 1000"
proof -
  let ?pg = "PulseGen_new 4 800"
  obtain ok pg' where p: "PG_PlanMoveTo 1000 300 0 ?pg = (ok, pg')" by fastforce
  have "\<not> PG_Full ?pg"
    by (simp add: PG_Full_def PulseGen_new_def CI_full_def CI_count_def CI_new_def
        size_is_power2_def blockBufferSize_def)
  from planned_move_reaches_target[OF PulseGen_new_wf this p] obtain n where
    "ok" "PG_QueueEmpty (after_steps n pg')" "PG_CurPosition (after_steps n pg') = 1000" by blast
  with p show ?thesis by (intro exI[of _ pg'] exI[of _ n]) simp
qed

text \<open>C19: The interrupt counts exactly what it does to the pins. On a non-empty queue a call of
  \<open>Step\<close> sets the direction pin if and only if it starts a block, then issues at least one pulse;
  the position reported moves by exactly these pulses in the direction of the oldest block, the
  planned end position stays, and no pulse of the queue is lost or added.\<close>

theorem step_pulses_accounted:
  assumes "pg_wf pg" "\<not> PG_QueueEmpty pg" "PG_Step pg = (pg', timer, events)"
  defines "dir \<equiv> b_direction (hd (queued pg))"
  shows "pg_wf pg' \<and> pg_position pg' = pg_position pg
    \<and> PG_CurPosition pg' = PG_CurPosition pg + signed_pulses dir (pulses events)
    \<and> 0 < pulses events \<and> remaining pg' + pulses events = remaining pg
    \<and> (\<exists>n. events = (if pg_current_block pg = None then [SetDir dir] else []) @ replicate n StepPulse)"
  using PG_Step_spec[OF assms(1-3)] unfolding dir_def by simp

theorem step_pulses_accounted_witness:
  "\<exists>pg pg' timer events. PG_Step pg = (pg', timer, events) \<and> 0 < pulses events"
proof -
  let ?pg = "PulseGen_new 4 800"
  obtain ok pg where p: "PG_PlanMoveTo 1000 300 0 ?pg = (ok, pg)" by fastforce
  have nf: "\<not> PG_Full ?pg"
    by (simp add: PG_Full_def PulseGen_new_def CI_full_def CI_count_def CI_new_def
        size_is_power2_def blockBufferSize_def)
  note plan = PG_PlanMoveTo_spec[OF PulseGen_new_wf nf p]
  obtain b where "queued pg = queued ?pg @ [b]" using plan by (auto simp: PulseGen_new_def)
  then have "CI_cells blockBufferSize (pg_block_index pg) \<noteq> []" by (auto simp: queued_def)
  then have "\<not> PG_QueueEmpty pg"
    using plan by (auto simp: PG_QueueEmpty_def pg_wf_def CI_empty_iff CI_cells_def)
  moreover obtain pg' t ev where "PG_Step pg = (pg', t, ev)" by (metis prod_cases3)
  ultimately show ?thesis using step_pulses_accounted plan by blast
qed

text \<open>Aborting stops the axis where it is. Afterwards the queue is empty, the planned position
  is the one the axis had reached, which does not change, and further stepping interrupts
  neither touch a pin nor ask for a next interval.\<close>

theorem abort_stops_in_place:
  fixes halt :: bool
  assumes "pg_wf pg"
  defines "pg' \<equiv> PG_AbortPlannedMoves halt pg"
  shows "pg_wf pg' \<and> PG_QueueEmpty pg' \<and> pg_position pg' = PG_CurPosition pg
    \<and> PG_CurPosition pg' = PG_CurPosition pg \<and> PG_Step pg' = (pg', 0, [])"
proof -
  note ab = PG_AbortPlannedMoves_spec[OF assms(1), of halt, folded pg'_def]
  then have "PG_Step pg' = (pg', 0, [])" by (intro PG_Step_idle) simp_all
  with ab show ?thesis by simp
qed

theorem abort_stops_in_place_witness:
  "PG_Step (PG_AbortPlannedMoves True (PulseGen_new 4 800))
    = (PG_AbortPlannedMoves True (PulseGen_new 4 800), 0, [])"
  using abort_stops_in_place[OF PulseGen_new_wf[of 4 800], of True] by simp


lemma div_double_le: "unat ((x :: u32) div push_bit 1 a) \<le> 2 ^ 31 - 1"
proof (cases "push_bit 1 a = 0")
  case False
  have "even (unat (push_bit 1 a))"
    by (simp add: push_bit_eq_mult unat_word_ariths dvd_mod_iff)
  then have "2 \<le> unat (push_bit 1 a)" using False by (metis dvd_imp_le gr0I unat_eq_0)
  moreover have "unat x < 2 ^ 32" using unsigned_less[of x, where ?'a = nat] by simp
  ultimately have "unat x div unat (push_bit 1 a) \<le> unat x div 2" by (intro div_le_mono2) simp_all
  also have "\<dots> \<le> 2 ^ 31 - 1" using \<open>unat x < 2 ^ 32\<close> by simp
  finally show ?thesis by (simp add: unat_div_distrib)
qed (simp add: word_div_def)

lemma plateau_order:
  fixes a d steps :: u32
  assumes "unat a \<le> 2 ^ 31 - 1" "unat d \<le> 2 ^ 31 - 1" "a + d < steps"
  shows "a \<le> a + (steps - (a + d)) \<and> a + (steps - (a + d)) \<le> steps"
proof -
  have "unat (a + d) = unat a + unat d" using assms by (simp add: unat_word_ariths)
  then have le: "unat a + unat d < unat steps" using assms(3) by (simp add: word_less_nat_alt)
  have "a + (steps - (a + d)) = steps - d" by simp
  moreover have "unat (steps - d) = unat steps - unat d"
    using le by (simp add: unat_sub word_le_nat_alt)
  ultimately show ?thesis using le by (simp add: word_le_nat_alt)
qed

lemma trapezoid_steps_order:
  assumes "trapezoid_steps steps acc v n w = (a, p, f)"
  shows "a \<le> a + p \<and> a + p \<le> steps"
proof -
  show ?thesis
    using assms plateau_order[OF div_double_le div_double_le, of _ acc _ acc steps]
    unfolding trapezoid_steps_def Let_def
    by (auto split: if_splits simp: not_less intro: word_sub_le)
qed

text \<open>The speed profile of a block is in order for every input: acceleration ends no later than
  deceleration begins, deceleration begins within the block, and the block is entered at the wanted
  speed, raised to the minimal rate of 120 steps per second and capped by the nominal rate. The
  32-bit sums and differences of step counts do not wrap, whatever the rates.\<close>

theorem trapezoid_in_order:
  "let block' = CalculateTrapezoid entry_speed exit_speed block in
     b_accelerate_until block' \<le> b_decelerate_after block'
     \<and> b_decelerate_after block' \<le> b_steps block' \<and> b_steps block' = b_steps block
     \<and> b_initial_rate block' = min (b_nominal_rate block) (max minStepRate entry_speed)"
proof -
  define block' where "block' = CalculateTrapezoid entry_speed exit_speed block"
  obtain a p f acc v w where t: "trapezoid_steps (b_steps block) acc v (b_nominal_rate block) w = (a, p, f)"
    "b_accelerate_until block' = a" "b_decelerate_after block' = a + p"
  proof -
    have "\<exists>acc v w. b_accelerate_until block' = fst (trapezoid_steps (b_steps block) acc v (b_nominal_rate block) w)
      \<and> b_decelerate_after block' = fst (trapezoid_steps (b_steps block) acc v (b_nominal_rate block) w)
          + fst (snd (trapezoid_steps (b_steps block) acc v (b_nominal_rate block) w))"
      unfolding block'_def CalculateTrapezoid_def Let_def by (simp add: case_prod_beta) blast
    with that show thesis by (metis prod.collapse)
  qed
  have "b_accelerate_until block' \<le> b_decelerate_after block' \<and> b_decelerate_after block' \<le> b_steps block"
    using trapezoid_steps_order[OF t(1)] by (simp add: t)
  moreover have "b_initial_rate (CalculateTrapezoid entry_speed exit_speed block)
      = min (b_nominal_rate block) (max minStepRate entry_speed)"
    by (auto simp: CalculateTrapezoid_def Let_def min_def max_def split: prod.splits)
  ultimately show ?thesis by (simp add: Let_def block'_def)
qed

end
