(* ===== verification/Permanent_Storage.thy ===== *)
theory Permanent_Storage
  imports Config
begin

text \<open>
  The EEPROM access layer (\<open>hal/avr/eeprom.cpp\<close>) and the data kept in it
  (\<open>modules/permanent_storage.cpp\<close>): the bowden length, the last loaded filament with its wear
  levelling, the drive error counter and the StallGuard thresholds. The routines of avr-libc
  behind the access layer are the reads and writes of \<open>eeprom\<close>; a worn-out cell keeps its old
  content when it is written, the failure \<open>FilamentLoaded\<close> is built to survive.
\<close>

section \<open>The byte store\<close>

record eeprom =
  ee_cell :: "nat \<Rightarrow> u8"
  ee_worn :: "nat list"

definition ReadByte :: "eeprom \<Rightarrow> nat \<Rightarrow> u8" where
  "ReadByte e a = ee_cell e a"

definition ReadByteDefault :: "eeprom \<Rightarrow> nat \<Rightarrow> u8 \<Rightarrow> u8" where
  "ReadByteDefault e a d = (let v = ReadByte e a in if v = 0xff then d else v)"

definition UpdateByte :: "nat \<Rightarrow> u8 \<Rightarrow> eeprom \<Rightarrow> eeprom" where
  "UpdateByte a v e =
     (if a \<in> set (ee_worn e) then e else e\<lparr>ee_cell := (ee_cell e)(a := v)\<rparr>)"

text \<open>Words are little-endian, two cells each.\<close>

definition ReadWord :: "eeprom \<Rightarrow> nat \<Rightarrow> u16" where
  "ReadWord e a = push_bit 8 (u16_of_u8 (ReadByte e (a + 1))) OR u16_of_u8 (ReadByte e a)"

definition UpdateWord :: "nat \<Rightarrow> u16 \<Rightarrow> eeprom \<Rightarrow> eeprom" where
  "UpdateWord a v e = UpdateByte (a + 1) (u8_of_u16 (drop_bit 8 v)) (UpdateByte a (u8_of_u16 v) e)"

definition EEPROM_End :: nat where "EEPROM_End = 2048"

section \<open>The layout\<close>

text \<open>Offsets of the members of the packed structure \<open>eeprom_t\<close>, which starts at address 0.\<close>

definition eepromFilamentStatus :: "nat \<Rightarrow> nat" where "eepromFilamentStatus i = 11 + i"
definition eepromFilament :: "nat \<Rightarrow> nat" where "eepromFilament i = 14 + i"
definition eepromFilament_size :: nat where "eepromFilament_size = 800"
definition eepromDriveErrorCountH :: nat where "eepromDriveErrorCountH = 814"
definition eepromDriveErrorCountL :: "nat \<Rightarrow> nat" where "eepromDriveErrorCountL i = 815 + i"
definition sg_thrs_addr :: "Axis \<Rightarrow> nat" where "sg_thrs_addr a = 817 + axis_index a"
definition bowdenLengthMM :: nat where "bowdenLengthMM = 820"

definition layoutVersion :: u8 where "layoutVersion = 0xff"
definition eepromEmpty :: u16 where "eepromEmpty = 0xffff"

definition EraseAll :: "eeprom \<Rightarrow> eeprom" where
  "EraseAll e = UpdateByte EEPROM_End layoutVersion
     (fold (\<lambda>i. UpdateByte i (u8_of_u16 eepromEmpty)) [0..<EEPROM_End] e)"

definition Storage_Init :: "eeprom \<Rightarrow> eeprom" where
  "Storage_Init e = (if ReadByte e EEPROM_End \<noteq> layoutVersion then EraseAll e else e)"

section \<open>Bowden length\<close>

definition validBowdenLen :: "u16 \<Rightarrow> bool" where
  "validBowdenLen l \<longleftrightarrow> l \<ge> u16_of_unit minimumBowdenLength \<and> l \<le> u16_of_unit maximumBowdenLength"

definition BowdenLength_Get :: "eeprom \<Rightarrow> u16" where
  "BowdenLength_Get e = (let bl = ReadWord e bowdenLengthMM in
     if validBowdenLen bl then bl else u16_of_unit defaultBowdenLength)"

definition BowdenLength_Set :: "u16 \<Rightarrow> eeprom \<Rightarrow> eeprom" where
  "BowdenLength_Set mm e = UpdateWord bowdenLengthMM mm e"

section \<open>Last loaded filament\<close>

definition KeyFront1 :: u8 where "KeyFront1 = 0"
definition KeyReverse1 :: u8 where "KeyReverse1 = 1"
definition KeyFront2 :: u8 where "KeyFront2 = 2"
definition KeyReverse2 :: u8 where "KeyReverse2 = 3"
definition BehindLastKey :: nat where "BehindLastKey = 4"

lemmas key_defs = KeyFront1_def KeyReverse1_def KeyFront2_def KeyReverse2_def

definition getStatus :: "eeprom \<Rightarrow> u8" where
  "getStatus e =
     (let s0 = ReadByte e (eepromFilamentStatus 0);
          s1 = ReadByte e (eepromFilamentStatus 1);
          s2 = ReadByte e (eepromFilamentStatus 2)
      in if s0 = s1 then s0 else if s0 = s2 then s0 else if s1 = s2 then s1 else 0xff)"

definition setStatus :: "u8 \<Rightarrow> eeprom \<Rightarrow> bool \<times> eeprom" where
  "setStatus status e =
     (let e' = fold (\<lambda>i. UpdateByte (eepromFilamentStatus i) status) [0..<3] e
      in (getStatus e' = status, e'))"

definition cell_key :: "eeprom \<Rightarrow> nat \<Rightarrow> u8" where
  "cell_key e i = drop_bit 4 (ReadByte e (eepromFilament i))"

definition getIndex :: "eeprom \<Rightarrow> int" where
  "getIndex e = (let status = getStatus e in
     if status = KeyFront1 \<or> status = KeyFront2 then
       (case find (\<lambda>i. status \<noteq> cell_key e i) [0..<eepromFilament_size] of
          Some i \<Rightarrow> int i - 1
        | None \<Rightarrow> int eepromFilament_size - 1)
     else if status = KeyReverse1 \<or> status = KeyReverse2 then
       (case find (\<lambda>i. status \<noteq> cell_key e i) (rev [0..<eepromFilament_size]) of
          Some i \<Rightarrow> int i + 1
        | None \<Rightarrow> 0)
     else - 1)"

definition index_ok :: "int \<Rightarrow> bool" where
  "index_ok index \<longleftrightarrow> \<not> (index < 0 \<or> index \<ge> int eepromFilament_size)"

text \<open>The argument \<open>filament\<close> is passed by reference and may be overwritten by a failing call.\<close>

definition FilamentLoaded_get :: "eeprom \<Rightarrow> u8 \<Rightarrow> bool \<times> u8" where
  "FilamentLoaded_get e filament =
     (let index = getIndex e in
      if \<not> index_ok index then (False, filament)
      else
        let rawFilament = ReadByte e (eepromFilament (nat index));
            filament = 0x0f AND rawFilament
        in if filament \<ge> toolCount then (False, filament)
           else
             let status = getStatus e in
             if \<not> (status = KeyFront1 \<or> status = KeyReverse1 \<or> status = KeyFront2
                    \<or> status = KeyReverse2) then (False, filament)
             else if drop_bit 4 rawFilament \<noteq> status then (False, filament)
             else (True, filament))"

definition nextStatus :: "u8 \<Rightarrow> u8" where
  "nextStatus status =
     (if status = KeyFront1 then KeyReverse1
      else if status = KeyReverse1 then KeyFront2
      else if status = KeyFront2 then KeyReverse2
      else if status = KeyReverse2 then KeyFront1
      else KeyFront1)"

definition getNext :: "u8 \<Rightarrow> int \<Rightarrow> u8 \<times> int" where
  "getNext status index =
     (if status = KeyFront1 \<or> status = KeyFront2 then
        (let index = index + 1 in
         if \<not> index_ok index then (nextStatus status, int eepromFilament_size - 1)
         else (status, index))
      else if status = KeyReverse1 \<or> status = KeyReverse2 then
        (let index = index - 1 in
         if \<not> index_ok index then (nextStatus status, 0) else (status, index))
      else (KeyFront1, 0))"

text \<open>The loop over the keys; the argument counts the remaining turns.\<close>

fun filament_set_loop :: "nat \<Rightarrow> u8 \<Rightarrow> eeprom \<Rightarrow> bool \<times> eeprom" where
  "filament_set_loop 0 filament e = (False, e)"
| "filament_set_loop (Suc n) filament e =
     (let (status, index) = getNext (getStatus e) (getIndex e);
          (ok, e1) = setStatus status e
      in if \<not> ok then (False, e1)
         else
           let filamentRaw = (push_bit 4 status AND 0xf0) + (filament AND 0x0f);
               e2 = UpdateByte (eepromFilament (nat index)) filamentRaw e1
           in if filamentRaw = ReadByte e2 (eepromFilament (nat index)) then (True, e2)
              else
                let (ok, e3) = setStatus (nextStatus status) e2
                in if \<not> ok then (False, e3) else filament_set_loop n filament e3)"

definition FilamentLoaded_set :: "u8 \<Rightarrow> eeprom \<Rightarrow> bool \<times> eeprom" where
  "FilamentLoaded_set filament e = filament_set_loop (BehindLastKey - 1) filament e"

section \<open>Drive errors and axis setup\<close>

definition DriveError_getL :: "eeprom \<Rightarrow> u8" where
  "DriveError_getL e =
     (let first = ReadByte e (eepromDriveErrorCountL 0);
          second = ReadByte e (eepromDriveErrorCountL 1)
      in if first = 0xff \<and> second = 0 then 1
         else if first > second then first + 1 else second + 1)"

definition DriveError_getH :: "eeprom \<Rightarrow> u8" where
  "DriveError_getH e = ReadByte e eepromDriveErrorCountH + 1"

definition DriveError_setL :: "u8 \<Rightarrow> eeprom \<Rightarrow> eeprom" where
  "DriveError_setL lowByte e =
     UpdateByte (eepromDriveErrorCountL (unat (lowByte mod 2))) (lowByte - 1) e"

definition DriveError_setH :: "u8 \<Rightarrow> eeprom \<Rightarrow> eeprom" where
  "DriveError_setH highByte e = UpdateByte eepromDriveErrorCountH (highByte - 1) e"

definition DriveError_get :: "eeprom \<Rightarrow> u16" where
  "DriveError_get e = push_bit 8 (u16_of_u8 (DriveError_getH e)) + u16_of_u8 (DriveError_getL e)"

definition DriveError_increment :: "eeprom \<Rightarrow> eeprom" where
  "DriveError_increment e = (let errors = DriveError_get e in
     if errors < 0xffff then
       let errors = errors + 1
       in DriveError_setH (u8_of_u16 (drop_bit 8 errors)) (DriveError_setL (u8_of_u16 errors) e)
     else e)"

definition AxisTMCSetup_get :: "eeprom \<Rightarrow> Axis \<Rightarrow> u8 \<Rightarrow> u8" where
  "AxisTMCSetup_get e a d = ReadByteDefault e (sg_thrs_addr a) d"

definition AxisTMCSetup_set :: "Axis \<Rightarrow> u8 \<Rightarrow> eeprom \<Rightarrow> eeprom" where
  "AxisTMCSetup_set a v e = UpdateByte (sg_thrs_addr a) v e"

section \<open>The store as an interface\<close>

text \<open>What the data structures rely on: a healthy cell returns what was written last, and a
  write changes no other cell.\<close>

locale byte_store =
  fixes rd :: "'s \<Rightarrow> nat \<Rightarrow> u8"
    and wr :: "nat \<Rightarrow> u8 \<Rightarrow> 's \<Rightarrow> 's"
    and healthy :: "'s \<Rightarrow> nat \<Rightarrow> bool"
  assumes rd_wr: "healthy s a \<Longrightarrow> rd (wr a v s) a = v"
    and rd_wr_other: "b \<noteq> a \<Longrightarrow> rd (wr a v s) b = rd s b"
    and rd_wr_worn: "\<not> healthy s a \<Longrightarrow> rd (wr a v s) a = rd s a"
    and healthy_wr: "healthy (wr a v s) b = healthy s b"
begin

lemma rd_fold_wr:
  "rd (fold (\<lambda>i. wr (f i) v) js s) a =
     (if a \<in> f ` set js \<and> healthy s a then v else rd s a)"
proof (induction js arbitrary: s)
  case (Cons i js)
  then show ?case
    by (cases "a = f i"; cases "healthy s a") (auto simp: rd_wr rd_wr_other rd_wr_worn healthy_wr)
qed simp

lemma healthy_fold_wr: "healthy (fold (\<lambda>i. wr (f i) v) js s) a = healthy s a"
  by (induction js arbitrary: s) (simp_all add: healthy_wr)

lemma majority:
  assumes "distinct [a, b, c]" "length (filter (\<lambda>x. \<not> healthy s x) [a, b, c]) \<le> 1"
    and "t = fold (\<lambda>i. wr i v) [a, b, c] s"
  shows "(rd t a = v \<and> rd t b = v) \<or> (rd t a = v \<and> rd t c = v) \<or> (rd t b = v \<and> rd t c = v)"
  using assms by (auto simp: rd_wr rd_wr_other rd_wr_worn healthy_wr split: if_splits)

end

definition cell_healthy :: "eeprom \<Rightarrow> nat \<Rightarrow> bool" where
  "cell_healthy e a \<longleftrightarrow> a \<notin> set (ee_worn e)"

interpretation ee: byte_store ReadByte UpdateByte cell_healthy
  by unfold_locales (auto simp: ReadByte_def UpdateByte_def cell_healthy_def)

section \<open>Wear levelling\<close>

text \<open>
  The cells carrying the current key: a prefix of the array for the front keys, a suffix for
  the reverse keys; \<open>k\<close> is the cell written last. With any other status (erased memory) it is
  enough that no cell behind the first pretends to carry the first key.
\<close>

definition front_key :: "u8 \<Rightarrow> bool" where
  "front_key st \<longleftrightarrow> st = KeyFront1 \<or> st = KeyFront2"

definition reverse_key :: "u8 \<Rightarrow> bool" where
  "reverse_key st \<longleftrightarrow> st = KeyReverse1 \<or> st = KeyReverse2"

definition filled :: "u8 \<Rightarrow> int \<Rightarrow> eeprom \<Rightarrow> bool" where
  "filled st k e \<longleftrightarrow>
     (front_key st \<longrightarrow> - 1 \<le> k \<and> k < 800 \<and> (\<forall>j < 800. cell_key e j = st \<longleftrightarrow> int j \<le> k)) \<and>
     (reverse_key st \<longrightarrow> 0 \<le> k \<and> k \<le> 800 \<and> (\<forall>j < 800. cell_key e j = st \<longleftrightarrow> k \<le> int j)) \<and>
     (\<not> front_key st \<and> \<not> reverse_key st \<longrightarrow>
        k = - 1 \<and> (\<forall>j < 800. 0 < j \<longrightarrow> cell_key e j \<noteq> KeyFront1))"

definition filament_inv :: "eeprom \<Rightarrow> bool" where
  "filament_inv e \<longleftrightarrow> (\<exists>k. filled (getStatus e) k e)"

definition filament_healthy :: "eeprom \<Rightarrow> bool" where
  "filament_healthy e \<longleftrightarrow> (\<forall>i < 800. cell_healthy e (eepromFilament i))
     \<and> length (filter (\<lambda>x. \<not> cell_healthy e x) (map eepromFilamentStatus [0, 1, 2])) \<le> 1"

lemma find_upt_Some: "k < n \<Longrightarrow> P k \<Longrightarrow> (\<forall>i < k. \<not> P i) \<Longrightarrow> find P [0..<n] = Some k"
  by (auto simp: find_Some_iff intro!: exI[of _ k])

lemma find_rev_upt_Some:
  "k < n \<Longrightarrow> P k \<Longrightarrow> (\<forall>i. k < i \<and> i < n \<longrightarrow> \<not> P i) \<Longrightarrow> find P (rev [0..<n]) = Some k"
proof (induction n)
  case (Suc n)
  then show ?case by (cases "k = n") (auto simp: less_Suc_eq)
qed simp

lemma find_after_prefix:
  assumes "\<forall>j < n. P j \<longleftrightarrow> \<not> int j \<le> k" "- 1 \<le> k" "k < int n"
  shows "find P [0..<n] = (if k = int n - 1 then None else Some (nat (k + 1)))"
proof (cases "k = int n - 1")
  case True
  with assms show ?thesis by (auto simp: find_None_iff)
next
  case False
  with assms have "find P [0..<n] = Some (nat (k + 1))" by (intro find_upt_Some) auto
  with False show ?thesis by simp
qed

lemma find_before_suffix:
  assumes "\<forall>j < n. P j \<longleftrightarrow> \<not> k \<le> int j" "0 \<le> k" "k \<le> int n"
  shows "find P (rev [0..<n]) = (if k = 0 then None else Some (nat (k - 1)))"
proof (cases "k = 0")
  case True
  with assms show ?thesis by (auto simp: find_None_iff)
next
  case False
  with assms have "find P (rev [0..<n]) = Some (nat (k - 1))" by (intro find_rev_upt_Some) auto
  with False show ?thesis by simp
qed

lemma nextStatus_keys:
  "front_key st \<Longrightarrow> reverse_key (nextStatus st) \<and> nextStatus st \<noteq> st"
  "reverse_key st \<Longrightarrow> front_key (nextStatus st) \<and> nextStatus st \<noteq> st"
  by (auto simp: front_key_def reverse_key_def nextStatus_def key_defs)

lemma keys_disjoint: "front_key st \<Longrightarrow> \<not> reverse_key st"
  by (auto simp: front_key_def reverse_key_def key_defs)

lemma filled_front: "front_key st \<Longrightarrow> filled st k e \<longleftrightarrow>
    - 1 \<le> k \<and> k < 800 \<and> (\<forall>j < 800. cell_key e j = st \<longleftrightarrow> int j \<le> k)"
  by (simp add: filled_def keys_disjoint)

lemma filled_reverse: "reverse_key st \<Longrightarrow> filled st k e \<longleftrightarrow>
    0 \<le> k \<and> k \<le> 800 \<and> (\<forall>j < 800. cell_key e j = st \<longleftrightarrow> k \<le> int j)"
  using keys_disjoint by (auto simp: filled_def)

lemma filled_other: "\<not> front_key st \<Longrightarrow> \<not> reverse_key st \<Longrightarrow> filled st k e \<longleftrightarrow>
    k = - 1 \<and> (\<forall>j < 800. 0 < j \<longrightarrow> cell_key e j \<noteq> KeyFront1)"
  by (simp add: filled_def)

lemma getIndex_filled:
  assumes "filled (getStatus e) k e" shows "getIndex e = k"
proof -
  let ?s = "getStatus e" and ?n = eepromFilament_size
  have n: "int ?n = 800" by (simp add: eepromFilament_size_def)
  consider (front) "front_key ?s" | (reverse) "\<not> front_key ?s" "reverse_key ?s"
    | (other) "\<not> front_key ?s" "\<not> reverse_key ?s" by blast
  then show ?thesis
  proof cases
    case front
    with assms have k: "- 1 \<le> k" "k < int ?n" "\<forall>j < ?n. cell_key e j = ?s \<longleftrightarrow> int j \<le> k"
      by (simp_all add: filled_front n eepromFilament_size_def)
    then have "find (\<lambda>i. ?s \<noteq> cell_key e i) [0..<?n]
        = (if k = int ?n - 1 then None else Some (nat (k + 1)))"
      by (intro find_after_prefix) (simp_all add: eq_commute[of ?s])
    with front k(1) show ?thesis unfolding getIndex_def Let_def front_key_def by simp
  next
    case reverse
    with assms have k: "0 \<le> k" "k \<le> int ?n" "\<forall>j < ?n. cell_key e j = ?s \<longleftrightarrow> k \<le> int j"
      by (simp_all add: filled_reverse n eepromFilament_size_def)
    then have "find (\<lambda>i. ?s \<noteq> cell_key e i) (rev [0..<?n])
        = (if k = 0 then None else Some (nat (k - 1)))"
      by (intro find_before_suffix) (simp_all add: eq_commute[of ?s])
    with reverse k(1) show ?thesis unfolding getIndex_def Let_def front_key_def reverse_key_def by auto
  next
    case other
    with assms show ?thesis
      by (simp add: getIndex_def filled_def front_key_def reverse_key_def Let_def)
  qed
qed

lemma getNext_front: "front_key st \<Longrightarrow> - 1 \<le> k \<Longrightarrow> k < 800 \<Longrightarrow>
    getNext st k = (if k = 799 then (nextStatus st, 799) else (st, k + 1))"
  by (auto simp: getNext_def front_key_def index_ok_def eepromFilament_size_def)

lemma getNext_reverse: "reverse_key st \<Longrightarrow> 0 \<le> k \<Longrightarrow> k \<le> 800 \<Longrightarrow>
    getNext st k = (if k = 0 then (nextStatus st, 0) else (st, k - 1))"
  using keys_disjoint[of st]
  by (auto simp: getNext_def front_key_def reverse_key_def index_ok_def eepromFilament_size_def)

text \<open>The cell \<open>getNext\<close> selects extends the filled part, under the key it selects.\<close>

lemma getNext_range:
  assumes "filled st k e" "getNext st k = (st', i)"
  shows "front_key st' \<or> reverse_key st'" "0 \<le> i" "i < 800"
proof -
  have "(front_key st' \<or> reverse_key st') \<and> 0 \<le> i \<and> i < 800"
  proof (cases "front_key st \<or> reverse_key st")
    case True
    with assms nextStatus_keys[of st] show ?thesis
      by (auto simp: getNext_front getNext_reverse filled_front filled_reverse split: if_splits)
  next
    case False
    with assms(2) show ?thesis by (auto simp: getNext_def front_key_def reverse_key_def)
  qed
  then show "front_key st' \<or> reverse_key st'" "0 \<le> i" "i < 800" by simp_all
qed

lemma getNext_filled:
  assumes "filled st k e" "getNext st k = (st', i)"
    and "\<forall>j < 800. cell_key e' j = (if int j = i then st' else cell_key e j)"
  shows "filled st' i e'"
proof -
  show ?thesis
  proof (cases "front_key st")
    case True
    with assms(1) have k: "- 1 \<le> k" "k < 800" "\<forall>j < 800. cell_key e j = st \<longleftrightarrow> int j \<le> k"
      by (simp_all add: filled_front)
    show ?thesis
    proof (cases "k = 799")
      case full: True
      with True k assms(2) have i: "st' = nextStatus st" "i = 799" by (simp_all add: getNext_front)
      with nextStatus_keys(1)[OF True] have "reverse_key st'" "st' \<noteq> st" by simp_all
      moreover have "\<forall>j < 800. cell_key e j = st" using k(3) full by simp
      ultimately show ?thesis using assms(3) i(2) by (simp add: filled_reverse)
    next
      case False
      with True k assms(2) have i: "st' = st" "i = k + 1" by (simp_all add: getNext_front)
      with True k False assms(3) show ?thesis by (auto simp: filled_front)
    qed
  next
    case nf: False
    show ?thesis
    proof (cases "reverse_key st")
      case True
      with assms(1) have k: "0 \<le> k" "k \<le> 800" "\<forall>j < 800. cell_key e j = st \<longleftrightarrow> k \<le> int j"
        by (simp_all add: filled_reverse)
      show ?thesis
      proof (cases "k = 0")
        case full: True
        with True k assms(2) have i: "st' = nextStatus st" "i = 0" by (simp_all add: getNext_reverse)
        with nextStatus_keys(2)[OF True] have "front_key st'" "st' \<noteq> st" by simp_all
        moreover have "\<forall>j < 800. cell_key e j = st" using k(3) full by simp
        ultimately show ?thesis using assms(3) i(2) by (simp add: filled_front)
      next
        case False
        with True k assms(2) have i: "st' = st" "i = k - 1" by (simp_all add: getNext_reverse)
        with True k False assms(3) show ?thesis by (auto simp: filled_reverse)
      qed
    next
      case False
      with nf assms(2) have i: "st' = KeyFront1" "i = 0"
        by (auto simp: getNext_def front_key_def reverse_key_def)
      then have "front_key st'" by (simp add: front_key_def)
      with i assms(1,3) nf False show ?thesis by (auto simp: filled_front filled_other)
    qed
  qed
qed

lemma setStatus_spec:
  assumes "filament_healthy e" "setStatus st e = (ok, e')"
  shows "ok" "getStatus e' = st" "cell_key e' i = cell_key e i"
    "ReadByte e' (eepromFilament i) = ReadByte e (eepromFilament i)" "ee_worn e' = ee_worn e"
proof -
  let ?a = "map eepromFilamentStatus [0, 1, 2]"
  have upt3: "[0..<3] = [0, 1, 2]" by (simp add: upt_rec)
  have e': "e' = fold (\<lambda>i. UpdateByte i st) ?a e" and ok: "ok \<longleftrightarrow> getStatus e' = st"
    using assms(2) by (auto simp: setStatus_def Let_def upt3)
  show st: "getStatus e' = st"
    using ee.majority[of "eepromFilamentStatus 0" "eepromFilamentStatus 1" "eepromFilamentStatus 2" e e' st]
      assms(1) e'
    by (auto simp: getStatus_def Let_def filament_healthy_def eepromFilamentStatus_def)
  then show ok using ok by simp
  show r: "ReadByte e' (eepromFilament i) = ReadByte e (eepromFilament i)" for i
    unfolding e' using ee.rd_fold_wr[of "\<lambda>x. x" st ?a e "eepromFilament i"]
    by (simp add: eepromFilamentStatus_def eepromFilament_def)
  then show "cell_key e' i = cell_key e i" by (simp add: cell_key_def)
  show "ee_worn e' = ee_worn e" unfolding e' by (simp add: UpdateByte_def)
qed

lemma filament_healthy_worn: "ee_worn e' = ee_worn e \<Longrightarrow> filament_healthy e' = filament_healthy e"
  by (simp add: filament_healthy_def cell_healthy_def)

lemma UpdateByte_worn [simp]: "ee_worn (UpdateByte a v e) = ee_worn e"
  by (simp add: UpdateByte_def)

lemma key_nibble: "front_key st \<or> reverse_key st \<Longrightarrow>
    drop_bit 4 ((push_bit 4 st AND 0xf0) + (f AND 0x0f) :: u8) = st
    \<and> (0x0f :: u8) AND ((push_bit 4 st AND 0xf0) + (f AND 0x0f)) = f AND 0x0f"
proof -
  assume k: "front_key st \<or> reverse_key st"
  have f: "unat (f AND 0xf) < 16" by (simp only: unat_u8_and_15)
  have "drop_bit 4 ((push_bit 4 st AND 0xf0) + x) = st
      \<and> (0x0f :: u8) AND ((push_bit 4 st AND 0xf0) + x) = x" if "unat x < 16" for x :: u8
    by (rule all_u8_less[where k = 16 and P = "\<lambda>x. drop_bit 4 ((push_bit 4 st AND 0xf0) + x) = st
      \<and> (0x0f :: u8) AND ((push_bit 4 st AND 0xf0) + x) = x"])
      (use k that in \<open>auto simp: front_key_def reverse_key_def key_defs upt_rec\<close>)
  with f show ?thesis by blast
qed

text \<open>
  Storing a filament on healthy data cells: it succeeds, the invariant is kept, and reading it
  back gives the slot if it is a valid one.
\<close>

lemma filament_set_get:
  assumes "filament_inv e" "filament_healthy e"
  obtains e' where "FilamentLoaded_set f e = (True, e')" "filament_inv e'" "filament_healthy e'"
    "FilamentLoaded_get e' x = (f AND 0x0f < toolCount, f AND 0x0f)"
proof -
  from assms(1) obtain k where k: "filled (getStatus e) k e" by (auto simp: filament_inv_def)
  obtain st i where n: "getNext (getStatus e) k = (st, i)" by fastforce
  obtain ok e1 where s: "setStatus st e = (ok, e1)" by fastforce
  note spec = setStatus_spec[OF assms(2) s]
  define raw where "raw = (push_bit 4 st AND 0xf0) + (f AND 0x0f)"
  define e2 where "e2 = UpdateByte (eepromFilament (nat i)) raw e1"
  have bounds: "front_key st \<or> reverse_key st" "0 \<le> i" "i < 800"
    using getNext_range[OF k n] by simp_all
  have h1: "cell_healthy e1 (eepromFilament (nat i))"
    using assms(2) bounds spec(5) by (auto simp: filament_healthy_def cell_healthy_def)
  have rd: "ReadByte e2 (eepromFilament j) = (if j = nat i then raw else ReadByte e (eepromFilament j))" for j
    unfolding e2_def using ee.rd_wr[OF h1] spec(4)
    by (simp add: ee.rd_wr_other eepromFilament_def)
  have raw: "drop_bit 4 raw = st" "0x0f AND raw = f AND 0x0f"
    using key_nibble[OF bounds(1)] by (simp_all add: raw_def)
  have keys: "\<forall>j < 800. cell_key e2 j = (if int j = i then st else cell_key e j)"
    using bounds(2) by (auto simp: cell_key_def rd raw)
  have st2: "getStatus e2 = st"
    using spec(2) by (simp add: getStatus_def e2_def ee.rd_wr_other eepromFilament_def eepromFilamentStatus_def)
  have fl: "filled st i e2" by (rule getNext_filled(1)[OF k n keys])
  have idx: "getIndex e2 = i" using getIndex_filled fl st2 by simp
  have "FilamentLoaded_set f e = (True, e2)"
  proof -
    have turns: "BehindLastKey - 1 = Suc 2" by (simp add: BehindLastKey_def)
    have "raw = ReadByte e2 (eepromFilament (nat i))" using rd by simp
    with spec(1) show ?thesis
      unfolding FilamentLoaded_set_def turns filament_set_loop.simps(2) getIndex_filled[OF k] n s
        prod.case Let_def raw_def [symmetric] e2_def [symmetric]
      by (simp only: not_True_eq_False if_False if_True refl)
  qed
  moreover have "filament_inv e2" using fl st2 by (auto simp: filament_inv_def)
  moreover have "filament_healthy e2"
    using assms(2) spec(5) filament_healthy_worn[of e2 e] by (simp add: e2_def)
  moreover have "FilamentLoaded_get e2 x = (f AND 0x0f < toolCount, f AND 0x0f)"
    using bounds raw
    by (auto simp: FilamentLoaded_get_def idx index_ok_def eepromFilament_size_def rd st2 Let_def
        front_key_def reverse_key_def)
  ultimately show ?thesis by (rule that)
qed

section \<open>The drive error counter\<close>

text \<open>
  The counter stands at \<open>n\<close>: the high byte is stored less one, so that erased memory reads 0,
  and the two low cells hold the last two values of the low byte, each less one.
\<close>

definition drive_errors :: "u16 \<Rightarrow> eeprom \<Rightarrow> bool" where
  "drive_errors n e \<longleftrightarrow>
     ReadByte e eepromDriveErrorCountH = u8_of_u16 (drop_bit 8 n) - 1
     \<and> (let l = u8_of_u16 n in
          ReadByte e (eepromDriveErrorCountL (unat (l mod 2))) = l - 1
          \<and> ReadByte e (eepromDriveErrorCountL (1 - unat (l mod 2))) = (if n = 0 then 0xff else l - 2))"

definition drive_healthy :: "eeprom \<Rightarrow> bool" where
  "drive_healthy e \<longleftrightarrow> (\<forall>a \<in> {eepromDriveErrorCountH, eepromDriveErrorCountL 0, eepromDriveErrorCountL 1}.
     cell_healthy e a)"

lemma mod2_u8: "(l :: u8) mod 2 = 0 \<or> l mod 2 = 1"
proof -
  have "unat (l mod 2) < 2" by (simp add: unat_mod)
  then have "unat (l mod 2) = 0 \<or> unat (l mod 2) = 1" by linarith
  then show ?thesis by (metis unat_0 unat_1 word_unat_eq_iff)
qed

lemma pred_less: "l \<noteq> 0 \<Longrightarrow> l \<noteq> 1 \<Longrightarrow> l - 2 < l - (1 :: u8)"
  by unat_arith

lemma DriveError_getL_rep: "drive_errors n e \<Longrightarrow> DriveError_getL e = u8_of_u16 n"
proof -
  assume d: "drive_errors n e"
  let ?l = "u8_of_u16 n"
  show ?thesis
  proof (cases "?l mod 2 = 0")
    case True
    then have "?l \<noteq> 1" by auto
    with True d pred_less[of ?l] show ?thesis
      by (cases "n = 0"; cases "?l = 0") (auto simp: drive_errors_def DriveError_getL_def Let_def)
  next
    case False
    then have one: "?l mod 2 = 1" using mod2_u8 by blast
    then have "?l \<noteq> 0" by auto
    moreover from this have "n \<noteq> 0" by auto
    moreover have "?l - 2 = 0xff \<and> ?l - 1 = 0 \<longleftrightarrow> ?l = 1" by (auto simp: eq_diff_eq)
    moreover have "?l \<noteq> 1 \<Longrightarrow> \<not> ?l - 1 < ?l - 2" using calculation(1) pred_less[of ?l] by auto
    ultimately show ?thesis
      using d one by (auto simp: drive_errors_def DriveError_getL_def Let_def)
  qed
qed

lemma u16_bytes: "push_bit 8 (u16_of_u8 (u8_of_u16 (drop_bit 8 n))) + u16_of_u8 (u8_of_u16 n) = n"
proof -
  have "push_bit 8 (u16_of_u8 (u8_of_u16 (drop_bit 8 n))) + u16_of_u8 (u8_of_u16 n)
      = push_bit 8 (u16_of_u8 (u8_of_u16 (drop_bit 8 n))) OR u16_of_u8 (u8_of_u16 n)"
    by (intro disjunctive_add_eq_or bit_eqI) (auto simp: bit_simps)
  also have "\<dots> = n"
  proof (rule bit_word_eqI)
    fix i assume "i < LENGTH(16)"
    then show "bit (push_bit 8 (u16_of_u8 (u8_of_u16 (drop_bit 8 n))) OR u16_of_u8 (u8_of_u16 n)) i
        = bit n i"
      by (cases "i < 8") (auto simp: bit_simps)
  qed
  finally show ?thesis .
qed

lemma DriveError_get_rep: "drive_errors n e \<Longrightarrow> DriveError_get e = n"
  using u16_bytes[of n]
  by (simp add: DriveError_get_def DriveError_getL_rep DriveError_getH_def)
    (simp add: drive_errors_def)

lemma DriveError_increment_rep:
  assumes "drive_errors n e" "drive_healthy e"
  shows "drive_errors (if n < 0xffff then n + 1 else n) (DriveError_increment e)"
    "drive_healthy (DriveError_increment e)"
proof -
  show "drive_healthy (DriveError_increment e)"
    using assms(2)
    by (simp add: DriveError_increment_def DriveError_setL_def DriveError_setH_def drive_healthy_def
        cell_healthy_def Let_def)
  let ?l = "u8_of_u16 n" and ?l' = "u8_of_u16 (n + 1)"
  have l': "?l' = ?l + 1"
    by (simp add: word_unat_eq_iff unat_u8_of_u16 unat_word_ariths mod_mod_cancel mod_simps)
  have parity: "unat (?l' mod 2) = 1 - unat (?l mod 2)"
    by (simp add: l' unat_mod unat_word_ariths mod_mod_cancel) presburger
  show "drive_errors (if n < 0xffff then n + 1 else n) (DriveError_increment e)"
  proof (cases "n < 0xffff")
    case True
    then have "n + 1 \<noteq> 0" by (auto simp flip: eq_neg_iff_add_eq_0)
    moreover have inc: "DriveError_increment e = DriveError_setH (u8_of_u16 (drop_bit 8 (n + 1)))
        (DriveError_setL ?l' e)"
      using True by (simp add: DriveError_increment_def DriveError_get_rep[OF assms(1)] Let_def)
    have p: "unat (?l mod 2) = 0 \<or> unat (?l mod 2) = 1" by (metis mod2_u8 unat_0 unat_1)
    have h: "cell_healthy e (eepromDriveErrorCountL 0)" "cell_healthy e (eepromDriveErrorCountL 1)"
      "cell_healthy e eepromDriveErrorCountH"
      using assms(2) by (simp_all add: drive_healthy_def)
    have rd: "ReadByte (DriveError_increment e) eepromDriveErrorCountH
          = u8_of_u16 (drop_bit 8 (n + 1)) - 1"
      "ReadByte (DriveError_increment e) (eepromDriveErrorCountL (unat (?l' mod 2))) = ?l' - 1"
      "ReadByte (DriveError_increment e) (eepromDriveErrorCountL (unat (?l mod 2)))
          = ReadByte e (eepromDriveErrorCountL (unat (?l mod 2)))"
      using h p unfolding inc DriveError_setL_def DriveError_setH_def parity
      by (auto simp: ee.rd_wr ee.rd_wr_other ee.healthy_wr eepromDriveErrorCountL_def
          eepromDriveErrorCountH_def)
    have other: "1 - unat (?l' mod 2) = unat (?l mod 2)" using p parity by auto
    have "ReadByte e (eepromDriveErrorCountL (unat (?l mod 2))) = ?l - 1"
      using assms(1) by (simp add: drive_errors_def Let_def)
    then have "ReadByte e (eepromDriveErrorCountL (unat (?l mod 2))) = ?l' - 2" by (simp add: l')
    with True rd other calculation show ?thesis
      unfolding drive_errors_def Let_def by (simp only: if_True if_False)
  next
    case False
    with assms(1) show ?thesis
      by (simp add: DriveError_increment_def DriveError_get_rep Let_def)
  qed
qed

section \<open>Erased memory\<close>

definition factory_erased :: "eeprom \<Rightarrow> bool" where
  "factory_erased e \<longleftrightarrow> (\<forall>a \<le> EEPROM_End. ReadByte e a = 0xff)"

lemma EraseAll_erased:
  assumes "\<forall>a \<le> EEPROM_End. cell_healthy e a" shows "factory_erased (EraseAll e)"
proof -
  have "ReadByte (EraseAll e) a = 0xff" if "a \<le> EEPROM_End" for a
  proof (cases "a = EEPROM_End")
    case True
    with assms show ?thesis
      by (simp add: EraseAll_def layoutVersion_def ee.rd_wr ee.healthy_fold_wr[where f = "\<lambda>i. i"])
  next
    case False
    with that have "a \<in> set [0..<EEPROM_End]" by simp
    with False assms that show ?thesis
      using ee.rd_fold_wr[of "\<lambda>i. i" "u8_of_u16 eepromEmpty" "[0..<EEPROM_End]" e a]
      by (simp add: EraseAll_def ee.rd_wr_other eepromEmpty_def del: upt_Suc)
  qed
  then show ?thesis by (simp add: factory_erased_def)
qed

lemma erased_filament_inv: "factory_erased e \<Longrightarrow> filament_inv e"
proof -
  assume e: "factory_erased e"
  have "getStatus e = 0xff"
    using e by (simp add: getStatus_def factory_erased_def eepromFilamentStatus_def EEPROM_End_def)
  moreover have "cell_key e j = 0xf" if "j < 800" for j
    using e that by (simp add: cell_key_def factory_erased_def eepromFilament_def EEPROM_End_def)
  ultimately have "filled (getStatus e) (- 1) e"
    by (simp add: filled_def front_key_def reverse_key_def key_defs)
  then show ?thesis by (auto simp: filament_inv_def)
qed

lemma erased_drive_errors: "factory_erased e \<Longrightarrow> drive_errors 0 e"
  by (simp add: drive_errors_def factory_erased_def EEPROM_End_def eepromDriveErrorCountH_def
      eepromDriveErrorCountL_def)

section \<open>Properties\<close>

lemma filament_store_all:
  "filament_inv e \<Longrightarrow> filament_healthy e \<Longrightarrow>
     filament_inv (fold (\<lambda>f e. snd (FilamentLoaded_set f e)) fs e)
     \<and> filament_healthy (fold (\<lambda>f e. snd (FilamentLoaded_set f e)) fs e)"
proof (induction fs arbitrary: e)
  case (Cons f fs)
  from Cons.prems obtain e' where "FilamentLoaded_set f e = (True, e')" "filament_inv e'"
    "filament_healthy e'" by (rule filament_set_get)
  with Cons.IH[of e'] show ?case by simp
qed simp

text \<open>C8: the wear-levelled filament storage is a register. After any number of earlier stores, on
  memory that is erased or was written by this code, with all data cells working and at most one of
  the three status cells worn out, storing a slot succeeds and reading gives that slot back (a
  value that is no slot, the parked state, reads as \<open>nothing loaded\<close>), wherever in the array and
  under whichever key the store happens to land.\<close>

theorem filament_storage_register:
  assumes "factory_erased e \<or> filament_inv e" "filament_healthy e"
    and "e1 = fold (\<lambda>f e. snd (FilamentLoaded_set f e)) fs e"
  shows "fst (FilamentLoaded_set f e1)
    \<and> FilamentLoaded_get (snd (FilamentLoaded_set f e1)) x = (f AND 0x0f < toolCount, f AND 0x0f)"
proof -
  have "filament_inv e1" "filament_healthy e1"
    using filament_store_all[of e fs] assms erased_filament_inv by blast+
  then obtain e' where "FilamentLoaded_set f e1 = (True, e')"
    "FilamentLoaded_get e' x = (f AND 0x0f < toolCount, f AND 0x0f)"
    by (rule filament_set_get)
  then show ?thesis by simp
qed

theorem filament_storage_register_witness:
  "\<exists>e. FilamentLoaded_get (snd (FilamentLoaded_set 3 e)) 0 = (True, 3)"
proof -
  let ?e = "\<lparr>ee_cell = \<lambda>_. 0xff, ee_worn = [12]\<rparr>"
  have "factory_erased ?e" by (simp add: factory_erased_def ReadByte_def)
  moreover have "filament_healthy ?e"
    by (simp add: filament_healthy_def cell_healthy_def eepromFilament_def eepromFilamentStatus_def)
  ultimately show ?thesis
    using filament_storage_register[of ?e ?e "[]" 3 0] by (auto simp: toolCount_def)
qed

text \<open>The drive error counter counts. From erased memory with working cells, it reads after
  \<open>k\<close> increments \<open>k\<close>, also across the carries from the two alternating low cells into the
  high cell, and it stops at 65535 instead of wrapping.\<close>

theorem drive_errors_counted:
  assumes "factory_erased e" "drive_healthy e"
  shows "unat (DriveError_get ((DriveError_increment ^^ k) e)) = min k 65535"
proof -
  have "drive_errors (word_of_nat (min k 65535)) ((DriveError_increment ^^ k) e)
      \<and> drive_healthy ((DriveError_increment ^^ k) e)"
  proof (induction k)
    case 0
    with assms show ?case by (simp add: erased_drive_errors)
  next
    case (Suc k)
    let ?n = "word_of_nat (min k 65535) :: u16"
    have n: "unat ?n = min k 65535" by (simp add: unat_of_nat)
    then have "?n < 0xffff \<longleftrightarrow> k < 65535" by (auto simp: word_less_nat_alt)
    then have "(if ?n < 0xffff then ?n + 1 else ?n) = word_of_nat (min (Suc k) 65535)"
      by (auto simp: min_def not_less)
    with Suc DriveError_increment_rep[of ?n "(DriveError_increment ^^ k) e"] show ?case by simp
  qed
  then have "DriveError_get ((DriveError_increment ^^ k) e) = word_of_nat (min k 65535)"
    by (blast intro: DriveError_get_rep)
  then show ?thesis by (simp add: unat_of_nat)
qed

theorem drive_errors_counted_witness:
  "\<exists>e. unat (DriveError_get ((DriveError_increment ^^ 256) e)) = 256"
proof -
  let ?e = "\<lparr>ee_cell = \<lambda>_. 0xff, ee_worn = []\<rparr>"
  have "factory_erased ?e" "drive_healthy ?e"
    by (simp_all add: factory_erased_def ReadByte_def drive_healthy_def cell_healthy_def)
  then show ?thesis using drive_errors_counted[of ?e 256] by (intro exI[of _ ?e]) simp
qed

lemma bowden_limits:
  "u16_of_unit minimumBowdenLength = 341" "u16_of_unit maximumBowdenLength = 1000"
  "u16_of_unit defaultBowdenLength = 360"
  by (simp_all add: u16_of_unit_def minimumBowdenLength_def maximumBowdenLength_def
      defaultBowdenLength_def)

lemma ReadWord_UpdateWord:
  "cell_healthy e a \<Longrightarrow> cell_healthy e (a + 1) \<Longrightarrow> ReadWord (UpdateWord a v e) a = v"
proof -
  assume "cell_healthy e a" "cell_healthy e (a + 1)"
  then have "ReadWord (UpdateWord a v e) a
      = push_bit 8 (u16_of_u8 (u8_of_u16 (drop_bit 8 v))) OR u16_of_u8 (u8_of_u16 v)"
    by (simp add: ReadWord_def UpdateWord_def ee.rd_wr ee.rd_wr_other ee.healthy_wr)
  also have "\<dots> = push_bit 8 (u16_of_u8 (u8_of_u16 (drop_bit 8 v))) + u16_of_u8 (u8_of_u16 v)"
    by (intro disjunctive_add_eq_or [symmetric] bit_eqI) (auto simp: bit_simps)
  finally show ?thesis by (simp only: u16_bytes)
qed

text \<open>Whatever the EEPROM holds, the bowden length in use lies between the configured minimum
  and maximum, and a valid length that was stored is the one in use.\<close>

theorem bowden_length_in_range:
  "341 \<le> BowdenLength_Get e \<and> BowdenLength_Get e \<le> 1000
   \<and> (cell_healthy e bowdenLengthMM \<and> cell_healthy e (bowdenLengthMM + 1) \<and> 341 \<le> mm \<and> mm \<le> 1000
      \<longrightarrow> BowdenLength_Get (BowdenLength_Set mm e) = mm)"
  by (auto simp: BowdenLength_Get_def BowdenLength_Set_def validBowdenLen_def bowden_limits Let_def
      ReadWord_UpdateWord)

theorem bowden_length_in_range_witness:
  "BowdenLength_Get (BowdenLength_Set 420 \<lparr>ee_cell = \<lambda>_. 0xff, ee_worn = []\<rparr>) = 420"
  using bowden_length_in_range[of "\<lparr>ee_cell = \<lambda>_. 0xff, ee_worn = []\<rparr>" 420]
  by (simp add: cell_healthy_def)

end
