(* ===== verification/Globals.thy ===== *)
theory Globals
  imports Permanent_Storage
begin

text \<open>
  The global state of the firmware (\<open>modules/globals.cpp\<close>): the filament load state with the
  active slot, and the parameters the printer may change through registers.
\<close>

text \<open>
  The load state is an enumeration over a byte. The firmware names five values and relies on their
  order; a write to the register of the load state can store any other one.
\<close>

datatype FilamentLoadState = FLS (fls_byte: u8)

abbreviation NotLoaded :: FilamentLoadState where "NotLoaded \<equiv> FLS 0"
abbreviation AtPulley :: FilamentLoadState where "AtPulley \<equiv> FLS 1"
abbreviation InSelector :: FilamentLoadState where "InSelector \<equiv> FLS 2"
abbreviation InFSensor :: FilamentLoadState where "InFSensor \<equiv> FLS 4"
abbreviation InNozzle :: FilamentLoadState where "InNozzle \<equiv> FLS 8"

instantiation FilamentLoadState :: linorder
begin

definition "a \<le> b \<longleftrightarrow> fls_byte a \<le> fls_byte (b :: FilamentLoadState)"
definition "a < b \<longleftrightarrow> fls_byte a < fls_byte (b :: FilamentLoadState)"

instance
  by standard
    (auto simp: less_eq_FilamentLoadState_def less_FilamentLoadState_def intro: FilamentLoadState.expand)

end

lemmas fls_order = less_eq_FilamentLoadState_def less_FilamentLoadState_def word_le_nat_alt word_less_nat_alt

record Globals =
  g_activeSlot :: u8
  g_filamentLoaded :: FilamentLoadState
  g_stealthMode :: bool
  g_fsensorToNozzle_mm :: u8
  g_fsensorUnloadCheck_mm :: u8
  g_pulleyLoadFeedrate_mm_s :: u16
  g_pulleySlowFeedrate_mm_s :: u16
  g_pulleyUnloadFeedrate_mm_s :: u16
  g_selectorFeedrate_mm_s :: u16
  g_selectorHomingFeedrate_mm_s :: u16
  g_idlerFeedrate_deg_s :: u16
  g_idlerHomingFeedrate_deg_s :: u16
  g_cutIRunCurrent :: u8
  g_cutLength_mm :: u8

text \<open>The zero-initialised static object.\<close>

definition Globals_new :: Globals where
  "Globals_new = \<lparr>g_activeSlot = 0, g_filamentLoaded = NotLoaded, g_stealthMode = False,
     g_fsensorToNozzle_mm = 0, g_fsensorUnloadCheck_mm = 0, g_pulleyLoadFeedrate_mm_s = 0,
     g_pulleySlowFeedrate_mm_s = 0, g_pulleyUnloadFeedrate_mm_s = 0, g_selectorFeedrate_mm_s = 0,
     g_selectorHomingFeedrate_mm_s = 0, g_idlerFeedrate_deg_s = 0,
     g_idlerHomingFeedrate_deg_s = 0, g_cutIRunCurrent = 0, g_cutLength_mm = 0\<rparr>"

definition Globals_Init :: "eeprom \<Rightarrow> Globals \<Rightarrow> Globals" where
  "Globals_Init e g =
     (let (ok, slot) = FilamentLoaded_get e (g_activeSlot g);
          slot = (if \<not> ok then toolCount else slot)
      in g\<lparr>g_activeSlot := slot,
           g_filamentLoaded := (if slot < toolCount then InNozzle else AtPulley),
           g_fsensorToNozzle_mm := u8_of_unit fsensorToNozzle,
           g_fsensorUnloadCheck_mm := u8_of_unit fsensorUnloadCheckDistance,
           g_pulleyLoadFeedrate_mm_s := u16_of_unit pulleyLoadFeedrate,
           g_pulleySlowFeedrate_mm_s := u16_of_unit pulleySlowFeedrate,
           g_pulleyUnloadFeedrate_mm_s := u16_of_unit pulleyUnloadFeedrate,
           g_selectorFeedrate_mm_s := u16_of_unit selectorFeedrate,
           g_selectorHomingFeedrate_mm_s := u16_of_unit selectorHomingFeedrate,
           g_idlerFeedrate_deg_s := u16_of_unit idlerFeedrate,
           g_idlerHomingFeedrate_deg_s := u16_of_unit idlerHomingFeedrate,
           g_cutIRunCurrent := selectorCutIRun,
           g_cutLength_mm := u8_of_unit cutLength\<rparr>)"

text \<open>
  The active slot in memory becomes \<open>slot\<close> in every case; what the EEPROM records is the slot
  if the filament is in the selector or further, the parked state if it is not, and nothing for a value without a name.
\<close>

definition fls_named :: "FilamentLoadState set" where
  "fls_named = {NotLoaded, AtPulley, InSelector, InFSensor, InNozzle}"

definition SetFilamentLoaded ::
  "u8 \<Rightarrow> FilamentLoadState \<Rightarrow> Globals \<times> eeprom \<Rightarrow> Globals \<times> eeprom" where
  "SetFilamentLoaded slot newFilamentLoaded = (\<lambda>(g, e).
     (g\<lparr>g_filamentLoaded := newFilamentLoaded, g_activeSlot := slot\<rparr>,
      if newFilamentLoaded = NotLoaded \<or> newFilamentLoaded = AtPulley then snd (FilamentLoaded_set toolCount e)
      else if newFilamentLoaded \<in> {InSelector, InFSensor, InNozzle} then snd (FilamentLoaded_set slot e)
      else e))"

text \<open>The getters that return physical quantities.\<close>

definition FSensorToNozzle_mm :: "Globals \<Rightarrow> rat" where
  "FSensorToNozzle_mm g = unit_of_u8 (g_fsensorToNozzle_mm g)"
definition FSensorUnloadCheck_mm :: "Globals \<Rightarrow> rat" where
  "FSensorUnloadCheck_mm g = unit_of_u8 (g_fsensorUnloadCheck_mm g)"
definition PulleyLoadFeedrate_mm_s :: "Globals \<Rightarrow> rat" where
  "PulleyLoadFeedrate_mm_s g = unit_of_u16 (g_pulleyLoadFeedrate_mm_s g)"
definition PulleySlowFeedrate_mm_s :: "Globals \<Rightarrow> rat" where
  "PulleySlowFeedrate_mm_s g = unit_of_u16 (g_pulleySlowFeedrate_mm_s g)"
definition PulleyUnloadFeedrate_mm_s :: "Globals \<Rightarrow> rat" where
  "PulleyUnloadFeedrate_mm_s g = unit_of_u16 (g_pulleyUnloadFeedrate_mm_s g)"
definition SelectorFeedrate_mm_s :: "Globals \<Rightarrow> rat" where
  "SelectorFeedrate_mm_s g = unit_of_u16 (g_selectorFeedrate_mm_s g)"
definition SelectorHomingFeedrate_mm_s :: "Globals \<Rightarrow> rat" where
  "SelectorHomingFeedrate_mm_s g = unit_of_u16 (g_selectorHomingFeedrate_mm_s g)"
definition IdlerFeedrate_deg_s :: "Globals \<Rightarrow> rat" where
  "IdlerFeedrate_deg_s g = unit_of_u16 (g_idlerFeedrate_deg_s g)"
definition IdlerHomingFeedrate_deg_s :: "Globals \<Rightarrow> rat" where
  "IdlerHomingFeedrate_deg_s g = unit_of_u16 (g_idlerHomingFeedrate_deg_s g)"
definition CutLength_mm :: "Globals \<Rightarrow> rat" where
  "CutLength_mm g = unit_of_u8 (g_cutLength_mm g)"

definition StallGuardThreshold :: "eeprom \<Rightarrow> Axis \<Rightarrow> u8" where
  "StallGuardThreshold e a = AxisTMCSetup_get e a (ac_sg_thrs (axis_config a))"

definition SetStallGuardThreshold :: "Axis \<Rightarrow> u8 \<Rightarrow> eeprom \<Rightarrow> eeprom" where
  "SetStallGuardThreshold a sgthrs e = AxisTMCSetup_set a sgthrs e"

section \<open>Properties\<close>

text \<open>C18: the load state survives a power cycle as far as it can. After the firmware recorded a
  filament in the selector, the sensor or the nozzle and restarts, it takes that slot as active and
  assumes the worst, a filament in the nozzle; after it recorded an unloaded state it restarts with
  no active slot and the filament at the pulley; a load state without a name, which only a register
  write can produce, is not recorded and the restart finds what was there before.\<close>

theorem load_state_after_restart:
  assumes "filament_inv e" "filament_healthy e" "slot < toolCount"
    and "g' = Globals_Init (snd (SetFilamentLoaded slot st (g, e))) Globals_new"
  shows "(if st \<notin> fls_named then g' = Globals_Init e Globals_new
    else if InSelector \<le> st then g_activeSlot g' = slot \<and> g_filamentLoaded g' = InNozzle
    else g_activeSlot g' = toolCount \<and> g_filamentLoaded g' = AtPulley)"
proof -
  have small: "slot AND 0x0f = slot" if "slot < toolCount" for slot
  proof -
    have "unat (slot AND 0xf) = unat slot mod 16" by (simp only: unat_u8_and_15)
    also have "\<dots> = unat slot" using that by (simp add: word_less_nat_alt toolCount_def)
    finally show ?thesis by (simp add: word_unat_eq_iff)
  qed
  have five: "toolCount AND 0x0f = toolCount" by (simp add: toolCount_def)
  consider "st \<notin> fls_named" | "st \<in> fls_named" "InSelector \<le> st" | "st \<in> fls_named" "\<not> InSelector \<le> st"
    by blast
  then show ?thesis
  proof cases
    case 1
    then show ?thesis using assms(4) by (simp add: SetFilamentLoaded_def fls_named_def)
  next
    case 2
    then have st: "snd (SetFilamentLoaded slot st (g, e)) = snd (FilamentLoaded_set slot e)"
      by (auto simp: SetFilamentLoaded_def fls_order fls_named_def)
    obtain e' where "FilamentLoaded_set slot e = (True, e')"
      "FilamentLoaded_get e' 0 = (slot AND 0x0f < toolCount, slot AND 0x0f)"
      using filament_set_get[OF assms(1,2)] by metis
    then show ?thesis
      using 2 assms(3,4) small[OF assms(3)] by (auto simp: st Globals_Init_def Globals_new_def)
  next
    case 3
    then have st: "snd (SetFilamentLoaded slot st (g, e)) = snd (FilamentLoaded_set toolCount e)"
      by (auto simp: SetFilamentLoaded_def fls_order fls_named_def)
    obtain e' where "FilamentLoaded_set toolCount e = (True, e')"
      "FilamentLoaded_get e' 0 = (toolCount AND 0x0f < toolCount, toolCount AND 0x0f)"
      using filament_set_get[OF assms(1,2)] by metis
    then show ?thesis
      using 3 assms(4) five by (auto simp: st Globals_Init_def Globals_new_def)
  qed
qed

theorem load_state_after_restart_witness:
  "\<exists>e. g_activeSlot (Globals_Init (snd (SetFilamentLoaded 4 InNozzle (Globals_new, e))) Globals_new) = 4"
proof -
  let ?e = "\<lparr>ee_cell = \<lambda>_. 0xff, ee_worn = []\<rparr>"
  have "factory_erased ?e" by (simp add: factory_erased_def ReadByte_def)
  then have "filament_inv ?e" by (rule erased_filament_inv)
  moreover have "filament_healthy ?e" by (simp add: filament_healthy_def cell_healthy_def)
  ultimately show ?thesis
    using load_state_after_restart[of ?e 4 _ InNozzle Globals_new]
    by (intro exI[of _ ?e]) (simp add: toolCount_def fls_order fls_named_def)
qed

end
