(* ===== verification/Motion.thy ===== *)
theory Motion
  imports Tmc2130 Pulse_Gen Globals
begin

text \<open>
  The motion controller (\<open>modules/motion.cpp\<close>, \<open>modules/motion.h\<close>): for every axis the driver,
  the step generator, the enable flag, the currents and the residual of its timer, together with
  the hardware they act on. Of the static axis parameters only the StallGuard threshold is ever
  written. The stepping interrupt is \<open>Motion_Step\<close>; the sections that suspend it are
  operations of the model, which are not interleaved with it.
\<close>

section \<open>State\<close>

record AxisData =
  ad_drv :: TMC2130
  ad_ctrl :: PulseGen
  ad_enabled :: bool
  ad_currents :: MotorCurrents
  ad_residual :: u16

record Motion =
  mo_data :: "Axis \<Rightarrow> AxisData"
  mo_sg_thrs :: "Axis \<Rightarrow> u8"
  mo_hw :: hw

definition axis_mode :: "Axis \<Rightarrow> MotorMode" where
  "axis_mode a = (if ac_stealth (axis_config a) then Stealth else Normal)"

definition axis_currents :: "Axis \<Rightarrow> MotorCurrents" where
  "axis_currents a = MotorCurrents_new (ac_iRun (axis_config a)) (ac_iHold (axis_config a))"

definition axis_params :: "Motion \<Rightarrow> Axis \<Rightarrow> MotorParams" where
  "axis_params m a =
     \<lparr>mp_axis = a, mp_dirOn = ac_dirOn (axis_config a), mp_mRes = ac_mRes (axis_config a),
      mp_sg_thrs = mo_sg_thrs m a\<rparr>"

definition DataForAxis :: "Axis \<Rightarrow> AxisData" where
  "DataForAxis a =
     \<lparr>ad_drv = TMC2130_new,
      ad_ctrl = PulseGen_new (unitToAxisUnit a (al_jerk (axis_limits a)))
                  (unitToAxisUnit a (al_accel (axis_limits a))),
      ad_enabled = False, ad_currents = axis_currents a, ad_residual = 0\<rparr>"

definition Motion_new :: "hw \<Rightarrow> Motion" where
  "Motion_new h = \<lparr>mo_data = DataForAxis, mo_sg_thrs = (\<lambda>a. ac_sg_thrs (axis_config a)), mo_hw = h\<rparr>"

text \<open>Access to the driver with the hardware, and to the step generator of an axis.\<close>

definition with_drv :: "Axis \<Rightarrow> (TMC2130 \<times> hw \<Rightarrow> TMC2130 \<times> hw) \<Rightarrow> Motion \<Rightarrow> Motion" where
  "with_drv a f m =
     (let (t, h) = f (ad_drv (mo_data m a), mo_hw m)
      in m\<lparr>mo_data := (mo_data m)(a := (mo_data m a)\<lparr>ad_drv := t\<rparr>), mo_hw := h\<rparr>)"

definition with_ctrl :: "Axis \<Rightarrow> (PulseGen \<Rightarrow> PulseGen) \<Rightarrow> Motion \<Rightarrow> Motion" where
  "with_ctrl a f m =
     m\<lparr>mo_data := (mo_data m)(a := (mo_data m a)\<lparr>ad_ctrl := f (ad_ctrl (mo_data m a))\<rparr>)\<rparr>"

definition ctrl :: "Motion \<Rightarrow> Axis \<Rightarrow> PulseGen" where "ctrl m a = ad_ctrl (mo_data m a)"

section \<open>Drivers\<close>

definition Motion_Enabled :: "Axis \<Rightarrow> Motion \<Rightarrow> bool" where
  "Motion_Enabled a m = ad_enabled (mo_data m a)"

definition Motion_SetEnabled :: "Axis \<Rightarrow> bool \<Rightarrow> Motion \<Rightarrow> Motion" where
  "Motion_SetEnabled a enabled m =
     (if enabled \<noteq> ad_enabled (mo_data m a)
      then
        let m = with_drv a (TMC_SetEnabled (axis_params m a) enabled) m
        in m\<lparr>mo_data := (mo_data m)(a := (mo_data m a)\<lparr>ad_enabled := enabled\<rparr>)\<rparr>
      else m)"

definition Motion_Disable :: "Axis \<Rightarrow> Motion \<Rightarrow> Motion" where
  "Motion_Disable a = Motion_SetEnabled a False"

definition InitAxis_currents :: "Axis \<Rightarrow> MotorCurrents \<Rightarrow> Motion \<Rightarrow> bool \<times> Motion" where
  "InitAxis_currents a mc m =
     (let m = Motion_Disable a m;
          (ok, t, h) = TMC_Init (axis_params m a) mc (axis_mode a) (ad_drv (mo_data m a), mo_hw m)
      in (ok, m\<lparr>mo_data := (mo_data m)(a := (mo_data m a)\<lparr>ad_drv := t\<rparr>), mo_hw := h\<rparr>))"

definition InitAxis :: "Axis \<Rightarrow> Motion \<Rightarrow> bool \<times> Motion" where
  "InitAxis a m = InitAxis_currents a (ad_currents (mo_data m a)) m"

definition Motion_SetMode :: "Axis \<Rightarrow> MotorMode \<Rightarrow> Motion \<Rightarrow> Motion" where
  "Motion_SetMode a mode m = m\<lparr>mo_hw := TMC_SetMode (axis_params m a) mode (mo_hw m)\<rparr>"

definition Motion_SetMode_all :: "MotorMode \<Rightarrow> Motion \<Rightarrow> Motion" where
  "Motion_SetMode_all mode m = fold (\<lambda>a. Motion_SetMode a mode) all_axes m"

definition StallGuard :: "Axis \<Rightarrow> Motion \<Rightarrow> bool" where
  "StallGuard a m = Stalled (ad_drv (mo_data m a))"

definition StallGuardReset :: "Axis \<Rightarrow> Motion \<Rightarrow> Motion" where
  "StallGuardReset a = with_drv a (\<lambda>(t, h). (ClearStallguard t, h))"

definition PlanStallGuardThreshold :: "Axis \<Rightarrow> u8 \<Rightarrow> Motion \<Rightarrow> Motion" where
  "PlanStallGuardThreshold a sg_thrs m = m\<lparr>mo_sg_thrs := (mo_sg_thrs m)(a := sg_thrs)\<rparr>"

definition Motion_SetCurrents :: "Axis \<Rightarrow> MotorCurrents \<Rightarrow> Motion \<Rightarrow> Motion" where
  "Motion_SetCurrents a mc m = m\<lparr>mo_hw := TMC_SetCurrents (axis_params m a) mc (mo_hw m)\<rparr>"

definition Motion_CheckForErrors :: "Axis \<Rightarrow> Motion \<Rightarrow> bool \<times> Motion" where
  "Motion_CheckForErrors a m =
     (let (bad, t, h) = CheckForErrors (axis_params m a) (ad_drv (mo_data m a), mo_hw m)
      in (bad, m\<lparr>mo_data := (mo_data m)(a := (mo_data m a)\<lparr>ad_drv := t\<rparr>), mo_hw := h\<rparr>))"

definition SetIRunForAxis :: "Axis \<Rightarrow> u8 \<Rightarrow> Motion \<Rightarrow> Motion" where
  "SetIRunForAxis a i m =
     m\<lparr>mo_data := (mo_data m)(a := (mo_data m a)\<lparr>ad_currents := (ad_currents (mo_data m a))\<lparr>mc_iRun := i\<rparr>\<rparr>)\<rparr>"

section \<open>Moves\<close>

text \<open>The result tells whether the queue was full, in which case the firmware panics.\<close>

definition Motion_PlanMoveTo :: "Axis \<Rightarrow> i32 \<Rightarrow> u32 \<Rightarrow> u32 \<Rightarrow> Motion \<Rightarrow> bool \<times> Motion" where
  "Motion_PlanMoveTo a pos feed_rate end_rate m =
     (let (queued, c) = PG_PlanMoveTo pos feed_rate end_rate (ctrl m a);
          m = with_ctrl a (\<lambda>_. c) m
      in if queued
         then (True, if \<not> ad_enabled (mo_data m a) then Motion_SetEnabled a True m else m)
         else (False, m))"

definition Motion_Position :: "Axis \<Rightarrow> Motion \<Rightarrow> i32" where
  "Motion_Position a m = pg_position (ctrl m a)"

definition Motion_CurPosition :: "Axis \<Rightarrow> Motion \<Rightarrow> i32" where
  "Motion_CurPosition a m = PG_CurPosition (ctrl m a)"

definition Motion_SetPosition :: "Axis \<Rightarrow> i32 \<Rightarrow> Motion \<Rightarrow> Motion" where
  "Motion_SetPosition a x = with_ctrl a (\<lambda>c. c\<lparr>pg_position := x\<rparr>)"

definition Motion_PlanMove :: "Axis \<Rightarrow> i32 \<Rightarrow> u32 \<Rightarrow> u32 \<Rightarrow> Motion \<Rightarrow> bool \<times> Motion" where
  "Motion_PlanMove a delta feed_rate end_rate m =
     Motion_PlanMoveTo a (Motion_Position a m + delta) feed_rate end_rate m"

definition Motion_Acceleration :: "Axis \<Rightarrow> Motion \<Rightarrow> u32" where
  "Motion_Acceleration a m = pg_acceleration (ctrl m a)"

definition Motion_SetAcceleration :: "Axis \<Rightarrow> u32 \<Rightarrow> Motion \<Rightarrow> Motion" where
  "Motion_SetAcceleration a accel = with_ctrl a (\<lambda>c. c\<lparr>pg_acceleration := accel\<rparr>)"

definition Motion_QueueEmpty_axis :: "Axis \<Rightarrow> Motion \<Rightarrow> bool" where
  "Motion_QueueEmpty_axis a m = PG_QueueEmpty (ctrl m a)"

definition Motion_QueueEmpty :: "Motion \<Rightarrow> bool" where
  "Motion_QueueEmpty m \<longleftrightarrow> list_all (\<lambda>a. PG_QueueEmpty (ctrl m a)) all_axes"

definition Motion_PlannedMoves :: "Axis \<Rightarrow> Motion \<Rightarrow> u8" where
  "Motion_PlannedMoves a m = PG_PlannedMoves (ctrl m a)"

definition Motion_AbortPlannedMoves_axis :: "Axis \<Rightarrow> bool \<Rightarrow> Motion \<Rightarrow> Motion" where
  "Motion_AbortPlannedMoves_axis a halt = with_ctrl a (PG_AbortPlannedMoves halt)"

definition Motion_AbortPlannedMoves :: "bool \<Rightarrow> Motion \<Rightarrow> Motion" where
  "Motion_AbortPlannedMoves halt m = fold (\<lambda>a. Motion_AbortPlannedMoves_axis a halt) all_axes m"

section \<open>The stepping interrupt\<close>

fun drive_pins :: "MotorParams \<Rightarrow> pin_event list \<Rightarrow> hw \<Rightarrow> hw" where
  "drive_pins params [] h = h"
| "drive_pins params (SetDir d # es) h = drive_pins params es (TMC_SetDir params d h)"
| "drive_pins params (StepPulse # es) h = drive_pins params es (TMC_Step params h)"

text \<open>One turn of the first loop: the timer of the axis and the new state.\<close>

definition step_axis :: "Axis \<Rightarrow> Motion \<Rightarrow> u16 \<times> Motion" where
  "step_axis a m =
     (let timer = ad_residual (mo_data m a) in
      if timer \<le> stepTimerQuantum \<and> (timer \<noteq> 0 \<or> \<not> PG_QueueEmpty (ctrl m a)) then
        let (c, next, es) = PG_Step (ctrl m a);
            m = with_ctrl a (\<lambda>_. c) m;
            m = m\<lparr>mo_hw := drive_pins (axis_params m a) es (mo_hw m)\<rparr>
        in if next \<noteq> 0
           then (timer + next, with_drv a (\<lambda>(t, h). (TMC_Isr (axis_params m a) h t, h)) m)
           else (0, m)
      else (timer, m))"

definition nearest :: "u16 list \<Rightarrow> u16" where
  "nearest timers =
     foldl (\<lambda>next t. if t \<noteq> 0 \<and> (next = 0 \<or> t < next) then t else next) (hd timers) (tl timers)"

definition set_residual :: "Axis \<Rightarrow> u16 \<Rightarrow> Motion \<Rightarrow> Motion" where
  "set_residual a r m = m\<lparr>mo_data := (mo_data m)(a := (mo_data m a)\<lparr>ad_residual := r\<rparr>)\<rparr>"

definition Motion_Step :: "Motion \<Rightarrow> u16 \<times> Motion" where
  "Motion_Step m =
     (let (t0, m) = step_axis Pulley m;
          (t1, m) = step_axis Selector m;
          (t2, m) = step_axis Idler m;
          next = nearest [t0, t1, t2];
          residual = (\<lambda>t. if t \<noteq> 0 then t - next else 0)
      in (next, set_residual Idler (residual t2)
                  (set_residual Selector (residual t1) (set_residual Pulley (residual t0) m))))"

text \<open>The compare value the interrupt handler programs for the next interrupt.\<close>

definition Motion_Isr :: "Motion \<Rightarrow> u16 \<times> Motion" where
  "Motion_Isr m = (let (next, m) = Motion_Step m in (if next \<noteq> 0 then next else 0x4000, m))"


section \<open>The invariant\<close>

text \<open>Every planner is consistent. Only the operations on moves touch the planners at all.\<close>

definition motion_wf :: "Motion \<Rightarrow> bool" where
  "motion_wf m \<longleftrightarrow> (\<forall>a. pg_wf (ctrl m a))"

lemma ctrl_new: "ctrl (Motion_new h) a = PulseGen_new (unitToAxisUnit a (al_jerk (axis_limits a)))
    (unitToAxisUnit a (al_accel (axis_limits a)))"
  by (simp add: ctrl_def Motion_new_def DataForAxis_def)

lemma Motion_new_wf: "motion_wf (Motion_new h)"
  by (simp add: motion_wf_def ctrl_new PulseGen_new_wf)

lemma ctrl_with_drv [simp]: "ctrl (with_drv a f m) b = ctrl m b"
  by (simp add: ctrl_def with_drv_def Let_def split: prod.split)

lemma ctrl_with_ctrl [simp]: "ctrl (with_ctrl a f m) b = (if b = a then f (ctrl m a) else ctrl m b)"
  by (simp add: ctrl_def with_ctrl_def)

lemma ctrl_hw_update [simp]:
  "ctrl (m\<lparr>mo_hw := h\<rparr>) b = ctrl m b" "ctrl (m\<lparr>mo_sg_thrs := s\<rparr>) b = ctrl m b"
  by (simp_all add: ctrl_def)

lemma ctrl_data_update [simp]:
  "ad_ctrl d = ad_ctrl (mo_data m a) \<Longrightarrow> ctrl (m\<lparr>mo_data := (mo_data m)(a := d)\<rparr>) b = ctrl m b"
  by (simp add: ctrl_def)

lemma ctrl_SetEnabled [simp]: "ctrl (Motion_SetEnabled a e m) b = ctrl m b"
proof -
  define m1 where "m1 = with_drv a (TMC_SetEnabled (axis_params m a) e) m"
  have "ctrl (m1\<lparr>mo_data := (mo_data m1)(a := (mo_data m1 a)\<lparr>ad_enabled := e\<rparr>)\<rparr>) b = ctrl m1 b"
    by (rule ctrl_data_update) simp
  then show ?thesis by (simp add: Motion_SetEnabled_def Let_def m1_def)
qed

lemma ctrl_Disable [simp]: "ctrl (Motion_Disable a m) b = ctrl m b"
  by (simp add: Motion_Disable_def)

lemma ctrl_InitAxis_currents [simp]: "ctrl (snd (InitAxis_currents a mc m)) b = ctrl m b"
proof -
  define m1 where "m1 = Motion_Disable a m"
  obtain ok t h where i: "TMC_Init (axis_params m1 a) mc (axis_mode a) (ad_drv (mo_data m1 a), mo_hw m1) = (ok, t, h)"
    by (metis prod_cases3)
  have "ctrl m1 b = ctrl m b" by (simp add: m1_def)
  then show ?thesis
    unfolding InitAxis_currents_def Let_def m1_def[symmetric] i by simp
qed

lemma ctrl_InitAxis [simp]: "ctrl (snd (InitAxis a m)) b = ctrl m b"
  by (simp add: InitAxis_def)

lemma ctrl_SetMode [simp]: "ctrl (Motion_SetMode a mode m) b = ctrl m b"
  by (simp add: Motion_SetMode_def)

lemma ctrl_SetMode_all [simp]: "ctrl (Motion_SetMode_all mode m) b = ctrl m b"
  by (simp add: Motion_SetMode_all_def all_axes_def)

lemma ctrl_StallGuardReset [simp]: "ctrl (StallGuardReset a m) b = ctrl m b"
  by (simp add: StallGuardReset_def)

lemma ctrl_PlanStallGuardThreshold [simp]: "ctrl (PlanStallGuardThreshold a s m) b = ctrl m b"
  by (simp add: PlanStallGuardThreshold_def)

lemma ctrl_SetCurrents [simp]: "ctrl (Motion_SetCurrents a mc m) b = ctrl m b"
  by (simp add: Motion_SetCurrents_def)

lemma ctrl_CheckForErrors [simp]: "ctrl (snd (Motion_CheckForErrors a m)) b = ctrl m b"
  by (auto simp: Motion_CheckForErrors_def Let_def ctrl_def split: prod.splits)

lemma ctrl_SetIRunForAxis [simp]: "ctrl (SetIRunForAxis a i m) b = ctrl m b"
  by (simp add: SetIRunForAxis_def ctrl_def)

lemma ctrl_set_residual [simp]: "ctrl (set_residual a r m) b = ctrl m b"
  by (simp add: set_residual_def ctrl_def)

text \<open>The fields of a step generator outside the invariant.\<close>

lemma pg_wf_set_position:
  "pg_wf (c\<lparr>pg_position := x\<rparr>) = pg_wf c" "pg_wf (c\<lparr>pg_acceleration := acc\<rparr>) = pg_wf c"
  by (simp_all add: pg_wf_def queued_def split: option.splits)

lemma PG_PlanMoveTo_wf: "pg_wf c \<Longrightarrow> pg_wf (snd (PG_PlanMoveTo t f e c))"
proof (cases "PG_Full c")
  case False
  moreover assume "pg_wf c"
  moreover obtain ok c' where "PG_PlanMoveTo t f e c = (ok, c')" by fastforce
  ultimately show ?thesis using PG_PlanMoveTo_spec[of c t f e ok c'] by simp
qed (simp add: PG_PlanMoveTo_def PG_Full_def)

lemma PG_Step_wf: "pg_wf c \<Longrightarrow> pg_wf (fst (PG_Step c))"
proof (cases "PG_QueueEmpty c")
  case False
  moreover assume "pg_wf c"
  moreover obtain c' t es where "PG_Step c = (c', t, es)" by (metis prod_cases3)
  ultimately show ?thesis using PG_Step_spec[of c c' t es] by simp
qed (simp add: PG_Step_idle)

lemma ctrl_PlanMoveTo: "ctrl (snd (Motion_PlanMoveTo a t f e m)) b =
    (if b = a then snd (PG_PlanMoveTo t f e (ctrl m a)) else ctrl m b)"
  by (simp add: Motion_PlanMoveTo_def Let_def split: prod.split)

lemma ctrl_step_axis: "ctrl (snd (step_axis a m)) b =
    (if b = a \<and> ad_residual (mo_data m a) \<le> stepTimerQuantum
        \<and> (ad_residual (mo_data m a) \<noteq> 0 \<or> \<not> PG_QueueEmpty (ctrl m a))
     then fst (PG_Step (ctrl m a)) else ctrl m b)"
proof -
  obtain c t es where st: "PG_Step (ctrl m a) = (c, t, es)" by (metis prod_cases3)
  show ?thesis by (simp add: step_axis_def Let_def st) blast
qed

lemma motion_wf_PlanMoveTo [mmu_inv]: "motion_wf m \<Longrightarrow> motion_wf (snd (Motion_PlanMoveTo a t f e m))"
  by (simp add: motion_wf_def ctrl_PlanMoveTo PG_PlanMoveTo_wf)

lemma motion_wf_PlanMove [mmu_inv]: "motion_wf m \<Longrightarrow> motion_wf (snd (Motion_PlanMove a t f e m))"
  by (simp add: Motion_PlanMove_def motion_wf_PlanMoveTo)

lemma motion_wf_SetPosition [mmu_inv]: "motion_wf m \<Longrightarrow> motion_wf (Motion_SetPosition a x m)"
  by (simp add: motion_wf_def Motion_SetPosition_def pg_wf_set_position)

lemma motion_wf_SetAcceleration [mmu_inv]: "motion_wf m \<Longrightarrow> motion_wf (Motion_SetAcceleration a x m)"
  by (simp add: motion_wf_def Motion_SetAcceleration_def pg_wf_set_position)

lemma motion_wf_Abort_axis [mmu_inv]: "motion_wf m \<Longrightarrow> motion_wf (Motion_AbortPlannedMoves_axis a halt m)"
  by (simp add: motion_wf_def Motion_AbortPlannedMoves_axis_def PG_AbortPlannedMoves_spec)

lemma motion_wf_Abort [mmu_inv]: "motion_wf m \<Longrightarrow> motion_wf (Motion_AbortPlannedMoves halt m)"
  by (simp add: Motion_AbortPlannedMoves_def all_axes_def motion_wf_Abort_axis)

lemma motion_wf_step_axis: "motion_wf m \<Longrightarrow> motion_wf (snd (step_axis a m))"
  by (simp add: motion_wf_def ctrl_step_axis PG_Step_wf)

lemma motion_wf_Step [mmu_inv]: "motion_wf m \<Longrightarrow> motion_wf (snd (Motion_Step m))"
proof -
  assume w: "motion_wf m"
  obtain t0 m0 where 0: "step_axis Pulley m = (t0, m0)" by fastforce
  obtain t1 m1 where 1: "step_axis Selector m0 = (t1, m1)" by fastforce
  obtain t2 m2 where 2: "step_axis Idler m1 = (t2, m2)" by fastforce
  have "motion_wf m2"
    using motion_wf_step_axis[OF w, of Pulley] motion_wf_step_axis[of m0 Selector]
      motion_wf_step_axis[of m1 Idler] by (simp add: 0 1 2)
  then show ?thesis by (simp add: Motion_Step_def Let_def 0 1 2 motion_wf_def)
qed

lemma motion_wf_frames [mmu_inv]:
  "motion_wf m \<Longrightarrow> motion_wf (Motion_SetEnabled a e m)"
  "motion_wf m \<Longrightarrow> motion_wf (Motion_Disable a m)"
  "motion_wf m \<Longrightarrow> motion_wf (snd (InitAxis_currents a mc m))"
  "motion_wf m \<Longrightarrow> motion_wf (snd (InitAxis a m))"
  "motion_wf m \<Longrightarrow> motion_wf (Motion_SetMode a mode m)"
  "motion_wf m \<Longrightarrow> motion_wf (Motion_SetMode_all mode m)"
  "motion_wf m \<Longrightarrow> motion_wf (StallGuardReset a m)"
  "motion_wf m \<Longrightarrow> motion_wf (PlanStallGuardThreshold a sg m)"
  "motion_wf m \<Longrightarrow> motion_wf (Motion_SetCurrents a mc m)"
  "motion_wf m \<Longrightarrow> motion_wf (snd (Motion_CheckForErrors a m))"
  "motion_wf m \<Longrightarrow> motion_wf (SetIRunForAxis a i m)"
  "motion_wf m \<Longrightarrow> motion_wf (m\<lparr>mo_hw := h\<rparr>)"
  by (simp_all add: motion_wf_def)


section \<open>The schedule\<close>

text \<open>An axis is due if its timer is within the quantum and it runs or has something planned.\<close>

definition due :: "Motion \<Rightarrow> Axis \<Rightarrow> bool" where
  "due m a \<longleftrightarrow> ad_residual (mo_data m a) \<le> stepTimerQuantum
     \<and> (ad_residual (mo_data m a) \<noteq> 0 \<or> \<not> PG_QueueEmpty (ctrl m a))"

definition axis_timer :: "Motion \<Rightarrow> Axis \<Rightarrow> u16" where
  "axis_timer m a =
     (let interval = fst (snd (PG_Step (ctrl m a))) in
      if due m a then (if interval \<noteq> 0 then ad_residual (mo_data m a) + interval else 0)
      else ad_residual (mo_data m a))"

lemma step_axis_timer: "fst (step_axis a m) = axis_timer m a"
  by (simp add: step_axis_def axis_timer_def due_def Let_def split: prod.split)

lemma data_with [simp]:
  "b \<noteq> a \<Longrightarrow> mo_data (with_drv a f m) b = mo_data m b"
  "b \<noteq> a \<Longrightarrow> mo_data (with_ctrl a g m) b = mo_data m b"
  by (simp_all add: with_drv_def with_ctrl_def Let_def split: prod.split)

lemma step_axis_others: "b \<noteq> a \<Longrightarrow> mo_data (snd (step_axis a m)) b = mo_data m b"
proof -
  assume "b \<noteq> a"
  obtain c t es where st: "PG_Step (ctrl m a) = (c, t, es)" by (metis prod_cases3)
  show ?thesis using \<open>b \<noteq> a\<close> by (simp add: step_axis_def Let_def st)
qed

lemma axis_timer_local: "mo_data m b = mo_data m' b \<Longrightarrow> axis_timer m b = axis_timer m' b \<and> due m b = due m' b"
  by (simp add: axis_timer_def due_def ctrl_def Let_def)

lemma nearest_spec:
  fixes t0 t1 t2 :: u16
  defines "n \<equiv> nearest [t0, t1, t2]"
  shows "(\<forall>t \<in> {t0, t1, t2}. t \<noteq> 0 \<longrightarrow> n \<noteq> 0 \<and> n \<le> t) \<and> (n \<noteq> 0 \<longrightarrow> n \<in> {t0, t1, t2})"
proof -
  define f :: "u16 \<Rightarrow> u16 \<Rightarrow> u16" where
    "f = (\<lambda>next t. if t \<noteq> 0 \<and> (next = 0 \<or> t < next) then t else next)"
  have f: "f k t \<in> {k, t}" "t \<noteq> 0 \<Longrightarrow> f k t \<noteq> 0 \<and> f k t \<le> t" "k \<noteq> 0 \<Longrightarrow> f k t \<noteq> 0 \<and> f k t \<le> k" for k t
    by (auto simp: f_def not_less)
  have n: "n = f (f t0 t1) t2" by (simp add: n_def nearest_def f_def)
  have "n \<in> {t0, t1, t2}" using f(1)[of t0 t1] f(1)[of "f t0 t1" t2] unfolding n by auto
  moreover have "n \<noteq> 0 \<and> n \<le> t0" if "t0 \<noteq> 0"
    using f(3)[OF that, of t1] f(3)[of "f t0 t1" t2] unfolding n by (meson order_trans)
  moreover have "n \<noteq> 0 \<and> n \<le> t1" if "t1 \<noteq> 0"
    using f(2)[OF that, of t0] f(3)[of "f t0 t1" t2] unfolding n by (meson order_trans)
  moreover have "n \<noteq> 0 \<and> n \<le> t2" if "t2 \<noteq> 0"
    using f(2)[OF that, of "f t0 t1"] unfolding n by simp
  ultimately show ?thesis by auto
qed

lemma residual_set_residual:
  "ad_residual (mo_data (set_residual a r m) b) = (if b = a then r else ad_residual (mo_data m b))"
  by (simp add: set_residual_def)

text \<open>C20: The stepping interrupt serves exactly the axes that are due, each with one call of its step
  generator, and leaves the planners of the others alone. The interval it returns is the
  smallest non-zero timer, zero only if no timer runs, so that subtracting it from the timers does not
  wrap and the next interrupt comes when the first of the axes needs it.\<close>

theorem interrupt_serves_due_axes:
  assumes "motion_wf m" "Motion_Step m = (next_tick, m')"
  shows "motion_wf m'
    \<and> (\<forall>a. ctrl m' a = (if due m a then fst (PG_Step (ctrl m a)) else ctrl m a))
    \<and> (\<forall>a. axis_timer m a \<noteq> 0 \<longrightarrow> next_tick \<noteq> 0 \<and> next_tick \<le> axis_timer m a)
    \<and> (next_tick \<noteq> 0 \<longrightarrow> (\<exists>a. next_tick = axis_timer m a))
    \<and> (\<forall>a. ad_residual (mo_data m' a) = (if axis_timer m a \<noteq> 0 then axis_timer m a - next_tick else 0))"
proof -
  obtain t0 m0 where 0: "step_axis Pulley m = (t0, m0)" by fastforce
  obtain t1 m1 where 1: "step_axis Selector m0 = (t1, m1)" by fastforce
  obtain t2 m2 where 2: "step_axis Idler m1 = (t2, m2)" by fastforce
  have d: "mo_data m0 Selector = mo_data m Selector" "mo_data m1 Idler = mo_data m Idler"
    using step_axis_others[of Selector Pulley m] step_axis_others[of Idler Pulley m]
      step_axis_others[of Idler Selector m0] by (simp_all add: 0 1)
  have t: "t0 = axis_timer m Pulley" "t1 = axis_timer m Selector" "t2 = axis_timer m Idler"
    using step_axis_timer[of Pulley m] step_axis_timer[of Selector m0] step_axis_timer[of Idler m1]
      axis_timer_local[OF d(1)] axis_timer_local[OF d(2)] by (simp_all add: 0 1 2)
  define n where "n = nearest [t0, t1, t2]"
  have m': "next_tick = n" "m' = set_residual Idler (if t2 \<noteq> 0 then t2 - n else 0)
      (set_residual Selector (if t1 \<noteq> 0 then t1 - n else 0) (set_residual Pulley (if t0 \<noteq> 0 then t0 - n else 0) m2))"
  proof -
    have "Motion_Step m = (n, set_residual Idler (if t2 \<noteq> 0 then t2 - n else 0)
      (set_residual Selector (if t1 \<noteq> 0 then t1 - n else 0) (set_residual Pulley (if t0 \<noteq> 0 then t0 - n else 0) m2)))"
      by (simp only: Motion_Step_def Let_def 0 1 2 n_def prod.case)
    with assms(2) show "next_tick = n" "m' = set_residual Idler (if t2 \<noteq> 0 then t2 - n else 0)
      (set_residual Selector (if t1 \<noteq> 0 then t1 - n else 0) (set_residual Pulley (if t0 \<noteq> 0 then t0 - n else 0) m2))"
      by simp_all
  qed
  have spec: "(\<forall>t \<in> {t0, t1, t2}. t \<noteq> 0 \<longrightarrow> n \<noteq> 0 \<and> n \<le> t) \<and> (n \<noteq> 0 \<longrightarrow> n \<in> {t0, t1, t2})"
    unfolding n_def by (rule nearest_spec)
  have c: "ctrl m' a = (if due m a then fst (PG_Step (ctrl m a)) else ctrl m a)" for a
  proof -
    have "ctrl m0 Selector = ctrl m Selector" "ctrl m1 Idler = ctrl m Idler" using d by (simp_all add: ctrl_def)
    then show ?thesis
      using ctrl_step_axis[of Pulley m a] ctrl_step_axis[of Selector m0 a] ctrl_step_axis[of Idler m1 a]
        axis_timer_local[OF d(1)] axis_timer_local[OF d(2)]
      by (cases a) (simp_all add: m'(2) 0 1 2 due_def)
  qed
  have timers: "axis_timer m a \<in> {t0, t1, t2}" for a by (cases a) (simp_all add: t)
  have r: "ad_residual (mo_data m' a) = (if axis_timer m a \<noteq> 0 then axis_timer m a - next_tick else 0)" for a
    by (cases a) (simp_all add: m' residual_set_residual t)
  have ex: "\<exists>a. next_tick = axis_timer m a" if "next_tick \<noteq> 0"
  proof -
    have "n \<in> {t0, t1, t2}" using that spec m'(1) by blast
    then show ?thesis unfolding m'(1) t by blast
  qed
  have "motion_wf m'" using motion_wf_Step[OF assms(1)] assms(2) by simp
  moreover have "next_tick \<noteq> 0 \<and> next_tick \<le> axis_timer m a" if "axis_timer m a \<noteq> 0" for a
    using spec timers[of a] that unfolding m'(1) by blast
  ultimately show ?thesis using c ex r by blast
qed

theorem interrupt_serves_due_axes_witness:
  "\<exists>h m'. Motion_Step (Motion_new h) = (0, m') \<and> motion_wf m'"
proof -
  let ?h = "\<lparr>hw_spi_log = [], hw_spi_slave = \<lambda>_. [], hw_shr16 = 0, hw_step = \<lambda>_. False,
               hw_diag = \<lambda>_. False\<rparr>"
  obtain n m' where r: "Motion_Step (Motion_new ?h) = (n, m')" by fastforce
  note th = interrupt_serves_due_axes[OF Motion_new_wf r]
  have "axis_timer (Motion_new ?h) a = 0" for a
    by (simp add: axis_timer_def due_def Let_def ctrl_new Motion_new_def DataForAxis_def PG_QueueEmpty_def
        PulseGen_new_def CI_empty_def CI_new_def ctrl_def)
  with th have "n = 0" by metis
  with r th show ?thesis by (intro exI[of _ ?h] exI[of _ m']) simp
qed

end
