(* ===== verification/User_Input.thy ===== *)
theory User_Input
  imports Circular_Buffer Sensors
begin

text \<open>
  The queue of user events (\<open>modules/user_input.cpp\<close>): button presses detected by the MMU and
  button messages from the printer. An event is its code byte; events that came from the printer
  carry bit 7 while they are queued.
\<close>

definition NoEvent :: u8 where "NoEvent = 0x7f"
definition Ev_Right :: u8 where "Ev_Right = 0"
definition Ev_Middle :: u8 where "Ev_Middle = 1"
definition Ev_Left :: u8 where "Ev_Left = 2"
definition FromPrinter :: u8 where "FromPrinter = 0x80"

record UserInput =
  ui_eventQueue :: "u8 CircularBuffer"
  ui_printerInCharge :: bool
  ui_lastButtonStates :: u8

definition event_queue_size :: u8 where "event_queue_size = 4"

definition UserInput_new :: UserInput where
  "UserInput_new = \<lparr>ui_eventQueue = CB_new event_queue_size 0, ui_printerInCharge = False,
                    ui_lastButtonStates = 0\<rparr>"

definition enqueue :: "u8 \<Rightarrow> UserInput \<Rightarrow> UserInput" where
  "enqueue ev u = u\<lparr>ui_eventQueue := snd (CB_push event_queue_size ev (ui_eventQueue u))\<rparr>"

definition LastButtonState :: "nat \<Rightarrow> UserInput \<Rightarrow> bool" where
  "LastButtonState button u \<longleftrightarrow> ui_lastButtonStates u AND push_bit button 1 \<noteq> 0"

definition FlipLastButtonState :: "nat \<Rightarrow> UserInput \<Rightarrow> UserInput" where
  "FlipLastButtonState button u =
     u\<lparr>ui_lastButtonStates := ui_lastButtonStates u XOR push_bit button 1\<rparr>"

definition StepOneButton :: "Buttons \<Rightarrow> nat \<Rightarrow> UserInput \<Rightarrow> UserInput" where
  "StepOneButton bs button u =
     (let press = ButtonPressed bs button in
      if press \<noteq> LastButtonState button u
      then FlipLastButtonState button (if press then enqueue (word_of_nat button) u else u)
      else u)"

definition UserInput_Step :: "Buttons \<Rightarrow> UserInput \<Rightarrow> UserInput" where
  "UserInput_Step bs u = fold (StepOneButton bs) (rev [0..<unat buttonCount]) u"

definition UserInput_ProcessMessage :: "u8 \<Rightarrow> UserInput \<Rightarrow> UserInput" where
  "UserInput_ProcessMessage ev u = enqueue (ev OR FromPrinter) u"

definition StripFromPrinterBit :: "u8 \<Rightarrow> u8" where
  "StripFromPrinterBit e = e AND NOT FromPrinter"

definition from_printer :: "u8 \<Rightarrow> bool" where
  "from_printer e \<longleftrightarrow> e AND FromPrinter \<noteq> 0"

definition queue_pop :: "UserInput \<Rightarrow> UserInput" where
  "queue_pop u = u\<lparr>ui_eventQueue := snd (CB_pop event_queue_size (ui_eventQueue u))\<rparr>"

definition ConsumeEvent :: "UserInput \<Rightarrow> u8 \<times> UserInput" where
  "ConsumeEvent u =
     (if CB_empty (ui_eventQueue u) then (NoEvent, u)
      else
        let rv = CB_front event_queue_size (ui_eventQueue u) in
        if ui_printerInCharge u then
          if from_printer rv then (StripFromPrinterBit rv, queue_pop u) else (NoEvent, u)
        else (StripFromPrinterBit rv, queue_pop u))"

definition ConsumeEventForPrinter :: "UserInput \<Rightarrow> u8 \<times> UserInput" where
  "ConsumeEventForPrinter u =
     (if CB_empty (ui_eventQueue u) then (NoEvent, u)
      else
        let rv = CB_front event_queue_size (ui_eventQueue u) in
        if from_printer rv then (NoEvent, u) else (StripFromPrinterBit rv, queue_pop u))"

definition AnyEvent :: "UserInput \<Rightarrow> bool" where
  "AnyEvent u \<longleftrightarrow> \<not> CB_empty (ui_eventQueue u)"

definition UserInput_Clear :: "UserInput \<Rightarrow> UserInput" where
  "UserInput_Clear u = u\<lparr>ui_eventQueue := CB_reset (ui_eventQueue u)\<rparr>"

definition SetPrinterInCharge :: "bool \<Rightarrow> UserInput \<Rightarrow> UserInput" where
  "SetPrinterInCharge pc u = u\<lparr>ui_printerInCharge := pc\<rparr>"

section \<open>The queue as a list\<close>

definition events :: "UserInput \<Rightarrow> u8 list" where
  "events u = CB_contents event_queue_size (ui_eventQueue u)"

definition ui_wf :: "UserInput \<Rightarrow> bool" where
  "ui_wf u \<longleftrightarrow> CB_wf event_queue_size (ui_eventQueue u)"

lemma unat_event_queue_size [simp]: "unat event_queue_size = 4"
  by (simp add: event_queue_size_def)

lemma UserInput_new_wf: "ui_wf UserInput_new \<and> events UserInput_new = []"
  using CB_new_wf[of event_queue_size "0 :: u8"]
  by (simp add: ui_wf_def events_def UserInput_new_def valid_size_def)

lemma enqueue_events:
  assumes "ui_wf u"
  shows "ui_wf (enqueue ev u)"
    "events (enqueue ev u) = (if length (events u) < 4 then events u @ [ev] else events u)"
  using assms circular.push_room[of event_queue_size "ui_eventQueue u" ev]
    circular.push_full[of event_queue_size "ui_eventQueue u" ev]
  by (cases "length (events u) < 4"; simp add: ui_wf_def events_def enqueue_def)+

lemma CB_empty_contents: "CB_wf sz b \<Longrightarrow> CB_empty b \<longleftrightarrow> CB_contents sz b = []"
  by (metis CB_contents_length CB_count_def CB_empty_def CB_wf_def CI_empty_iff length_0_conv)

lemma CB_front_contents: "CB_wf sz b \<Longrightarrow> CB_contents sz b = x # xs \<Longrightarrow> CB_front sz b = x"
  using circular.pop_head[of sz b x xs] CB_empty_contents[of sz b] by (simp add: CB_pop_def)

lemma queue_pop_events:
  assumes "ui_wf u" "events u = x # xs" shows "ui_wf (queue_pop u)" "events (queue_pop u) = xs"
  using assms circular.pop_head[of event_queue_size "ui_eventQueue u" x xs]
  by (simp_all add: ui_wf_def events_def queue_pop_def)

lemma ConsumeEvent_list:
  assumes "ui_wf u"
  shows "ConsumeEvent u =
    (case events u of
       [] \<Rightarrow> (NoEvent, u)
     | x # xs \<Rightarrow> if ui_printerInCharge u \<and> \<not> from_printer x then (NoEvent, u)
                else (StripFromPrinterBit x, queue_pop u))"
  using assms CB_empty_contents[of event_queue_size "ui_eventQueue u"]
    CB_front_contents[of event_queue_size "ui_eventQueue u"]
  by (auto simp: ConsumeEvent_def events_def ui_wf_def Let_def split: list.splits)

lemma ConsumeEventForPrinter_list:
  assumes "ui_wf u"
  shows "ConsumeEventForPrinter u =
    (case events u of
       [] \<Rightarrow> (NoEvent, u)
     | x # xs \<Rightarrow> if from_printer x then (NoEvent, u) else (StripFromPrinterBit x, queue_pop u))"
  using assms CB_empty_contents[of event_queue_size "ui_eventQueue u"]
    CB_front_contents[of event_queue_size "ui_eventQueue u"]
  by (auto simp: ConsumeEventForPrinter_def events_def ui_wf_def Let_def split: list.splits)

lemma StepOneButton_other: "ui_printerInCharge (StepOneButton bs b u) = ui_printerInCharge u"
  by (simp add: StepOneButton_def FlipLastButtonState_def enqueue_def Let_def)

lemma LastButtonState_bit: "n < 8 \<Longrightarrow> LastButtonState n u \<longleftrightarrow> bit (ui_lastButtonStates u) n"
  by (simp add: LastButtonState_def and_exp_eq_0_iff_not_bit push_bit_eq_mult)

lemma StepOneButton_spec:
  assumes "ui_wf u" "b < 8" "\<not> ButtonPressed bs b \<or> LastButtonState b u \<or> length (events u) < 4"
  shows "ui_wf (StepOneButton bs b u)"
    "events (StepOneButton bs b u) =
       events u @ (if ButtonPressed bs b \<and> \<not> LastButtonState b u then [word_of_nat b] else [])"
    "c < 8 \<Longrightarrow> LastButtonState c (StepOneButton bs b u) =
       (if c = b then ButtonPressed bs b else LastButtonState c u)"
proof -
  have e: "ui_wf (FlipLastButtonState b v) = ui_wf v" "events (FlipLastButtonState b v) = events v" for v
    by (simp_all add: ui_wf_def events_def FlipLastButtonState_def)
  show "ui_wf (StepOneButton bs b u)"
    using assms enqueue_events(1)[of u] by (simp add: StepOneButton_def Let_def e)
  show "events (StepOneButton bs b u) =
       events u @ (if ButtonPressed bs b \<and> \<not> LastButtonState b u then [word_of_nat b] else [])"
    using assms by (auto simp: StepOneButton_def Let_def e enqueue_events)
  show "c < 8 \<Longrightarrow> LastButtonState c (StepOneButton bs b u) =
       (if c = b then ButtonPressed bs b else LastButtonState c u)"
    using assms(2)
    by (auto simp: StepOneButton_def Let_def LastButtonState_bit FlipLastButtonState_def enqueue_def
        bit_simps)
qed

text \<open>Every operation keeps the queue well-formed.\<close>

lemma ConsumeEvent_wf [mmu_inv]: "ui_wf u \<Longrightarrow> ui_wf (snd (ConsumeEvent u))"
  by (auto simp: ConsumeEvent_list intro: queue_pop_events split: list.split)

lemma ConsumeEventForPrinter_wf [mmu_inv]: "ui_wf u \<Longrightarrow> ui_wf (snd (ConsumeEventForPrinter u))"
  by (auto simp: ConsumeEventForPrinter_list intro: queue_pop_events split: list.split)

lemma StepOneButton_wf: "ui_wf u \<Longrightarrow> ui_wf (StepOneButton bs b u)"
  using enqueue_events(1)[of u]
  by (simp add: StepOneButton_def Let_def FlipLastButtonState_def ui_wf_def)

lemma UserInput_Step_wf [mmu_inv]: "ui_wf u \<Longrightarrow> ui_wf (UserInput_Step bs u)"
  unfolding UserInput_Step_def
  by (rule fold_invariant[where Q = "\<lambda>_. True"]) (auto intro: StepOneButton_wf)

lemma UserInput_Clear_wf [mmu_inv]: "ui_wf u \<Longrightarrow> ui_wf (UserInput_Clear u)"
  by (simp add: ui_wf_def UserInput_Clear_def CB_reset_wf)

lemma UserInput_ProcessMessage_wf [mmu_inv]: "ui_wf u \<Longrightarrow> ui_wf (UserInput_ProcessMessage ev u)"
  by (simp add: UserInput_ProcessMessage_def enqueue_events)

lemma SetPrinterInCharge_wf [simp]: "ui_wf (SetPrinterInCharge b u) = ui_wf u"
  by (simp add: ui_wf_def SetPrinterInCharge_def)

section \<open>Properties\<close>

text \<open>Who gets an event. Taking an event for the firmware removes the oldest one; while the
  printer is in charge only events the printer sent are handed out, and events of the MMU's own
  buttons stay for the printer. Taking an event for the printer never returns one that the printer
  sent. In every other case nothing is removed and \<open>NoEvent\<close> is returned.\<close>

theorem event_ownership:
  assumes "ui_wf u"
  shows "events (snd (ConsumeEvent u)) =
      (if events u = [] \<or> (ui_printerInCharge u \<and> \<not> from_printer (hd (events u)))
       then events u else tl (events u))
    \<and> fst (ConsumeEvent u) =
      (if events u = [] \<or> (ui_printerInCharge u \<and> \<not> from_printer (hd (events u)))
       then NoEvent else StripFromPrinterBit (hd (events u)))
    \<and> events (snd (ConsumeEventForPrinter u)) =
      (if events u = [] \<or> from_printer (hd (events u)) then events u else tl (events u))
    \<and> fst (ConsumeEventForPrinter u) =
      (if events u = [] \<or> from_printer (hd (events u)) then NoEvent
       else StripFromPrinterBit (hd (events u)))
    \<and> ui_wf (snd (ConsumeEvent u)) \<and> ui_wf (snd (ConsumeEventForPrinter u))"
  using assms queue_pop_events[OF assms]
  by (cases "events u") (auto simp: ConsumeEvent_list ConsumeEventForPrinter_list)

theorem event_ownership_witness:
  "fst (ConsumeEvent (SetPrinterInCharge True (enqueue Ev_Left UserInput_new))) = NoEvent"
proof -
  let ?u = "SetPrinterInCharge True (enqueue Ev_Left UserInput_new)"
  have "ui_wf ?u" "events ?u = [Ev_Left]"
    using enqueue_events[of UserInput_new Ev_Left] UserInput_new_wf
    by (simp_all add: ui_wf_def events_def SetPrinterInCharge_def)
  moreover have "ui_printerInCharge ?u" by (simp add: SetPrinterInCharge_def)
  ultimately show ?thesis
    using event_ownership[of ?u] by (simp add: from_printer_def FromPrinter_def Ev_Left_def)
qed

text \<open>One press, one event. A step of the user input appends, while there is room, exactly one
  event for every button that is pressed now and was not at the previous step, in the order left,
  middle, right, and remembers the state of all three buttons.\<close>

theorem one_event_per_press:
  assumes "ui_wf u" "length (events u) \<le> 1"
  shows "events (UserInput_Step bs u) = events u
      @ map word_of_nat (filter (\<lambda>b. ButtonPressed bs b \<and> \<not> LastButtonState b u) [2, 1, 0])
    \<and> ui_wf (UserInput_Step bs u)
    \<and> (\<forall>b < 3. LastButtonState b (UserInput_Step bs u) = ButtonPressed bs b)"
proof -
  define u1 where "u1 = StepOneButton bs 2 u"
  define u2 where "u2 = StepOneButton bs 1 u1"
  have step: "UserInput_Step bs u = StepOneButton bs 0 u2"
  proof -
    have three: "rev [0..<unat buttonCount] = [2, 1, 0]" by (simp add: buttonCount_def upt_rec)
    show ?thesis by (simp only: UserInput_Step_def three u1_def u2_def) simp
  qed
  have 1: "ui_wf u1" "events u1 = events u @ (if ButtonPressed bs 2 \<and> \<not> LastButtonState 2 u then [2] else [])"
    "\<And>c. c < 8 \<Longrightarrow> LastButtonState c u1 = (if c = 2 then ButtonPressed bs 2 else LastButtonState c u)"
    unfolding u1_def using StepOneButton_spec[of u 2 bs] assms by simp_all
  have 2: "ui_wf u2" "events u2 = events u1 @ (if ButtonPressed bs 1 \<and> \<not> LastButtonState 1 u1 then [1] else [])"
    "\<And>c. c < 8 \<Longrightarrow> LastButtonState c u2 = (if c = 1 then ButtonPressed bs 1 else LastButtonState c u1)"
    unfolding u2_def using StepOneButton_spec[of u1 1 bs] assms(2) 1 by simp_all
  have 3: "ui_wf (StepOneButton bs 0 u2)"
    "events (StepOneButton bs 0 u2) = events u2 @ (if ButtonPressed bs 0 \<and> \<not> LastButtonState 0 u2 then [0] else [])"
    "\<And>c. c < 8 \<Longrightarrow> LastButtonState c (StepOneButton bs 0 u2) = (if c = 0 then ButtonPressed bs 0 else LastButtonState c u2)"
    using StepOneButton_spec[of u2 0 bs] assms(2) 1 2 by simp_all
  have "\<forall>b < 3. LastButtonState b (StepOneButton bs 0 u2) = ButtonPressed bs b"
  proof (intro allI impI)
    fix b :: nat assume "b < 3"
    then have "b = 0 \<or> b = 1 \<or> b = 2" by linarith
    then show "LastButtonState b (StepOneButton bs 0 u2) = ButtonPressed bs b"
      using 1(3) 2(3) 3(3) by (elim disjE) simp_all
  qed
  then show ?thesis
    unfolding step using 3(1,2) 2(2,3) 1(2,3) by simp
qed

theorem one_event_per_press_witness:
  "events (UserInput_Step [(FINDA_new\<lparr>db_state := WaitForRelease\<rparr>), FINDA_new, FINDA_new] UserInput_new)
     = [Ev_Right]"
proof -
  have "\<not> LastButtonState b UserInput_new" for b
    by (simp add: LastButtonState_def UserInput_new_def)
  then show ?thesis
    using one_event_per_press[of UserInput_new "[(FINDA_new\<lparr>db_state := WaitForRelease\<rparr>), FINDA_new, FINDA_new]"]
      UserInput_new_wf
    by (simp add: ButtonPressed_def Pressed_def FINDA_new_def Debouncer_new_def Ev_Right_def)
qed

end
