(* ===== verification/Machine.thy ===== *)
theory Machine
  imports Motion User_Input
begin

text \<open>
  The state the modules and the commands share. The singletons of the firmware (\<open>mm::motion\<close>,
  \<open>mg::globals\<close>, \<open>mf::finda\<close>, \<open>mi::idler\<close>, ...) are the fields of one record; the base class part of
  every command object is kept in a store keyed by the object, because \<open>Panic\<close> writes to the current
  command through a pointer while that command may be in the middle of its own step. The
  theory also holds the progress, error and result codes.
\<close>

section \<open>Progress codes\<close>

datatype ProgressCode =
  P_OK | P_EngagingIdler | P_DisengagingIdler | P_UnloadingToFinda | P_UnloadingToPulley
  | P_FeedingToFinda | P_FeedingToBondtech | P_FeedingToNozzle | P_AvoidingGrind
  | P_FinishingMoves | P_ERRDisengagingIdler | P_ERREngagingIdler | P_ERRWaitingForUser
  | P_ERRInternal | P_ERRHelpingFilament | P_ERRTMCFailed | P_UnloadingFilament
  | P_LoadingFilament | P_SelectingFilamentSlot | P_PreparingBlade | P_PushingFilament
  | P_PerformingCut | P_ReturningSelector | P_ParkingSelector | P_EjectingFilament
  | P_RetractingFromFinda | P_Homing | P_MovingSelector | P_FeedingToFSensor
  | P_HWTestBegin | P_HWTestIdler | P_HWTestSelector | P_HWTestPulley | P_HWTestCleanup
  | P_HWTestExec | P_HWTestDisplay | P_ErrHwTestFailed | P_Empty

fun progress_byte :: "ProgressCode \<Rightarrow> u8" where
  "progress_byte P_OK = 0" | "progress_byte P_EngagingIdler = 1"
| "progress_byte P_DisengagingIdler = 2" | "progress_byte P_UnloadingToFinda = 3"
| "progress_byte P_UnloadingToPulley = 4" | "progress_byte P_FeedingToFinda = 5"
| "progress_byte P_FeedingToBondtech = 6" | "progress_byte P_FeedingToNozzle = 7"
| "progress_byte P_AvoidingGrind = 8" | "progress_byte P_FinishingMoves = 9"
| "progress_byte P_ERRDisengagingIdler = 10" | "progress_byte P_ERREngagingIdler = 11"
| "progress_byte P_ERRWaitingForUser = 12" | "progress_byte P_ERRInternal = 13"
| "progress_byte P_ERRHelpingFilament = 14" | "progress_byte P_ERRTMCFailed = 15"
| "progress_byte P_UnloadingFilament = 16" | "progress_byte P_LoadingFilament = 17"
| "progress_byte P_SelectingFilamentSlot = 18" | "progress_byte P_PreparingBlade = 19"
| "progress_byte P_PushingFilament = 20" | "progress_byte P_PerformingCut = 21"
| "progress_byte P_ReturningSelector = 22" | "progress_byte P_ParkingSelector = 23"
| "progress_byte P_EjectingFilament = 24" | "progress_byte P_RetractingFromFinda = 25"
| "progress_byte P_Homing = 26" | "progress_byte P_MovingSelector = 27"
| "progress_byte P_FeedingToFSensor = 28" | "progress_byte P_HWTestBegin = 29"
| "progress_byte P_HWTestIdler = 30" | "progress_byte P_HWTestSelector = 31"
| "progress_byte P_HWTestPulley = 32" | "progress_byte P_HWTestCleanup = 33"
| "progress_byte P_HWTestExec = 34" | "progress_byte P_HWTestDisplay = 35"
| "progress_byte P_ErrHwTestFailed = 36" | "progress_byte P_Empty = 0xff"

section \<open>Error and result codes\<close>

type_synonym ErrorCode = u16

definition E_RUNNING :: ErrorCode where "E_RUNNING = 0x0000"
definition E_OK :: ErrorCode where "E_OK = 0x0001"
definition TMC_PULLEY_BIT :: ErrorCode where "TMC_PULLEY_BIT = 0x0040"
definition TMC_SELECTOR_BIT :: ErrorCode where "TMC_SELECTOR_BIT = 0x0080"
definition TMC_IDLER_BIT :: ErrorCode where "TMC_IDLER_BIT = 0x0100"
definition FINDA_DIDNT_SWITCH_ON :: ErrorCode where "FINDA_DIDNT_SWITCH_ON = 0x8001"
definition FINDA_DIDNT_SWITCH_OFF :: ErrorCode where "FINDA_DIDNT_SWITCH_OFF = 0x8002"
definition FSENSOR_DIDNT_SWITCH_ON :: ErrorCode where "FSENSOR_DIDNT_SWITCH_ON = 0x8003"
definition FSENSOR_DIDNT_SWITCH_OFF :: ErrorCode where "FSENSOR_DIDNT_SWITCH_OFF = 0x8004"
definition INVALID_TOOL :: ErrorCode where "INVALID_TOOL = 0x8006"
definition HOMING_FAILED :: ErrorCode where "HOMING_FAILED = 0x8007"
definition HOMING_SELECTOR_FAILED :: ErrorCode where
  "HOMING_SELECTOR_FAILED = HOMING_FAILED OR TMC_SELECTOR_BIT"
definition FINDA_VS_EEPROM_DISREPANCY :: ErrorCode where "FINDA_VS_EEPROM_DISREPANCY = 0x8008"
definition FSENSOR_TOO_EARLY :: ErrorCode where "FSENSOR_TOO_EARLY = 0x8009"
definition FINDA_FLICKERS :: ErrorCode where "FINDA_FLICKERS = 0x800a"
definition FILAMENT_EJECTED :: ErrorCode where "FILAMENT_EJECTED = 0x800c"
definition MCU_UNDERVOLTAGE_VCC :: ErrorCode where "MCU_UNDERVOLTAGE_VCC = 0x800d"
definition QUEUE_FULL :: ErrorCode where "QUEUE_FULL = 0x802b"
definition INTERNAL :: ErrorCode where "INTERNAL = 0x802f"
definition TMC_RESET :: ErrorCode where "TMC_RESET = 0x8400"
definition TMC_UNDERVOLTAGE_ON_CHARGE_PUMP :: ErrorCode where
  "TMC_UNDERVOLTAGE_ON_CHARGE_PUMP = 0x8800"
definition TMC_SHORT_TO_GROUND :: ErrorCode where "TMC_SHORT_TO_GROUND = 0x9000"
definition TMC_OVER_TEMPERATURE_WARN :: ErrorCode where "TMC_OVER_TEMPERATURE_WARN = 0xA000"
definition TMC_OVER_TEMPERATURE_ERROR :: ErrorCode where "TMC_OVER_TEMPERATURE_ERROR = 0xC000"
definition MMU_SOLDERING_NEEDS_ATTENTION :: ErrorCode where
  "MMU_SOLDERING_NEEDS_ATTENTION = 0xC200"

lemmas error_defs = E_RUNNING_def E_OK_def TMC_PULLEY_BIT_def TMC_SELECTOR_BIT_def
  TMC_IDLER_BIT_def FINDA_DIDNT_SWITCH_ON_def FINDA_DIDNT_SWITCH_OFF_def
  FSENSOR_DIDNT_SWITCH_ON_def FSENSOR_DIDNT_SWITCH_OFF_def INVALID_TOOL_def HOMING_FAILED_def
  HOMING_SELECTOR_FAILED_def FINDA_VS_EEPROM_DISREPANCY_def FSENSOR_TOO_EARLY_def
  FINDA_FLICKERS_def FILAMENT_EJECTED_def MCU_UNDERVOLTAGE_VCC_def QUEUE_FULL_def INTERNAL_def
  TMC_RESET_def TMC_UNDERVOLTAGE_ON_CHARGE_PUMP_def TMC_SHORT_TO_GROUND_def
  TMC_OVER_TEMPERATURE_WARN_def TMC_OVER_TEMPERATURE_ERROR_def MMU_SOLDERING_NEEDS_ATTENTION_def

datatype ResultCode = Result_OK | Result_Cancelled

fun result_byte :: "ResultCode \<Rightarrow> u8" where
  "result_byte Result_OK = 0" | "result_byte Result_Cancelled = 1"

section \<open>Command objects\<close>

text \<open>The global command objects, and the \<open>UnloadFilament\<close> members of three of them.\<close>

datatype command =
  noCommand | startUp | cutFilament | ejectFilament | home | hwSanity | loadFilament
  | moveSelector | setMode | toolChange | unloadFilament

datatype obj = Cmd command | Unl command

record CommandBase =
  c_state :: ProgressCode
  c_error :: ErrorCode
  c_deferredErrorCode :: ErrorCode
  c_stateBeforeModuleFailed :: ProgressCode
  c_errorBeforeModuleFailed :: ErrorCode
  c_recoveringMovableErrorAxisMask :: u8

definition CommandBase_new :: CommandBase where
  "CommandBase_new = \<lparr>c_state = P_OK, c_error = E_OK, c_deferredErrorCode = E_OK,
     c_stateBeforeModuleFailed = P_Empty, c_errorBeforeModuleFailed = E_OK,
     c_recoveringMovableErrorAxisMask = 0\<rparr>"

section \<open>Movables\<close>

definition Ready :: u8 where "Ready = 0"
definition Moving :: u8 where "Moving = 1"
definition PlannedHome :: u8 where "PlannedHome = 2"
definition HomeForward :: u8 where "HomeForward = 3"
definition HomeBack :: u8 where "HomeBack = 4"
definition TMCFailed :: u8 where "TMCFailed = 5"
definition HomingFailed :: u8 where "HomingFailed = 6"
definition OnHold :: u8 where "OnHold = 0x80"

lemmas movable_states = Ready_def Moving_def PlannedHome_def HomeForward_def HomeBack_def
  TMCFailed_def HomingFailed_def OnHold_def

datatype OperationResult = Accepted | Refused | Failed

record Movable =
  mv_state :: u8
  mv_plannedSlot :: u8
  mv_currentSlot :: u8
  mv_homingValid :: bool
  mv_tmcErrorFlags :: ErrorFlags
  mv_axisStart :: i32

definition Movable_new :: Movable where
  "Movable_new = \<lparr>mv_state = Ready, mv_plannedSlot = -1, mv_currentSlot = -1,
     mv_homingValid = False, mv_tmcErrorFlags = ErrorFlags_new, mv_axisStart = 0\<rparr>"

text \<open>The additional states of the idler.\<close>

datatype Operation = disengage | engage | intermediate

section \<open>The machine\<close>

text \<open>
  \<open>m_oob\<close> records that a table of slot positions was read behind its end; the model reads 0 there.
\<close>

record mmu =
  m_ms :: u16
  m_motion :: Motion
  m_globals :: Globals
  m_eeprom :: eeprom
  m_finda :: Debouncer
  m_fsensor :: FSensor
  m_leds :: LEDs
  m_userInput :: UserInput
  m_movable :: "Axis \<Rightarrow> Movable"
  m_plannedMove :: Operation
  m_currentlyEngaged :: Operation
  m_oob :: bool
  m_base :: "obj \<Rightarrow> CommandBase"
  m_currentCommand :: command
  m_lastCommandProcessedMs :: u16

definition mmu_new :: "hw \<Rightarrow> eeprom \<Rightarrow> mmu" where
  "mmu_new h e = \<lparr>m_ms = 0, m_motion = Motion_new h, m_globals = Globals_new, m_eeprom = e,
     m_finda = FINDA_new, m_fsensor = FSensor_new, m_leds = LEDs_new,
     m_userInput = UserInput_new, m_movable = (\<lambda>_. Movable_new), m_plannedMove = disengage,
     m_currentlyEngaged = disengage, m_oob = False, m_base = (\<lambda>_. CommandBase_new),
     m_currentCommand = startUp, m_lastCommandProcessedMs = 0\<rparr>"

text \<open>Short names for what the code does to the singletons.\<close>

definition mot :: "(Motion \<Rightarrow> Motion) \<Rightarrow> mmu \<Rightarrow> mmu" where
  "mot f w = w\<lparr>m_motion := f (m_motion w)\<rparr>"

definition mov :: "Axis \<Rightarrow> (Movable \<Rightarrow> Movable) \<Rightarrow> mmu \<Rightarrow> mmu" where
  "mov a f w = w\<lparr>m_movable := (m_movable w)(a := f (m_movable w a))\<rparr>"

definition cmd :: "obj \<Rightarrow> (CommandBase \<Rightarrow> CommandBase) \<Rightarrow> mmu \<Rightarrow> mmu" where
  "cmd ob f w = w\<lparr>m_base := (m_base w)(ob := f (m_base w ob))\<rparr>"

definition led :: "(LEDs \<Rightarrow> LEDs) \<Rightarrow> mmu \<Rightarrow> mmu" where
  "led f w = w\<lparr>m_leds := f (m_leds w)\<rparr>"

definition inp :: "(UserInput \<Rightarrow> UserInput) \<Rightarrow> mmu \<Rightarrow> mmu" where
  "inp f w = w\<lparr>m_userInput := f (m_userInput w)\<rparr>"

definition set_filament :: "u8 \<Rightarrow> FilamentLoadState \<Rightarrow> mmu \<Rightarrow> mmu" where
  "set_filament slot st w =
     (let (g, e) = SetFilamentLoaded slot st (m_globals w, m_eeprom w)
      in w\<lparr>m_globals := g, m_eeprom := e\<rparr>)"

abbreviation active_slot :: "mmu \<Rightarrow> u8" where
  "active_slot w \<equiv> g_activeSlot (m_globals w)"

abbreviation filament_loaded :: "mmu \<Rightarrow> FilamentLoadState" where
  "filament_loaded w \<equiv> g_filamentLoaded (m_globals w)"

abbreviation finda_pressed :: "mmu \<Rightarrow> bool" where
  "finda_pressed w \<equiv> Pressed (m_finda w)"

abbreviation fsensor_pressed :: "mmu \<Rightarrow> bool" where
  "fsensor_pressed w \<equiv> FSensor_Pressed (m_fsensor w)"

definition state_of :: "obj \<Rightarrow> mmu \<Rightarrow> ProgressCode" where
  "state_of ob w = c_state (m_base w ob)"

definition error_of :: "obj \<Rightarrow> mmu \<Rightarrow> ErrorCode" where
  "error_of ob w = c_error (m_base w ob)"

definition set_state :: "obj \<Rightarrow> ProgressCode \<Rightarrow> mmu \<Rightarrow> mmu" where
  "set_state ob p = cmd ob (\<lambda>c. c\<lparr>c_state := p\<rparr>)"

definition set_error :: "obj \<Rightarrow> ErrorCode \<Rightarrow> mmu \<Rightarrow> mmu" where
  "set_error ob ec = cmd ob (\<lambda>c. c\<lparr>c_error := ec\<rparr>)"

section \<open>Panic and moves\<close>

definition CommandBase_Panic :: "obj \<Rightarrow> ErrorCode \<Rightarrow> mmu \<Rightarrow> mmu" where
  "CommandBase_Panic ob ec w =
     led (\<lambda>l. fold (\<lambda>i l. LEDs_SetMode (word_of_nat i) red blink0 (LEDs_SetMode (word_of_nat i) green blink0 l))
                [0..<unat toolCount] l)
       (set_error ob ec (set_state ob P_ERRInternal w))"

text \<open>The global function \<open>Panic\<close>, through \<open>Application::Panic\<close>.\<close>

definition Panic :: "ErrorCode \<Rightarrow> mmu \<Rightarrow> mmu" where
  "Panic ec w = CommandBase_Panic (Cmd (m_currentCommand w)) ec w"

definition plan_move_to :: "Axis \<Rightarrow> i32 \<Rightarrow> u32 \<Rightarrow> u32 \<Rightarrow> mmu \<Rightarrow> mmu" where
  "plan_move_to a pos feed_rate end_rate w =
     (let (queued, m) = Motion_PlanMoveTo a pos feed_rate end_rate (m_motion w);
          w = w\<lparr>m_motion := m\<rparr>
      in if queued then w else Panic QUEUE_FULL w)"

definition plan_move :: "Axis \<Rightarrow> i32 \<Rightarrow> u32 \<Rightarrow> u32 \<Rightarrow> mmu \<Rightarrow> mmu" where
  "plan_move a delta feed_rate end_rate w =
     plan_move_to a (Motion_Position a (m_motion w) + delta) feed_rate end_rate w"

section \<open>The invariant\<close>

text \<open>What each helper leaves alone.\<close>

lemma mot_frame [simp]:
  "m_motion (mot f w) = f (m_motion w)" "m_movable (mot f w) = m_movable w"
  "m_userInput (mot f w) = m_userInput w" "m_leds (mot f w) = m_leds w"
  "m_base (mot f w) = m_base w" "m_globals (mot f w) = m_globals w" "m_eeprom (mot f w) = m_eeprom w"
  "m_finda (mot f w) = m_finda w" "m_fsensor (mot f w) = m_fsensor w" "m_ms (mot f w) = m_ms w"
  "m_plannedMove (mot f w) = m_plannedMove w" "m_currentlyEngaged (mot f w) = m_currentlyEngaged w"
  "m_currentCommand (mot f w) = m_currentCommand w"
  by (simp_all add: mot_def)

lemma mov_frame [simp]:
  "m_movable (mov a g w) = (m_movable w)(a := g (m_movable w a))" "m_motion (mov a g w) = m_motion w"
  "m_userInput (mov a g w) = m_userInput w" "m_leds (mov a g w) = m_leds w"
  "m_base (mov a g w) = m_base w" "m_globals (mov a g w) = m_globals w" "m_eeprom (mov a g w) = m_eeprom w"
  "m_finda (mov a g w) = m_finda w" "m_fsensor (mov a g w) = m_fsensor w" "m_ms (mov a g w) = m_ms w"
  "m_plannedMove (mov a g w) = m_plannedMove w" "m_currentlyEngaged (mov a g w) = m_currentlyEngaged w"
  "m_currentCommand (mov a g w) = m_currentCommand w"
  by (simp_all add: mov_def)

lemma cmd_frame [simp]:
  "m_base (cmd ob g w) = (m_base w)(ob := g (m_base w ob))" "m_motion (cmd ob g w) = m_motion w"
  "m_userInput (cmd ob g w) = m_userInput w" "m_leds (cmd ob g w) = m_leds w"
  "m_movable (cmd ob g w) = m_movable w" "m_globals (cmd ob g w) = m_globals w"
  "m_eeprom (cmd ob g w) = m_eeprom w" "m_finda (cmd ob g w) = m_finda w"
  "m_fsensor (cmd ob g w) = m_fsensor w" "m_ms (cmd ob g w) = m_ms w"
  "m_plannedMove (cmd ob g w) = m_plannedMove w" "m_currentlyEngaged (cmd ob g w) = m_currentlyEngaged w"
  "m_currentCommand (cmd ob g w) = m_currentCommand w"
  by (simp_all add: cmd_def)

lemma led_frame [simp]:
  "m_leds (led l w) = l (m_leds w)" "m_motion (led l w) = m_motion w"
  "m_userInput (led l w) = m_userInput w" "m_base (led l w) = m_base w"
  "m_movable (led l w) = m_movable w" "m_globals (led l w) = m_globals w"
  "m_eeprom (led l w) = m_eeprom w" "m_finda (led l w) = m_finda w"
  "m_fsensor (led l w) = m_fsensor w" "m_ms (led l w) = m_ms w"
  "m_plannedMove (led l w) = m_plannedMove w" "m_currentlyEngaged (led l w) = m_currentlyEngaged w"
  "m_currentCommand (led l w) = m_currentCommand w"
  by (simp_all add: led_def)

lemma inp_frame [simp]:
  "m_userInput (inp u w) = u (m_userInput w)" "m_motion (inp u w) = m_motion w"
  "m_leds (inp u w) = m_leds w" "m_base (inp u w) = m_base w"
  "m_movable (inp u w) = m_movable w" "m_globals (inp u w) = m_globals w"
  "m_eeprom (inp u w) = m_eeprom w" "m_finda (inp u w) = m_finda w"
  "m_fsensor (inp u w) = m_fsensor w" "m_ms (inp u w) = m_ms w"
  "m_plannedMove (inp u w) = m_plannedMove w" "m_currentlyEngaged (inp u w) = m_currentlyEngaged w"
  "m_currentCommand (inp u w) = m_currentCommand w"
  by (simp_all add: inp_def)

lemma set_filament_frame [simp]:
  "m_userInput (set_filament sl st w) = m_userInput w" "m_motion (set_filament sl st w) = m_motion w"
  "m_leds (set_filament sl st w) = m_leds w" "m_base (set_filament sl st w) = m_base w"
  "m_movable (set_filament sl st w) = m_movable w" "m_finda (set_filament sl st w) = m_finda w"
  "m_fsensor (set_filament sl st w) = m_fsensor w" "m_ms (set_filament sl st w) = m_ms w"
  "m_plannedMove (set_filament sl st w) = m_plannedMove w"
  "m_currentlyEngaged (set_filament sl st w) = m_currentlyEngaged w"
  "m_currentCommand (set_filament sl st w) = m_currentCommand w"
  "active_slot (set_filament sl st w) = sl" "filament_loaded (set_filament sl st w) = st"
  by (simp_all add: set_filament_def SetFilamentLoaded_def Let_def)

lemma set_state_frame [simp]:
  "m_userInput (set_state ob p w) = m_userInput w" "m_motion (set_state ob p w) = m_motion w"
  "m_leds (set_state ob p w) = m_leds w" "m_movable (set_state ob p w) = m_movable w"
  "m_globals (set_state ob p w) = m_globals w" "m_finda (set_state ob p w) = m_finda w"
  "m_fsensor (set_state ob p w) = m_fsensor w" "m_ms (set_state ob p w) = m_ms w"
  "m_plannedMove (set_state ob p w) = m_plannedMove w"
  "m_currentlyEngaged (set_state ob p w) = m_currentlyEngaged w"
  "m_currentCommand (set_state ob p w) = m_currentCommand w" "m_eeprom (set_state ob p w) = m_eeprom w"
  by (simp_all add: set_state_def)

lemma set_error_frame [simp]:
  "m_userInput (set_error ob ec w) = m_userInput w" "m_motion (set_error ob ec w) = m_motion w"
  "m_leds (set_error ob ec w) = m_leds w" "m_movable (set_error ob ec w) = m_movable w"
  "m_globals (set_error ob ec w) = m_globals w" "m_finda (set_error ob ec w) = m_finda w"
  "m_fsensor (set_error ob ec w) = m_fsensor w" "m_ms (set_error ob ec w) = m_ms w"
  "m_plannedMove (set_error ob ec w) = m_plannedMove w"
  "m_currentlyEngaged (set_error ob ec w) = m_currentlyEngaged w"
  "m_currentCommand (set_error ob ec w) = m_currentCommand w" "m_eeprom (set_error ob ec w) = m_eeprom w"
  by (simp_all add: set_error_def)

text \<open>State and error of the commands.\<close>

lemma state_of_frame [simp]:
  "state_of ob (mot f w) = state_of ob w" "state_of ob (mov a g w) = state_of ob w"
  "state_of ob (led l w) = state_of ob w" "state_of ob (inp u w) = state_of ob w"
  "state_of ob (set_filament sl st w) = state_of ob w" "state_of ob (set_error ob' ec w) = state_of ob w"
  "state_of ob (set_state ob' p w) = (if ob = ob' then p else state_of ob w)"
  by (simp_all add: state_of_def set_error_def set_state_def)

lemma error_of_frame [simp]:
  "error_of ob (mot f w) = error_of ob w" "error_of ob (mov a g w) = error_of ob w"
  "error_of ob (led l w) = error_of ob w" "error_of ob (inp u w) = error_of ob w"
  "error_of ob (set_filament sl st w) = error_of ob w" "error_of ob (set_state ob' p w) = error_of ob w"
  "error_of ob (set_error ob' ec w) = (if ob = ob' then ec else error_of ob w)"
  by (simp_all add: error_of_def set_error_def set_state_def)

text \<open>
  A movable is consistent if its state, apart from the hold bit, is one of the seven states;
  homing is not valid while it is under way or has failed; only the selector waits with a planned
  homing; and the pulley neither homes nor is put on hold.
\<close>

definition homing_states :: "u8 list" where
  "homing_states = [PlannedHome, HomeForward, HomeBack, HomingFailed]"

definition mv_wf :: "Axis \<Rightarrow> Movable \<Rightarrow> bool" where
  "mv_wf a m \<longleftrightarrow>
     (let s = mv_state m AND NOT OnHold
      in s \<le> HomingFailed \<and> (s \<in> set homing_states \<longrightarrow> \<not> mv_homingValid m)
         \<and> (s = PlannedHome \<longrightarrow> a = Selector)
         \<and> (a = Pulley \<longrightarrow> mv_state m \<in> {Ready, Moving, TMCFailed}))"

definition mmu_wf :: "mmu \<Rightarrow> bool" where
  "mmu_wf w \<longleftrightarrow> motion_wf (m_motion w) \<and> ui_wf (m_userInput w) \<and> length (leds_leds (m_leds w)) = 10
     \<and> (\<forall>a. mv_wf a (m_movable w a))"

lemma mv_wf_new: "mv_wf a Movable_new"
  by (simp add: mv_wf_def Movable_new_def homing_states_def movable_states)

lemma mmu_wf_new: "mmu_wf (mmu_new h e)"
  by (simp add: mmu_wf_def mmu_new_def Motion_new_wf UserInput_new_wf LEDs_new_def mv_wf_new toolCount_def)

lemma mmu_wf_mot: "mmu_wf w \<Longrightarrow> (motion_wf (m_motion w) \<Longrightarrow> motion_wf (f (m_motion w))) \<Longrightarrow> mmu_wf (mot f w)"
  by (simp add: mmu_wf_def)

lemma mmu_wf_motion: "mmu_wf w \<Longrightarrow> motion_wf m \<Longrightarrow> mmu_wf (w\<lparr>m_motion := m\<rparr>)"
  by (simp add: mmu_wf_def)

lemma mmu_wf_mov: "mmu_wf w \<Longrightarrow> mv_wf a (g (m_movable w a)) \<Longrightarrow> mmu_wf (mov a g w)"
  by (simp add: mmu_wf_def)

lemma mmu_wf_led:
  "mmu_wf w \<Longrightarrow> length (leds_leds (l (m_leds w))) = length (leds_leds (m_leds w)) \<Longrightarrow> mmu_wf (led l w)"
  by (simp add: mmu_wf_def)

lemma mmu_wf_inp: "mmu_wf w \<Longrightarrow> (ui_wf (m_userInput w) \<Longrightarrow> ui_wf (u (m_userInput w))) \<Longrightarrow> mmu_wf (inp u w)"
  by (simp add: mmu_wf_def)

lemma mmu_wf_simps [simp]:
  "mmu_wf (cmd ob g w) = mmu_wf w" "mmu_wf (set_filament sl st w) = mmu_wf w"
  "mmu_wf (set_state ob p w) = mmu_wf w" "mmu_wf (set_error ob ec w) = mmu_wf w"
  by (simp_all add: mmu_wf_def)

lemma mmu_wf_updates [simp]:
  "mmu_wf (w\<lparr>m_ms := t\<rparr>) = mmu_wf w" "mmu_wf (w\<lparr>m_eeprom := e\<rparr>) = mmu_wf w"
  "mmu_wf (w\<lparr>m_globals := g\<rparr>) = mmu_wf w" "mmu_wf (w\<lparr>m_finda := d\<rparr>) = mmu_wf w"
  "mmu_wf (w\<lparr>m_fsensor := fs\<rparr>) = mmu_wf w" "mmu_wf (w\<lparr>m_plannedMove := pm\<rparr>) = mmu_wf w"
  "mmu_wf (w\<lparr>m_currentlyEngaged := ce\<rparr>) = mmu_wf w" "mmu_wf (w\<lparr>m_oob := b\<rparr>) = mmu_wf w"
  "mmu_wf (w\<lparr>m_currentCommand := c\<rparr>) = mmu_wf w" "mmu_wf (w\<lparr>m_lastCommandProcessedMs := l\<rparr>) = mmu_wf w"
  by (simp_all add: mmu_wf_def)

lemma leds_length_SetMode [simp]: "length (leds_leds (LEDs_SetMode sl col m s)) = length (leds_leds s)"
  by (simp add: LEDs_SetMode_def LEDs_SetMode_index_def)

lemma leds_length_fold:
  assumes "\<And>i s. length (leds_leds (f i s)) = length (leds_leds s)"
  shows "length (leds_leds (fold f xs s)) = length (leds_leds s)"
  using assms by (induction xs arbitrary: s) simp_all

lemma leds_length [simp]:
  "length (leds_leds (LEDs_SetAllOff s)) = length (leds_leds s)"
  "length (leds_leds (SetPairButOffOthers sl gm rm s)) = length (leds_leds s)"
  "length (leds_leds (ActiveSlotProcessing sl s)) = length (leds_leds s)"
  "length (leds_leds (ActiveSlotError sl s)) = length (leds_leds s)"
  "length (leds_leds (ActiveSlotDoneEmpty sl s)) = length (leds_leds s)"
  "length (leds_leds (ActiveSlotDonePrimed sl s)) = length (leds_leds s)"
  by (simp_all add: ActiveSlotProcessing_def ActiveSlotError_def ActiveSlotDoneEmpty_def
      ActiveSlotDonePrimed_def SetPairButOffOthers_def LEDs_SetAllOff_def leds_length_fold)

lemma Panic_wf [mmu_inv]: "mmu_wf w \<Longrightarrow> mmu_wf (Panic ec w)"
  unfolding Panic_def CommandBase_Panic_def by (rule mmu_wf_led) (simp_all add: leds_length_fold)

lemma plan_move_to_wf [mmu_inv]: "mmu_wf w \<Longrightarrow> mmu_wf (plan_move_to a pos f e w)"
proof -
  assume w: "mmu_wf w"
  obtain q m where pm: "Motion_PlanMoveTo a pos f e (m_motion w) = (q, m)" by fastforce
  with w have "mmu_wf (w\<lparr>m_motion := m\<rparr>)"
    using motion_wf_PlanMoveTo[of "m_motion w" a pos f e] by (simp add: mmu_wf_def)
  with pm show ?thesis by (simp add: plan_move_to_def Let_def Panic_wf)
qed

lemma plan_move_wf [mmu_inv]: "mmu_wf w \<Longrightarrow> mmu_wf (plan_move a d f e w)"
  by (simp add: plan_move_def plan_move_to_wf)

end
