(* ===== verification/Movables.thy ===== *)
theory Movables
  imports Machine
begin

text \<open>
  The idler, the selector and the pulley with their common base class
  (\<open>modules/movable_base.cpp\<close>, \<open>modules/idler.cpp\<close>, \<open>modules/selector.cpp\<close>,
  \<open>modules/pulley.cpp\<close>). A method of the base class takes the axis of the object; a call of a
  virtual method selects the implementation by it.
\<close>

section \<open>Base class: power and homing\<close>

definition IsOnHold :: "Axis \<Rightarrow> mmu \<Rightarrow> bool" where
  "IsOnHold a w \<longleftrightarrow> mv_state (m_movable w a) AND OnHold \<noteq> 0"

definition set_mv_state :: "Axis \<Rightarrow> u8 \<Rightarrow> mmu \<Rightarrow> mmu" where
  "set_mv_state a s = mov a (\<lambda>m. m\<lparr>mv_state := s\<rparr>)"

definition MB_InvalidateHoming :: "Axis \<Rightarrow> mmu \<Rightarrow> mmu" where
  "MB_InvalidateHoming a = mov a (\<lambda>m. m\<lparr>mv_homingValid := False\<rparr>)"

definition MB_SetCurrents :: "Axis \<Rightarrow> u8 \<Rightarrow> u8 \<Rightarrow> mmu \<Rightarrow> mmu" where
  "MB_SetCurrents a iRun iHold = mot (Motion_SetCurrents a (MotorCurrents_new iRun iHold))"

definition HoldOn :: "Axis \<Rightarrow> mmu \<Rightarrow> mmu" where
  "HoldOn a w =
     mot (Motion_Disable a) (mot (Motion_AbortPlannedMoves_axis a True)
       (mov a (\<lambda>m. m\<lparr>mv_state := mv_state m OR OnHold\<rparr>) w))"

definition Resume :: "Axis \<Rightarrow> mmu \<Rightarrow> mmu" where
  "Resume a = mov a (\<lambda>m. m\<lparr>mv_state := mv_state m AND NOT OnHold\<rparr>)"

definition AxisDistance :: "Axis \<Rightarrow> i32 \<Rightarrow> mmu \<Rightarrow> u16" where
  "AxisDistance a curPos w = u16_of_u32 (abs_i32 (curPos - mv_axisStart (m_movable w a)))"

text \<open>The current position in whole degrees or millimetres.\<close>

definition CurPosition_units :: "Axis \<Rightarrow> mmu \<Rightarrow> i32" where
  "CurPosition_units a w = axisUnitToTruncatedUnit a (Motion_CurPosition a (m_motion w)) 1"

definition HomeFailed :: "Axis \<Rightarrow> mmu \<Rightarrow> mmu" where
  "HomeFailed a w =
     set_mv_state a HomingFailed (mot (Motion_Disable a) (mov a (\<lambda>m. m\<lparr>mv_homingValid := False\<rparr>) w))"

definition CheckTMC :: "Axis \<Rightarrow> mmu \<Rightarrow> mmu" where
  "CheckTMC a w =
     (let (bad, m) = Motion_CheckForErrors a (m_motion w);
          w = w\<lparr>m_motion := m\<rparr>
      in if bad then
           let flags = tmc_errorFlags (ad_drv (mo_data m a))
           in set_mv_state a TMCFailed
                (mot (Motion_AbortPlannedMoves_axis a True) (mov a (\<lambda>v. v\<lparr>mv_tmcErrorFlags := flags\<rparr>) w))
         else w)"

section \<open>Slot positions\<close>

definition IdleSlotIndex :: u8 where "IdleSlotIndex = toolCount"

definition slot_table :: "rat list \<Rightarrow> Axis \<Rightarrow> u8 \<Rightarrow> mmu \<Rightarrow> i32 \<times> mmu" where
  "slot_table table a slot w =
     (if unat slot < length table then (unitToAxisUnit a (table ! unat slot), w)
      else (0, w\<lparr>m_oob := True\<rparr>))"

definition Idler_SlotPosition :: "u8 \<Rightarrow> mmu \<Rightarrow> i32 \<times> mmu" where
  "Idler_SlotPosition = slot_table idlerSlotPositions Idler"

definition Idler_IntermediateSlotPosition :: "u8 \<Rightarrow> mmu \<Rightarrow> i32 \<times> mmu" where
  "Idler_IntermediateSlotPosition = slot_table idlerIntermediateSlotPositions Idler"

definition Selector_SlotPosition :: "u8 \<Rightarrow> mmu \<Rightarrow> i32 \<times> mmu" where
  "Selector_SlotPosition = slot_table selectorSlotPositions Selector"

section \<open>Virtual methods of the idler and the selector\<close>

definition Idler_PrepareMoveToPlannedSlot :: "mmu \<Rightarrow> mmu" where
  "Idler_PrepareMoveToPlannedSlot w =
     (let slot = mv_plannedSlot (m_movable w Idler);
          (pos, w) = (if m_plannedMove w = engage then Idler_SlotPosition slot w
                      else Idler_IntermediateSlotPosition slot w)
      in plan_move_to Idler pos (unitToAxisUnit Idler (IdlerFeedrate_deg_s (m_globals w))) 0 w)"

definition Selector_PrepareMoveToPlannedSlot :: "mmu \<Rightarrow> mmu" where
  "Selector_PrepareMoveToPlannedSlot w =
     (let (pos, w) = Selector_SlotPosition (mv_plannedSlot (m_movable w Selector)) w
      in plan_move_to Selector pos (unitToAxisUnit Selector (SelectorFeedrate_mm_s (m_globals w))) 0 w)"

fun PrepareMoveToPlannedSlot :: "Axis \<Rightarrow> mmu \<Rightarrow> mmu" where
  "PrepareMoveToPlannedSlot Idler w = Idler_PrepareMoveToPlannedSlot w"
| "PrepareMoveToPlannedSlot Selector w = Selector_PrepareMoveToPlannedSlot w"
| "PrepareMoveToPlannedSlot Pulley w = w"

definition set_axis_start :: "Axis \<Rightarrow> mmu \<Rightarrow> mmu" where
  "set_axis_start a w = mov a (\<lambda>m. m\<lparr>mv_axisStart := CurPosition_units a w\<rparr>) w"

definition Idler_PlanHomingMoveForward :: "mmu \<Rightarrow> mmu" where
  "Idler_PlanHomingMoveForward w =
     (let w = mot (Motion_SetPosition Idler (unitToAxisUnit Idler IdlerOffsetFromHome)) w;
          w = set_axis_start Idler w
      in plan_move Idler (unitToAxisUnit Idler (al_lenght idlerLimits * 2))
           (unitToAxisUnit Idler (IdlerHomingFeedrate_deg_s (m_globals w))) 0 w)"

definition Idler_PlanHomingMoveBack :: "mmu \<Rightarrow> mmu" where
  "Idler_PlanHomingMoveBack w =
     (let w = mot (Motion_SetPosition Idler (unitToAxisUnit Idler (al_lenght idlerLimits))) w;
          w = set_axis_start Idler w
      in plan_move Idler (unitToAxisUnit Idler (- al_lenght idlerLimits * 2))
           (unitToAxisUnit Idler (IdlerHomingFeedrate_deg_s (m_globals w))) 0 w)"

definition Selector_PlanHomingMoveForward :: "mmu \<Rightarrow> mmu" where
  "Selector_PlanHomingMoveForward = set_mv_state Selector PlannedHome"

definition Selector_PlanHomingMoveBack :: "mmu \<Rightarrow> mmu" where
  "Selector_PlanHomingMoveBack w =
     (let w = mot (Motion_SetPosition Selector 0) w;
          w = set_axis_start Selector w
      in plan_move Selector (unitToAxisUnit Selector (al_lenght selectorLimits * 2))
           (unitToAxisUnit Selector (SelectorHomingFeedrate_mm_s (m_globals w))) 0 w)"

fun PlanHomingMoveForward :: "Axis \<Rightarrow> mmu \<Rightarrow> mmu" where
  "PlanHomingMoveForward Idler w = Idler_PlanHomingMoveForward w"
| "PlanHomingMoveForward Selector w = Selector_PlanHomingMoveForward w"
| "PlanHomingMoveForward Pulley w = w"

fun PlanHomingMoveBack :: "Axis \<Rightarrow> mmu \<Rightarrow> mmu" where
  "PlanHomingMoveBack Idler w = Idler_PlanHomingMoveBack w"
| "PlanHomingMoveBack Selector w = Selector_PlanHomingMoveBack w"
| "PlanHomingMoveBack Pulley w = w"

definition Disengaged :: "mmu \<Rightarrow> bool" where "Disengaged w \<longleftrightarrow> m_currentlyEngaged w = disengage"
definition Engaged :: "mmu \<Rightarrow> bool" where "Engaged w \<longleftrightarrow> m_currentlyEngaged w = engage"
definition PartiallyDisengaged :: "mmu \<Rightarrow> bool" where
  "PartiallyDisengaged w \<longleftrightarrow> m_currentlyEngaged w = intermediate"

definition Idler_FinishMove :: "mmu \<Rightarrow> mmu" where
  "Idler_FinishMove w =
     (let w = w\<lparr>m_currentlyEngaged := m_plannedMove w\<rparr>;
          c = ad_currents (mo_data (m_motion w) Idler)
      in if Disengaged w then MB_SetCurrents Idler (mc_iRun c) (mc_iHold c) w
         else if Engaged w then MB_SetCurrents Idler (mc_iRun c) (mc_iRun c) w
         else w)"

definition Selector_FinishMove :: "mmu \<Rightarrow> mmu" where
  "Selector_FinishMove = mot (Motion_Disable Selector)"

fun FinishMove :: "Axis \<Rightarrow> mmu \<Rightarrow> mmu" where
  "FinishMove Idler w = Idler_FinishMove w"
| "FinishMove Selector w = Selector_FinishMove w"
| "FinishMove Pulley w = w"

fun StallGuardAllowed :: "Axis \<Rightarrow> bool \<Rightarrow> mmu \<Rightarrow> bool" where
  "StallGuardAllowed Idler forward w \<longleftrightarrow>
     AxisDistance Idler (CurPosition_units Idler w) w > (if forward then 200 else 180)"
| "StallGuardAllowed Selector forward w \<longleftrightarrow> True"
| "StallGuardAllowed Pulley forward w \<longleftrightarrow> True"

section \<open>Base class: movement\<close>

definition InitMovementNoReinitAxis :: "Axis \<Rightarrow> mmu \<Rightarrow> OperationResult \<times> mmu" where
  "InitMovementNoReinitAxis a w =
     (let c = ad_currents (mo_data (m_motion w) a);
          w = MB_SetCurrents a (mc_iRun c) (mc_iHold c) w;
          w = PrepareMoveToPlannedSlot a w
      in (Accepted, set_mv_state a Moving w))"

definition InitMovement :: "Axis \<Rightarrow> mmu \<Rightarrow> OperationResult \<times> mmu" where
  "InitMovement a w =
     (let (ok, m) = InitAxis a (m_motion w);
          w = w\<lparr>m_motion := m\<rparr>
      in if ok then InitMovementNoReinitAxis a w else (Failed, set_mv_state a TMCFailed w))"

definition PlanHome :: "Axis \<Rightarrow> mmu \<Rightarrow> OperationResult \<times> mmu" where
  "PlanHome a w =
     (let w = MB_InvalidateHoming a w in
      if IsOnHold a w then (Refused, w)
      else
        let w = mot (PlanStallGuardThreshold a (StallGuardThreshold (m_eeprom w) a)) w;
            w = mot (\<lambda>m. snd (InitAxis a m)) w;
            w = mot (Motion_SetMode a Normal) w;
            w = mot (StallGuardReset a) w;
            w = set_mv_state a HomeForward w;
            w = mov a (\<lambda>m. m\<lparr>mv_currentSlot := -1\<rparr>) w
        in (Accepted, PlanHomingMoveForward a w))"

definition PerformMove :: "Axis \<Rightarrow> mmu \<Rightarrow> mmu" where
  "PerformMove a w =
     (if Motion_QueueEmpty_axis a (m_motion w) then
        let w = mov a (\<lambda>m. m\<lparr>mv_currentSlot := mv_plannedSlot m\<rparr>) w
        in set_mv_state a Ready (FinishMove a w)
      else w)"

definition PerformHomeForward :: "Axis \<Rightarrow> mmu \<Rightarrow> mmu" where
  "PerformHomeForward a w =
     (if StallGuard a (m_motion w) then
        let w = mot (StallGuardReset a) w in
        if StallGuardAllowed a True w then
          let w = mot (Motion_AbortPlannedMoves_axis a True) w;
              w = PlanHomingMoveBack a w
          in set_mv_state a HomeBack w
        else w
      else if Motion_QueueEmpty_axis a (m_motion w) then HomeFailed a w
      else w)"

definition Idler_FinishHomingAndPlanMoveToParkPos :: "mmu \<Rightarrow> bool \<times> mmu" where
  "Idler_FinishHomingAndPlanMoveToParkPos w =
     (if AxisDistance Idler (CurPosition_units Idler w) w < u16_of_unit (al_lenght idlerLimits - 10)
      then (False, w)
      else
        let w = mot (Motion_SetPosition Idler 0) w;
            w = (if m_plannedMove w = disengage
                 then mov Idler (\<lambda>m. m\<lparr>mv_plannedSlot := IdleSlotIndex\<rparr>) w else w)
        in (True, snd (InitMovement Idler w)))"

definition Selector_FinishHomingAndPlanMoveToParkPos :: "mmu \<Rightarrow> bool \<times> mmu" where
  "Selector_FinishHomingAndPlanMoveToParkPos w =
     (if AxisDistance Selector (CurPosition_units Selector w) w < u16_of_unit (al_lenght selectorLimits - 3)
      then (False, w)
      else
        let w = mot (Motion_SetPosition Selector (unitToAxisUnit Selector (al_lenght selectorLimits))) w;
            w = mov Selector (\<lambda>m. m\<lparr>mv_currentSlot := -1\<rparr>) w;
            w = (if mv_plannedSlot (m_movable w Selector) > toolCount
                 then mov Selector (\<lambda>m. m\<lparr>mv_plannedSlot := IdleSlotIndex\<rparr>) w else w)
        in (True, snd (InitMovement Selector w)))"

fun FinishHomingAndPlanMoveToParkPos :: "Axis \<Rightarrow> mmu \<Rightarrow> bool \<times> mmu" where
  "FinishHomingAndPlanMoveToParkPos Idler w = Idler_FinishHomingAndPlanMoveToParkPos w"
| "FinishHomingAndPlanMoveToParkPos Selector w = Selector_FinishHomingAndPlanMoveToParkPos w"
| "FinishHomingAndPlanMoveToParkPos Pulley w = (True, w)"

definition PerformHomeBack :: "Axis \<Rightarrow> mmu \<Rightarrow> mmu" where
  "PerformHomeBack a w =
     (if StallGuard a (m_motion w) then
        let w = mot (StallGuardReset a) w in
        if StallGuardAllowed a False w then
          let w = mot (Motion_AbortPlannedMoves_axis a True) w;
              w = mot (Motion_SetMode a (if g_stealthMode (m_globals w) then Stealth else Normal)) w;
              (ok, w) = FinishHomingAndPlanMoveToParkPos a w
          in if \<not> ok then HomeFailed a w else mov a (\<lambda>m. m\<lparr>mv_homingValid := True\<rparr>) w
        else w
      else if Motion_QueueEmpty_axis a (m_motion w) then HomeFailed a w
      else w)"

section \<open>The idler\<close>

definition Idler_PlanMoveInner :: "u8 \<Rightarrow> Operation \<Rightarrow> mmu \<Rightarrow> OperationResult \<times> mmu" where
  "Idler_PlanMoveInner slot plannedOp w =
     (if mv_state (m_movable w Idler) = Moving \<or> IsOnHold Idler w then (Refused, w)
      else
        let w = (mov Idler (\<lambda>m. m\<lparr>mv_plannedSlot := slot\<rparr>) w)\<lparr>m_plannedMove := plannedOp\<rparr>
        in if mv_state (m_movable w Idler) = HomeBack then (Accepted, w)
           else if \<not> mv_homingValid (m_movable w Idler) then (Accepted, snd (PlanHome Idler w))
           else if m_currentlyEngaged w = m_plannedMove w
             \<and> mv_currentSlot (m_movable w Idler) = mv_plannedSlot (m_movable w Idler)
           then (Accepted, w)
           else InitMovementNoReinitAxis Idler w)"

definition Idler_Disengage :: "mmu \<Rightarrow> OperationResult \<times> mmu" where
  "Idler_Disengage = Idler_PlanMoveInner IdleSlotIndex disengage"

definition Idler_PartiallyDisengage :: "u8 \<Rightarrow> mmu \<Rightarrow> OperationResult \<times> mmu" where
  "Idler_PartiallyDisengage slot = Idler_PlanMoveInner slot intermediate"

definition Idler_Engage :: "u8 \<Rightarrow> mmu \<Rightarrow> OperationResult \<times> mmu" where
  "Idler_Engage slot = Idler_PlanMoveInner slot engage"

definition Idler_Step :: "mmu \<Rightarrow> bool \<times> mmu" where
  "Idler_Step w =
     (if IsOnHold Idler w then (True, w)
      else
        let w = (if mv_state (m_movable w Idler) \<noteq> TMCFailed then CheckTMC Idler w else w);
            st = mv_state (m_movable w Idler)
        in if st = Moving then (False, PerformMove Idler w)
           else if st = HomeForward then (False, PerformHomeForward Idler w)
           else if st = HomeBack then (False, PerformHomeBack Idler w)
           else if st = Ready then
             if \<not> mv_homingValid (m_movable w Idler) \<and> filament_loaded w < InFSensor
             then (False, snd (PlanHome Idler w)) else (True, w)
           else (True, w))"

definition Idler_Init :: "mmu \<Rightarrow> mmu" where
  "Idler_Init w =
     (if filament_loaded w < InFSensor then snd (PlanHome Idler w)
      else
        let (pos, w) = Idler_SlotPosition IdleSlotIndex w
        in MB_InvalidateHoming Idler (mot (Motion_SetPosition Idler pos) w))"

section \<open>The selector\<close>

definition Selector_MoveToSlot :: "u8 \<Rightarrow> mmu \<Rightarrow> OperationResult \<times> mmu" where
  "Selector_MoveToSlot slot w =
     (if mv_state (m_movable w Selector) = Moving then (Refused, w)
      else
        let w = mov Selector (\<lambda>m. m\<lparr>mv_plannedSlot := slot\<rparr>) w;
            s = m_movable w Selector
        in if mv_state s = HomeBack then (Accepted, w)
           else if mv_currentSlot s = slot \<and> mv_homingValid s then (Accepted, w)
           else if finda_pressed w then (Refused, w)
           else if \<not> mv_homingValid s \<and> filament_loaded w < InSelector
           then (Accepted, snd (PlanHome Selector w))
           else InitMovementNoReinitAxis Selector w)"

definition Selector_Step :: "mmu \<Rightarrow> bool \<times> mmu" where
  "Selector_Step w =
     (if IsOnHold Selector w then (True, w)
      else
        let w = (if mv_state (m_movable w Selector) \<noteq> TMCFailed then CheckTMC Selector w else w);
            st = mv_state (m_movable w Selector)
        in if st = Moving then (False, PerformMove Selector w)
           else if st = PlannedHome then
             (False,
              if mv_homingValid (m_movable w Idler) then
                let w = set_mv_state Selector HomeForward w
                in plan_move Selector (unitToAxisUnit Selector (- al_lenght selectorLimits * 2))
                     (unitToAxisUnit Selector (SelectorHomingFeedrate_mm_s (m_globals w))) 0 w
              else w)
           else if st = HomeForward then (False, PerformHomeForward Selector w)
           else if st = HomeBack then (False, PerformHomeBack Selector w)
           else if st = Ready then
             if \<not> mv_homingValid (m_movable w Selector) \<and> filament_loaded w < InSelector
               \<and> \<not> finda_pressed w
             then (False, snd (PlanHome Selector w)) else (True, w)
           else (True, w))"

definition Selector_Init :: "mmu \<Rightarrow> mmu" where
  "Selector_Init w =
     (if filament_loaded w < InSelector \<and> \<not> finda_pressed w then snd (PlanHome Selector w)
      else
        let (pos, w) = Selector_SlotPosition (active_slot w) w
        in MB_InvalidateHoming Selector (mot (Motion_SetPosition Selector pos) w))"

section \<open>The pulley\<close>

definition Pulley_Step :: "mmu \<Rightarrow> bool \<times> mmu" where
  "Pulley_Step w =
     (if IsOnHold Pulley w then (True, w)
      else
        let w = (if mv_state (m_movable w Pulley) \<noteq> TMCFailed then CheckTMC Pulley w else w);
            st = mv_state (m_movable w Pulley)
        in if st = Moving then (False, PerformMove Pulley w) else (True, w))"

text \<open>Distances and rates in millimetres, as the callers give them.\<close>

definition Pulley_PlanMove :: "rat \<Rightarrow> rat \<Rightarrow> rat \<Rightarrow> mmu \<Rightarrow> mmu" where
  "Pulley_PlanMove delta feed_rate end_rate w =
     set_mv_state Pulley Moving
       (plan_move Pulley (unitToAxisUnit Pulley delta) (unitToAxisUnit Pulley feed_rate)
          (unitToAxisUnit Pulley end_rate) w)"

definition Pulley_CurrentPosition_mm :: "mmu \<Rightarrow> i32" where
  "Pulley_CurrentPosition_mm w = CurPosition_units Pulley w"

definition Pulley_InitAxis :: "mmu \<Rightarrow> mmu" where
  "Pulley_InitAxis = mot (\<lambda>m. snd (InitAxis Pulley m))"

definition Pulley_Disable :: "mmu \<Rightarrow> mmu" where
  "Pulley_Disable w = set_mv_state Pulley Ready (mot (Motion_Disable Pulley) w)"

section \<open>The invariant\<close>

lemma axis_hold [simp]:
  "(Ready :: u8) AND NOT OnHold = Ready" "Moving AND NOT OnHold = Moving"
  "PlannedHome AND NOT OnHold = PlannedHome" "HomeForward AND NOT OnHold = HomeForward"
  "HomeBack AND NOT OnHold = HomeBack" "TMCFailed AND NOT OnHold = TMCFailed"
  "HomingFailed AND NOT OnHold = HomingFailed"
  by (simp_all add: movable_states)

lemma hold_absorb [simp]: "(s OR OnHold) AND NOT OnHold = s AND NOT OnHold"
  "(s AND NOT OnHold) AND NOT OnHold = s AND NOT OnHold"
  by (rule bit_word_eqI; simp add: bit_simps; blast)+

lemma mv_wf_state:
  assumes "mv_wf a m" "s \<in> {Ready, Moving, TMCFailed} \<or> (\<not> mv_homingValid m \<and> a \<noteq> Pulley \<and>
      s \<in> {HomeForward, HomeBack, HomingFailed}) \<or> (\<not> mv_homingValid m \<and> a = Selector \<and> s = PlannedHome)"
  shows "mv_wf a (m\<lparr>mv_state := s\<rparr>)"
proof -
  from assms(2) consider "s = Ready" | "s = Moving" | "s = TMCFailed"
    | "s = HomeForward" "\<not> mv_homingValid m" "a \<noteq> Pulley" | "s = HomeBack" "\<not> mv_homingValid m" "a \<noteq> Pulley"
    | "s = HomingFailed" "\<not> mv_homingValid m" "a \<noteq> Pulley"
    | "s = PlannedHome" "\<not> mv_homingValid m" "a = Selector" by blast
  then show ?thesis
    by cases (simp_all add: mv_wf_def Let_def homing_states_def movable_states)
qed

lemma mv_wf_same:
  "mv_wf a (m\<lparr>mv_plannedSlot := x\<rparr>) = mv_wf a m" "mv_wf a (m\<lparr>mv_currentSlot := x\<rparr>) = mv_wf a m"
  "mv_wf a (m\<lparr>mv_axisStart := y\<rparr>) = mv_wf a m" "mv_wf a (m\<lparr>mv_tmcErrorFlags := fl\<rparr>) = mv_wf a m"
  "mv_wf a m \<Longrightarrow> mv_wf a (m\<lparr>mv_homingValid := False\<rparr>)"
  "mv_wf a m \<Longrightarrow> a \<noteq> Pulley \<Longrightarrow> mv_wf a (m\<lparr>mv_state := mv_state m OR OnHold\<rparr>)"
  "mv_wf a m \<Longrightarrow> a \<noteq> Pulley \<Longrightarrow> mv_wf a (m\<lparr>mv_state := mv_state m AND NOT OnHold\<rparr>)"
  by (simp_all add: mv_wf_def Let_def)

lemma set_mv_state_frame [simp]:
  "m_motion (set_mv_state a s w) = m_motion w"
  "m_movable (set_mv_state a s w) = (m_movable w)(a := (m_movable w a)\<lparr>mv_state := s\<rparr>)"
  "m_globals (set_mv_state a s w) = m_globals w" "m_finda (set_mv_state a s w) = m_finda w"
  "m_plannedMove (set_mv_state a s w) = m_plannedMove w"
  "m_currentlyEngaged (set_mv_state a s w) = m_currentlyEngaged w"
  "m_base (set_mv_state a s w) = m_base w" "m_userInput (set_mv_state a s w) = m_userInput w"
  "m_leds (set_mv_state a s w) = m_leds w" "m_eeprom (set_mv_state a s w) = m_eeprom w"
  "m_fsensor (set_mv_state a s w) = m_fsensor w" "m_ms (set_mv_state a s w) = m_ms w"
  by (simp_all add: set_mv_state_def)

lemma set_mv_state_wf:
  assumes "mmu_wf w" "s \<in> {Ready, Moving, TMCFailed} \<or> (\<not> mv_homingValid (m_movable w a) \<and> a \<noteq> Pulley \<and>
      s \<in> {HomeForward, HomeBack, HomingFailed})
    \<or> (\<not> mv_homingValid (m_movable w a) \<and> a = Selector \<and> s = PlannedHome)"
  shows "mmu_wf (set_mv_state a s w)"
  unfolding set_mv_state_def using assms(1)
  by (rule mmu_wf_mov) (use assms in \<open>auto simp: mmu_wf_def intro!: mv_wf_state\<close>)

lemma movable_wf: "mmu_wf w \<Longrightarrow> mv_wf a (m_movable w a)"
  by (simp add: mmu_wf_def)

lemmas movable_wf_intros = mmu_wf_mot mmu_wf_mov movable_wf mv_wf_same set_mv_state_wf mmu_inv

lemma simple_movable_ops_wf [mmu_inv]:
  assumes "mmu_wf w"
  shows "mmu_wf (MB_InvalidateHoming a w)" "mmu_wf (MB_SetCurrents a i h w)"
    "mmu_wf (set_axis_start a w)" "a \<noteq> Pulley \<Longrightarrow> mmu_wf (HoldOn a w)"
    "a \<noteq> Pulley \<Longrightarrow> mmu_wf (Resume a w)" "mmu_wf (snd (slot_table tab a sl w))"
proof -
  show "mmu_wf (MB_InvalidateHoming a w)" unfolding MB_InvalidateHoming_def
    using assms by (intro movable_wf_intros)
  show "mmu_wf (MB_SetCurrents a i h w)" unfolding MB_SetCurrents_def
    using assms by (intro movable_wf_intros)
  show "mmu_wf (set_axis_start a w)" unfolding set_axis_start_def
    using assms by (intro mmu_wf_mov) (simp_all add: mv_wf_same movable_wf)
  show "mmu_wf (HoldOn a w)" if "a \<noteq> Pulley" unfolding HoldOn_def
    using assms that by (intro mmu_wf_mot mmu_wf_mov mmu_inv) (simp_all add: mv_wf_same movable_wf)
  show "mmu_wf (Resume a w)" if "a \<noteq> Pulley" unfolding Resume_def
    using assms that by (intro mmu_wf_mov) (simp_all add: mv_wf_same movable_wf)
  show "mmu_wf (snd (slot_table tab a sl w))"
    using assms by (simp add: slot_table_def)
qed

lemma CheckTMC_wf [mmu_inv]: "mmu_wf w \<Longrightarrow> mmu_wf (CheckTMC a w)"
proof -
  assume w: "mmu_wf w"
  obtain bad m where c: "Motion_CheckForErrors a (m_motion w) = (bad, m)" by fastforce
  have m: "motion_wf m" using w motion_wf_frames(10)[of "m_motion w" a] by (simp add: c mmu_wf_def)
  then have "mmu_wf (w\<lparr>m_motion := m\<rparr>)" using w by (rule mmu_wf_motion[rotated])
  then show ?thesis unfolding CheckTMC_def Let_def c
    by (auto intro!: set_mv_state_wf mmu_wf_mot mmu_wf_mov motion_wf_Abort_axis
        simp: mv_wf_same movable_wf[OF w])
qed

text \<open>Planning a move changes the planner, or, in a panic, the current command and the LEDs.\<close>

lemma Panic_frame [simp]:
  "m_motion (Panic ec w) = m_motion w" "m_movable (Panic ec w) = m_movable w"
  "m_globals (Panic ec w) = m_globals w" "m_finda (Panic ec w) = m_finda w"
  "m_fsensor (Panic ec w) = m_fsensor w" "m_userInput (Panic ec w) = m_userInput w"
  "m_eeprom (Panic ec w) = m_eeprom w" "m_ms (Panic ec w) = m_ms w"
  "m_plannedMove (Panic ec w) = m_plannedMove w" "m_currentlyEngaged (Panic ec w) = m_currentlyEngaged w"
  by (simp_all add: Panic_def CommandBase_Panic_def)

lemma plan_move_to_frame [simp]:
  "m_movable (plan_move_to a pos f e w) = m_movable w"
  "m_globals (plan_move_to a pos f e w) = m_globals w" "m_finda (plan_move_to a pos f e w) = m_finda w"
  "m_fsensor (plan_move_to a pos f e w) = m_fsensor w"
  "m_userInput (plan_move_to a pos f e w) = m_userInput w"
  "m_eeprom (plan_move_to a pos f e w) = m_eeprom w" "m_ms (plan_move_to a pos f e w) = m_ms w"
  "m_plannedMove (plan_move_to a pos f e w) = m_plannedMove w"
  "m_currentlyEngaged (plan_move_to a pos f e w) = m_currentlyEngaged w"
  by (simp_all add: plan_move_to_def Let_def split: prod.split)

lemma plan_move_frame [simp]:
  "m_movable (plan_move a d f e w) = m_movable w"
  "m_globals (plan_move a d f e w) = m_globals w" "m_finda (plan_move a d f e w) = m_finda w"
  "m_fsensor (plan_move a d f e w) = m_fsensor w" "m_userInput (plan_move a d f e w) = m_userInput w"
  "m_eeprom (plan_move a d f e w) = m_eeprom w" "m_ms (plan_move a d f e w) = m_ms w"
  "m_plannedMove (plan_move a d f e w) = m_plannedMove w"
  "m_currentlyEngaged (plan_move a d f e w) = m_currentlyEngaged w"
  by (simp_all add: plan_move_def)

lemma slot_table_frame [simp]:
  "m_movable (snd (slot_table tab a sl w)) = m_movable w"
  "m_motion (snd (slot_table tab a sl w)) = m_motion w"
  by (simp_all add: slot_table_def)

lemma PrepareMove_frame [simp]: "m_movable (PrepareMoveToPlannedSlot a w) = m_movable w"
  by (cases a) (simp_all add: Idler_PrepareMoveToPlannedSlot_def Selector_PrepareMoveToPlannedSlot_def
      Idler_SlotPosition_def Idler_IntermediateSlotPosition_def Selector_SlotPosition_def
      Let_def slot_table_def)

lemma PrepareMove_wf [mmu_inv]: "mmu_wf w \<Longrightarrow> mmu_wf (PrepareMoveToPlannedSlot a w)"
  by (cases a) (auto simp: Idler_PrepareMoveToPlannedSlot_def Selector_PrepareMoveToPlannedSlot_def
      Idler_SlotPosition_def Idler_IntermediateSlotPosition_def Selector_SlotPosition_def
      Let_def slot_table_def intro: plan_move_to_wf)

lemma InitMovementNoReinitAxis_wf [mmu_inv]:
  "mmu_wf w \<Longrightarrow> mmu_wf (snd (InitMovementNoReinitAxis a w))"
  unfolding InitMovementNoReinitAxis_def Let_def
  by (simp, intro set_mv_state_wf PrepareMove_wf simple_movable_ops_wf) simp_all

lemma InitMovementNoReinitAxis_movable [simp]:
  "fst (InitMovementNoReinitAxis a w) = Accepted"
  "m_movable (snd (InitMovementNoReinitAxis a w)) = (m_movable w)(a := (m_movable w a)\<lparr>mv_state := Moving\<rparr>)"
  by (simp_all add: InitMovementNoReinitAxis_def Let_def MB_SetCurrents_def)

lemma InitMovement_wf [mmu_inv]: "mmu_wf w \<Longrightarrow> mmu_wf (snd (InitMovement a w))"
proof -
  assume w: "mmu_wf w"
  obtain ok m where i: "InitAxis a (m_motion w) = (ok, m)" by fastforce
  then have "motion_wf m" using w motion_wf_frames(4)[of "m_motion w" a] by (simp add: mmu_wf_def)
  then have m: "mmu_wf (w\<lparr>m_motion := m\<rparr>)" using w by (rule mmu_wf_motion[rotated])
  then show ?thesis unfolding InitMovement_def Let_def i
    by (auto intro: InitMovementNoReinitAxis_wf set_mv_state_wf)
qed

lemma InitMovement_movable:
  obtains s where "s \<in> {Moving, TMCFailed}"
    "m_movable (snd (InitMovement a w)) = (m_movable w)(a := (m_movable w a)\<lparr>mv_state := s\<rparr>)"
proof -
  obtain ok m where i: "InitAxis a (m_motion w) = (ok, m)" by fastforce
  have "m_movable (snd (InitMovement a w)) =
      (m_movable w)(a := (m_movable w a)\<lparr>mv_state := (if ok then Moving else TMCFailed)\<rparr>)"
    by (simp add: InitMovement_def Let_def i)
  then show thesis by (intro that[of "if ok then Moving else TMCFailed"]) auto
qed

lemma PlanHomingMove_wf [mmu_inv]:
  assumes "mmu_wf w"
  shows "mmu_wf (PlanHomingMoveBack a w)"
    "\<not> mv_homingValid (m_movable w a) \<Longrightarrow> mmu_wf (PlanHomingMoveForward a w)"
  using assms
  by (cases a; auto simp: Idler_PlanHomingMoveForward_def Idler_PlanHomingMoveBack_def Let_def
      Selector_PlanHomingMoveForward_def Selector_PlanHomingMoveBack_def
      intro!: plan_move_wf simple_movable_ops_wf mmu_wf_mot motion_wf_SetPosition set_mv_state_wf)+

lemma PlanHomingMove_homing [simp]:
  "mv_homingValid (m_movable (PlanHomingMoveBack a w) b) = mv_homingValid (m_movable w b)"
  "mv_homingValid (m_movable (PlanHomingMoveForward a w) b) = mv_homingValid (m_movable w b)"
  by (cases a; simp add: Idler_PlanHomingMoveForward_def Idler_PlanHomingMoveBack_def Let_def
      Selector_PlanHomingMoveForward_def Selector_PlanHomingMoveBack_def set_axis_start_def)+

lemma PlanHome_wf [mmu_inv]: "mmu_wf w \<Longrightarrow> a \<noteq> Pulley \<Longrightarrow> mmu_wf (snd (PlanHome a w))"
  unfolding PlanHome_def Let_def
  by (auto simp: MB_InvalidateHoming_def mv_wf_same movable_wf
      intro!: PlanHomingMove_wf set_mv_state_wf mmu_wf_mot mmu_wf_mov motion_wf_frames mv_wf_state)

lemma HomeFailed_wf [mmu_inv]: "mmu_wf w \<Longrightarrow> a \<noteq> Pulley \<Longrightarrow> mmu_wf (HomeFailed a w)"
  unfolding HomeFailed_def
  by (intro set_mv_state_wf mmu_wf_mot mmu_wf_mov motion_wf_frames) (simp_all add: mv_wf_same movable_wf)

lemma FinishMove_wf [mmu_inv]: "mmu_wf w \<Longrightarrow> mmu_wf (FinishMove a w)"
  by (cases a) (auto simp: Idler_FinishMove_def Selector_FinishMove_def Let_def
      intro: simple_movable_ops_wf mmu_wf_mot motion_wf_frames)

lemma PerformMove_wf [mmu_inv]: "mmu_wf w \<Longrightarrow> mmu_wf (PerformMove a w)"
  unfolding PerformMove_def Let_def
  by (auto simp: mv_wf_same movable_wf intro!: set_mv_state_wf FinishMove_wf mmu_wf_mov)

lemma FinishHoming_frame:
  assumes "a \<noteq> Pulley" "FinishHomingAndPlanMoveToParkPos a w = (ok, w')"
  shows "mv_homingValid (m_movable w' b) = mv_homingValid (m_movable w b)"
    and "ok \<Longrightarrow> mv_state (m_movable w' a) \<in> {Moving, TMCFailed}"
    and "\<not> ok \<Longrightarrow> w' = w"
proof -
  have "mv_homingValid (m_movable (snd (InitMovement a u)) b) = mv_homingValid (m_movable u b)
      \<and> mv_state (m_movable (snd (InitMovement a u)) a) \<in> {Moving, TMCFailed}" for u
    by (rule InitMovement_movable[of a u]) auto
  then show "mv_homingValid (m_movable w' b) = mv_homingValid (m_movable w b)"
    and "ok \<Longrightarrow> mv_state (m_movable w' a) \<in> {Moving, TMCFailed}" and "\<not> ok \<Longrightarrow> w' = w"
    using assms
    by (cases a; force simp: Idler_FinishHomingAndPlanMoveToParkPos_def
        Selector_FinishHomingAndPlanMoveToParkPos_def Let_def split: if_splits)+
qed

lemma FinishHoming_wf [mmu_inv]:
  "mmu_wf w \<Longrightarrow> mmu_wf (snd (FinishHomingAndPlanMoveToParkPos a w))"
  by (cases a)
    (auto simp: Idler_FinishHomingAndPlanMoveToParkPos_def Selector_FinishHomingAndPlanMoveToParkPos_def
      Let_def mv_wf_same movable_wf intro!: InitMovement_wf mmu_wf_mot mmu_wf_mov motion_wf_SetPosition)

lemma mv_wf_homed:
  assumes "mv_wf a m" "mv_state m = Moving \<or> mv_state m = TMCFailed"
  shows "mv_wf a (m\<lparr>mv_homingValid := True\<rparr>)"
  using assms(2,1) by (elim disjE; simp add: mv_wf_def Let_def homing_states_def movable_states)

lemma PerformHomeForward_wf [mmu_inv]:
  assumes "mmu_wf w" "a \<noteq> Pulley" "\<not> mv_homingValid (m_movable w a)"
  shows "mmu_wf (PerformHomeForward a w)"
  unfolding PerformHomeForward_def Let_def using assms
  by (auto intro!: HomeFailed_wf set_mv_state_wf PlanHomingMove_wf mmu_wf_mot motion_wf_frames motion_wf_Abort_axis)

lemma PerformHomeBack_wf [mmu_inv]:
  assumes "mmu_wf w" "a \<noteq> Pulley"
  shows "mmu_wf (PerformHomeBack a w)"
proof -
  define w0 where "w0 = mot (Motion_SetMode a (if g_stealthMode (m_globals w) then Stealth else Normal))
      (mot (Motion_AbortPlannedMoves_axis a True) (mot (StallGuardReset a) w))"
  have w0: "mmu_wf w0" unfolding w0_def
    using assms(1) by (intro mmu_wf_mot motion_wf_frames motion_wf_Abort_axis)
  obtain ok w1 where f: "FinishHomingAndPlanMoveToParkPos a w0 = (ok, w1)" by fastforce
  have w1: "mmu_wf w1" using FinishHoming_wf[OF w0, of a] by (simp add: f)
  have "mmu_wf (mov a (\<lambda>m. m\<lparr>mv_homingValid := True\<rparr>) w1)" if ok
  proof (rule mmu_wf_mov[OF w1])
    have "mv_state (m_movable w1 a) \<in> {Moving, TMCFailed}" by (rule FinishHoming_frame(2)[OF assms(2) f that])
    with movable_wf[OF w1, of a] show "mv_wf a ((m_movable w1 a)\<lparr>mv_homingValid := True\<rparr>)"
      by (intro mv_wf_homed) simp_all
  qed
  then show ?thesis using assms w1 f
    by (auto simp: PerformHomeBack_def Let_def w0_def intro: HomeFailed_wf mmu_wf_mot motion_wf_frames)
qed

lemma wf_homing:
  assumes "mmu_wf w" "mv_state (m_movable w a) \<in> set homing_states"
  shows "\<not> mv_homingValid (m_movable w a) \<and> a \<noteq> Pulley"
proof -
  define m where "m = m_movable w a"
  have "mv_wf a m" using movable_wf[OF assms(1)] by (simp add: m_def)
  moreover have "mv_state m = PlannedHome \<or> mv_state m = HomeForward \<or> mv_state m = HomeBack \<or> mv_state m = HomingFailed"
    using assms(2) by (auto simp: homing_states_def m_def)
  ultimately have "\<not> mv_homingValid m \<and> a \<noteq> Pulley"
    by (elim disjE; simp add: mv_wf_def Let_def homing_states_def movable_states; blast)
  then show ?thesis by (simp add: m_def)
qed

lemma Idler_PlanMoveInner_wf [mmu_inv]: "mmu_wf w \<Longrightarrow> mmu_wf (snd (Idler_PlanMoveInner sl op w))"
  unfolding Idler_PlanMoveInner_def Let_def
  by (auto intro!: PlanHome_wf InitMovementNoReinitAxis_wf mmu_wf_mov simp: mv_wf_same movable_wf)

lemma Idler_requests_wf [mmu_inv]:
  "mmu_wf w \<Longrightarrow> mmu_wf (snd (Idler_Engage sl w))" "mmu_wf w \<Longrightarrow> mmu_wf (snd (Idler_Disengage w))"
  "mmu_wf w \<Longrightarrow> mmu_wf (snd (Idler_PartiallyDisengage sl w))"
  by (simp_all add: Idler_Engage_def Idler_Disengage_def Idler_PartiallyDisengage_def Idler_PlanMoveInner_wf)

lemma Selector_MoveToSlot_wf [mmu_inv]: "mmu_wf w \<Longrightarrow> mmu_wf (snd (Selector_MoveToSlot sl w))"
  unfolding Selector_MoveToSlot_def Let_def
  by (auto intro!: PlanHome_wf InitMovementNoReinitAxis_wf mmu_wf_mov simp: mv_wf_same movable_wf)

lemma Idler_Step_wf [mmu_inv]:
  assumes "mmu_wf w" shows "mmu_wf (snd (Idler_Step w))"
proof -
  define w1 where "w1 = (if mv_state (m_movable w Idler) \<noteq> TMCFailed then CheckTMC Idler w else w)"
  have w1: "mmu_wf w1" using assms CheckTMC_wf by (simp add: w1_def)
  have "mv_state (m_movable w1 Idler) = HomeForward \<Longrightarrow> \<not> mv_homingValid (m_movable w1 Idler)"
    using wf_homing[OF w1, of Idler] by (simp add: homing_states_def)
  with assms w1 show ?thesis
    by (auto simp: Idler_Step_def Let_def w1_def[symmetric]
        intro!: PerformMove_wf PerformHomeForward_wf PerformHomeBack_wf PlanHome_wf)
qed

lemma Selector_Step_wf [mmu_inv]:
  assumes "mmu_wf w" shows "mmu_wf (snd (Selector_Step w))"
proof -
  define w1 where "w1 = (if mv_state (m_movable w Selector) \<noteq> TMCFailed then CheckTMC Selector w else w)"
  have w1: "mmu_wf w1" using assms CheckTMC_wf by (simp add: w1_def)
  have "mv_state (m_movable w1 Selector) = HomeForward \<or> mv_state (m_movable w1 Selector) = PlannedHome
      \<Longrightarrow> \<not> mv_homingValid (m_movable w1 Selector)"
    using wf_homing[OF w1, of Selector] by (auto simp: homing_states_def)
  with assms w1 show ?thesis
    by (auto simp: Selector_Step_def Let_def w1_def[symmetric]
        intro!: PerformMove_wf PerformHomeForward_wf PerformHomeBack_wf PlanHome_wf plan_move_wf set_mv_state_wf)
qed

lemma Pulley_ops_wf [mmu_inv]:
  assumes "mmu_wf w"
  shows "mmu_wf (snd (Pulley_Step w))" "mmu_wf (Pulley_PlanMove d f e w)" "mmu_wf (Pulley_InitAxis w)"
    "mmu_wf (Pulley_Disable w)"
  using assms
  by (auto simp: Pulley_Step_def Pulley_PlanMove_def Pulley_InitAxis_def Pulley_Disable_def Let_def
      intro!: PerformMove_wf CheckTMC_wf plan_move_wf set_mv_state_wf mmu_wf_mot motion_wf_frames)

lemma Init_wf [mmu_inv]:
  assumes "mmu_wf w" shows "mmu_wf (Idler_Init w)" "mmu_wf (Selector_Init w)"
  using assms
  by (auto simp: Idler_Init_def Selector_Init_def Idler_SlotPosition_def Selector_SlotPosition_def
      slot_table_def Let_def
      intro!: PlanHome_wf simple_movable_ops_wf mmu_wf_mot motion_wf_SetPosition)

end
