(* ===== verification/Homing.thy ===== *)
theory Homing
  imports Movables
begin

text \<open>
  What the movables guarantee to the commands: homing is only valid after the length of the
  axis has been measured, the selector does not start across a pressed FINDA, a movable on hold stays
  where it is, and an accepted request of the idler ends at the requested slot.
\<close>

section \<open>Measured homing\<close>

lemma Motion_CurPosition_frames [simp]:
  "Motion_CurPosition a (Motion_SetMode b mode m) = Motion_CurPosition a m"
  "Motion_CurPosition a (StallGuardReset b m) = Motion_CurPosition a m"
  "motion_wf m \<Longrightarrow> Motion_CurPosition a (Motion_AbortPlannedMoves_axis b halt m) = Motion_CurPosition a m"
  "Motion_CurPosition a (snd (Motion_CheckForErrors b m)) = Motion_CurPosition a m"
  by (simp_all add: Motion_CurPosition_def Motion_AbortPlannedMoves_axis_def motion_wf_def
      PG_AbortPlannedMoves_spec)

lemma CheckTMC_homing [simp]:
  "mv_homingValid (m_movable (CheckTMC a w) b) = mv_homingValid (m_movable w b)"
  "mv_axisStart (m_movable (CheckTMC a w) b) = mv_axisStart (m_movable w b)"
  "m_globals (CheckTMC a w) = m_globals w" "m_finda (CheckTMC a w) = m_finda w"
  by (simp_all add: CheckTMC_def Let_def split: prod.split)

lemma CheckTMC_position:
  "mmu_wf w \<Longrightarrow> Motion_CurPosition b (m_motion (CheckTMC a w)) = Motion_CurPosition b (m_motion w)"
proof -
  assume w: "mmu_wf w"
  obtain bad m where c: "Motion_CheckForErrors a (m_motion w) = (bad, m)" by fastforce
  have "motion_wf m" "Motion_CurPosition b m = Motion_CurPosition b (m_motion w)"
    using w motion_wf_frames(10)[of "m_motion w" a] Motion_CurPosition_frames(4)[of b a "m_motion w"]
    by (simp_all add: c mmu_wf_def)
  then show ?thesis by (simp add: CheckTMC_def Let_def c)
qed

text \<open>CheckTMC leaves the state or sets it to failed.\<close>

lemma CheckTMC_state:
  "mv_state (m_movable (CheckTMC a w) a) \<noteq> TMCFailed \<Longrightarrow>
     mv_state (m_movable (CheckTMC a w) a) = mv_state (m_movable w a)"
  by (auto simp: CheckTMC_def Let_def split: prod.splits if_splits)

lemma HomeFailed_homing [simp]:
  "mv_homingValid (m_movable (HomeFailed a w) b) \<longleftrightarrow> b \<noteq> a \<and> mv_homingValid (m_movable w b)"
  by (simp add: HomeFailed_def)

lemma PlanHome_homing [simp]:
  "mv_homingValid (m_movable (snd (PlanHome a w)) b) \<longleftrightarrow> b \<noteq> a \<and> mv_homingValid (m_movable w b)"
  by (simp add: PlanHome_def MB_InvalidateHoming_def Let_def)

lemma PerformMove_homing [simp]:
  "mv_homingValid (m_movable (PerformMove a w) b) = mv_homingValid (m_movable w b)"
  by (cases a) (simp_all add: PerformMove_def Let_def Idler_FinishMove_def Selector_FinishMove_def MB_SetCurrents_def)

lemma PerformHomeForward_homing:
  "mv_homingValid (m_movable (PerformHomeForward a w) b) \<Longrightarrow> mv_homingValid (m_movable w b)"
  by (auto simp: PerformHomeForward_def Let_def split: if_splits)

text \<open>The least length the measurement must give, in whole degrees and millimetres.\<close>

fun minimal_length :: "Axis \<Rightarrow> u16" where
  "minimal_length Idler = 215" | "minimal_length Selector = 72" | "minimal_length Pulley = 0"

lemma PerformHomeBack_measured:
  assumes "mmu_wf w" "a \<noteq> Pulley" "\<not> mv_homingValid (m_movable w b)"
    "mv_homingValid (m_movable (PerformHomeBack a w) b)"
  shows "b = a \<and> StallGuard a (m_motion w) \<and> minimal_length a \<le> AxisDistance a (CurPosition_units a w) w"
proof -
  define w0 where "w0 = mot (Motion_SetMode a (if g_stealthMode (m_globals w) then Stealth else Normal))
      (mot (Motion_AbortPlannedMoves_axis a True) (mot (StallGuardReset a) w))"
  obtain ok w1 where f: "FinishHomingAndPlanMoveToParkPos a w0 = (ok, w1)" by fastforce
  have m: "motion_wf (m_motion w)" using assms(1) by (simp add: mmu_wf_def)
  have dist: "AxisDistance a (CurPosition_units a w0) w0 = AxisDistance a (CurPosition_units a w) w"
    using m by (simp add: AxisDistance_def CurPosition_units_def w0_def motion_wf_frames)
  have sg: "StallGuard a (m_motion w)" using assms(3,4)
    by (auto simp: PerformHomeBack_def split: if_splits)
  have h: "mv_homingValid (m_movable w1 b) = mv_homingValid (m_movable w b)"
    using FinishHoming_frame(1)[OF assms(2) f] by (simp add: w0_def)
  with sg assms(3,4) f have "b = a \<and> ok"
    by (cases ok) (auto simp: PerformHomeBack_def Let_def w0_def split: if_splits)
  with f have "minimal_length a \<le> AxisDistance a (CurPosition_units a w0) w0" using assms(2)
    by (cases a) (auto simp: Idler_FinishHomingAndPlanMoveToParkPos_def
        Selector_FinishHomingAndPlanMoveToParkPos_def u16_of_unit_def truncate_rat_def idlerLimits_def
        selectorLimits_def split: if_splits)
  with sg \<open>b = a \<and> ok\<close> dist show ?thesis by simp
qed

lemma requests_keep_homing:
  "mv_homingValid (m_movable (snd (Idler_PlanMoveInner sl op w)) b) \<Longrightarrow> mv_homingValid (m_movable w b)"
  "mv_homingValid (m_movable (snd (Selector_MoveToSlot sl w)) b) \<Longrightarrow> mv_homingValid (m_movable w b)"
  "mv_homingValid (m_movable (snd (Pulley_Step w)) b) \<Longrightarrow> mv_homingValid (m_movable w b)"
  by (auto simp: Idler_PlanMoveInner_def Selector_MoveToSlot_def Pulley_Step_def Let_def split: if_splits)

lemma StallGuard_CheckForErrors [simp]:
  "StallGuard a (snd (Motion_CheckForErrors b m)) = StallGuard a m"
  by (auto simp: StallGuard_def Motion_CheckForErrors_def CheckForErrors_def Stalled_def Let_def
      split: prod.splits)

lemma CheckTMC_StallGuard: "StallGuard a (m_motion (CheckTMC b w)) = StallGuard a (m_motion w)"
proof -
  obtain bad m where c: "Motion_CheckForErrors b (m_motion w) = (bad, m)" by fastforce
  then have "StallGuard a m = StallGuard a (m_motion w)"
    using StallGuard_CheckForErrors[of a b "m_motion w"] by simp
  then show ?thesis
    by (auto simp: CheckTMC_def Let_def c StallGuard_def Motion_AbortPlannedMoves_axis_def with_ctrl_def)
qed

text \<open>What a homing that became valid in a step has measured.\<close>

definition homed_by :: "Axis \<Rightarrow> mmu \<Rightarrow> bool" where
  "homed_by a w \<longleftrightarrow> mv_state (m_movable w a) = HomeBack \<and> StallGuard a (m_motion w)
     \<and> minimal_length a \<le> AxisDistance a (CurPosition_units a w) w"

lemma homed_by_CheckTMC:
  assumes "mmu_wf w" "mv_state (m_movable (CheckTMC a w) a) = HomeBack"
    "StallGuard a (m_motion (CheckTMC a w))"
    "minimal_length a \<le> AxisDistance a (CurPosition_units a (CheckTMC a w)) (CheckTMC a w)"
  shows "homed_by a w"
  using assms CheckTMC_state[of a w] CheckTMC_position[OF assms(1), of a a]
  by (simp add: homed_by_def CheckTMC_StallGuard AxisDistance_def CurPosition_units_def movable_states)

lemma homed_in_step:
  assumes "mmu_wf w" "a \<noteq> Pulley" "\<not> mv_homingValid (m_movable w b)"
  defines "w1 \<equiv> if mv_state (m_movable w a) \<noteq> TMCFailed then CheckTMC a w else w"
  assumes "mv_state (m_movable w1 a) = HomeBack" "mv_homingValid (m_movable (PerformHomeBack a w1) b)"
  shows "b = a \<and> homed_by a w"
proof -
  have w1: "mmu_wf w1" "\<not> mv_homingValid (m_movable w1 b)"
    using assms(1,3) CheckTMC_wf by (simp_all add: w1_def)
  note m = PerformHomeBack_measured[OF w1(1) assms(2) w1(2) assms(6)]
  show ?thesis
  proof (cases "mv_state (m_movable w a) = TMCFailed")
    case True
    with m assms(5) show ?thesis by (simp add: w1_def homed_by_def)
  next
    case False
    with m assms(5) homed_by_CheckTMC[OF assms(1), of a] show ?thesis by (simp add: w1_def)
  qed
qed

lemma Idler_Step_homing:
  assumes "mmu_wf w" "\<not> mv_homingValid (m_movable w b)" "mv_homingValid (m_movable (snd (Idler_Step w)) b)"
  shows "b = Idler \<and> homed_by Idler w"
proof -
  define w1 where "w1 = (if mv_state (m_movable w Idler) \<noteq> TMCFailed then CheckTMC Idler w else w)"
  have "\<not> mv_homingValid (m_movable w1 b)" using assms(2) by (simp add: w1_def)
  moreover have "snd (Idler_Step w) \<in> {w, w1, PerformMove Idler w1, PerformHomeForward Idler w1,
      snd (PlanHome Idler w1)} \<or> mv_state (m_movable w1 Idler) = HomeBack \<and> snd (Idler_Step w) = PerformHomeBack Idler w1"
    unfolding Idler_Step_def Let_def w1_def[symmetric] by (simp del: set_mv_state_frame)
  ultimately have "mv_state (m_movable w1 Idler) = HomeBack \<and> snd (Idler_Step w) = PerformHomeBack Idler w1"
    using assms(2,3) PerformHomeForward_homing[of Idler w1 b] by auto
  then show ?thesis
    using homed_in_step[OF assms(1) _ assms(2), of Idler] assms(3) by (simp add: w1_def)
qed

lemma Selector_Step_homing:
  assumes "mmu_wf w" "\<not> mv_homingValid (m_movable w b)" "mv_homingValid (m_movable (snd (Selector_Step w)) b)"
  shows "b = Selector \<and> homed_by Selector w"
proof -
  define w1 where "w1 = (if mv_state (m_movable w Selector) \<noteq> TMCFailed then CheckTMC Selector w else w)"
  have "\<not> mv_homingValid (m_movable w1 b)" using assms(2) by (simp add: w1_def)
  moreover have "snd (Selector_Step w) \<in> {w, w1, PerformMove Selector w1, PerformHomeForward Selector w1,
      plan_move Selector (unitToAxisUnit Selector (- al_lenght selectorLimits * 2))
        (unitToAxisUnit Selector (SelectorHomingFeedrate_mm_s (m_globals w1))) 0 (set_mv_state Selector HomeForward w1),
      snd (PlanHome Selector w1)} \<or> mv_state (m_movable w1 Selector) = HomeBack \<and> snd (Selector_Step w) = PerformHomeBack Selector w1"
    unfolding Selector_Step_def Let_def w1_def[symmetric] by simp
  ultimately have "mv_state (m_movable w1 Selector) = HomeBack \<and> snd (Selector_Step w) = PerformHomeBack Selector w1"
    using assms(2,3) PerformHomeForward_homing[of Selector w1 b] by (auto split: if_splits)
  then show ?thesis
    using homed_in_step[OF assms(1) _ assms(2), of Selector] assms(3) by (simp add: w1_def)
qed

section \<open>Properties\<close>


definition idle_hw :: hw where
  "idle_hw = \<lparr>hw_spi_log = [], hw_spi_slave = \<lambda>_. [], hw_shr16 = 0, hw_step = \<lambda>_. False, hw_diag = \<lambda>_. False\<rparr>"

definition blank_eeprom :: eeprom where
  "blank_eeprom = \<lparr>ee_cell = \<lambda>_. 0xff, ee_worn = []\<rparr>"

text \<open>The idler at the end of its second homing move.\<close>

definition idler_homing_ends :: mmu where
  "idler_homing_ends =
     mov Idler (\<lambda>m. m\<lparr>mv_state := HomeBack, mv_axisStart := 225\<rparr>) (mmu_new idle_hw blank_eeprom)"

lemma idler_homing_ends_wf: "mmu_wf idler_homing_ends"
  unfolding idler_homing_ends_def
  by (rule mmu_wf_mov[OF mmu_wf_new])
    (simp add: mv_wf_def Let_def mmu_new_def Movable_new_def homing_states_def movable_states)

lemma idler_homing_ends_step: "mv_homingValid (m_movable (snd (Idler_Step idler_homing_ends)) Idler)"
  by code_simp


subsection \<open>Hold\<close>

lemma hold_not_pulley: "mmu_wf w \<Longrightarrow> IsOnHold a w \<Longrightarrow> a \<noteq> Pulley"
proof (rule ccontr)
  assume w: "mmu_wf w" "IsOnHold a w" "\<not> a \<noteq> Pulley"
  then have "mv_state (m_movable w Pulley) \<in> {Ready, Moving, TMCFailed}"
    using movable_wf[of w Pulley] by (simp add: mv_wf_def Let_def)
  with w(2,3) show False by (auto simp: IsOnHold_def movable_states)
qed

lemma OnHold_nonzero [simp]: "OnHold \<noteq> 0"
  by (simp add: OnHold_def)

text \<open>A movable on hold stays where it is. Putting the idler or the selector on hold empties its
  queue at the position it has reached and switches the motor off; while it is on hold its step does
  nothing, a homing request is refused without planning, and every request to the idler is refused and
  changes nothing.\<close>

theorem hold_keeps_position:
  assumes "mmu_wf w" "a \<noteq> Pulley"
  defines "w' \<equiv> HoldOn a w"
  shows "IsOnHold a w' \<and> Motion_QueueEmpty_axis a (m_motion w') \<and> \<not> Motion_Enabled a (m_motion w')
    \<and> Motion_CurPosition a (m_motion w') = Motion_CurPosition a (m_motion w)
    \<and> fst (PlanHome a w') = Refused \<and> m_motion (snd (PlanHome a w')) = m_motion w'
    \<and> (a = Idler \<longrightarrow> Idler_Step w' = (True, w') \<and> Idler_PlanMoveInner sl op w' = (Refused, w'))
    \<and> (a = Selector \<longrightarrow> Selector_Step w' = (True, w'))"
proof -
  have hold: "IsOnHold a w'" by (simp add: w'_def HoldOn_def IsOnHold_def)
  have "motion_wf (m_motion w)" using assms(1) by (simp add: mmu_wf_def)
  then have "Motion_QueueEmpty_axis a (m_motion w') \<and> \<not> Motion_Enabled a (m_motion w')
      \<and> Motion_CurPosition a (m_motion w') = Motion_CurPosition a (m_motion w)"
    by (simp add: w'_def HoldOn_def Motion_QueueEmpty_axis_def Motion_CurPosition_def
        Motion_AbortPlannedMoves_axis_def motion_wf_def PG_AbortPlannedMoves_spec Motion_Enabled_def
        Motion_Disable_def Motion_SetEnabled_def Let_def)
  moreover have "IsOnHold a (MB_InvalidateHoming a w')"
    using hold by (simp add: IsOnHold_def MB_InvalidateHoming_def)
  then have "fst (PlanHome a w') = Refused \<and> m_motion (snd (PlanHome a w')) = m_motion w'"
    by (simp add: PlanHome_def Let_def) (simp add: MB_InvalidateHoming_def)
  moreover have "a = Idler \<longrightarrow> Idler_Step w' = (True, w') \<and> Idler_PlanMoveInner sl op w' = (Refused, w')"
    using hold by (auto simp: Idler_Step_def Idler_PlanMoveInner_def)
  moreover have "a = Selector \<longrightarrow> Selector_Step w' = (True, w')"
    using hold by (auto simp: Selector_Step_def)
  ultimately show ?thesis using hold by blast
qed

theorem hold_keeps_position_witness:
  "IsOnHold Idler (HoldOn Idler idler_homing_ends)
   \<and> Idler_Step (HoldOn Idler idler_homing_ends) = (True, HoldOn Idler idler_homing_ends)"
  using hold_keeps_position[OF idler_homing_ends_wf, of Idler] by simp

text \<open>The hold does not bind the selector's own request. A selector on hold that is homed, stands
  elsewhere and is not blocked by the FINDA accepts a new slot, plans the move and drops the hold bit; the
  header of the class says such attempts are rejected.\<close>

theorem selector_request_drops_hold:
  assumes "IsOnHold Selector w" "mv_homingValid (m_movable w Selector)" "\<not> finda_pressed w"
    "mv_currentSlot (m_movable w Selector) \<noteq> slot"
  shows "fst (Selector_MoveToSlot slot w) = Accepted
    \<and> mv_state (m_movable (snd (Selector_MoveToSlot slot w)) Selector) = Moving
    \<and> \<not> IsOnHold Selector (snd (Selector_MoveToSlot slot w))"
proof -
  have "mv_state (m_movable w Selector) \<noteq> Moving" "mv_state (m_movable w Selector) \<noteq> HomeBack"
    using assms(1) by (auto simp: IsOnHold_def movable_states)
  with assms show ?thesis
    by (simp add: Selector_MoveToSlot_def Let_def IsOnHold_def) (simp add: movable_states)
qed

definition selector_on_hold :: mmu where
  "selector_on_hold = HoldOn Selector (mov Selector (\<lambda>m. m\<lparr>mv_homingValid := True\<rparr>) (mmu_new idle_hw blank_eeprom))"

theorem selector_request_drops_hold_witness:
  "IsOnHold Selector selector_on_hold \<and> \<not> IsOnHold Selector (snd (Selector_MoveToSlot 2 selector_on_hold))"
proof -
  have "IsOnHold Selector selector_on_hold" "mv_homingValid (m_movable selector_on_hold Selector)"
    "\<not> finda_pressed selector_on_hold" "mv_currentSlot (m_movable selector_on_hold Selector) \<noteq> 2"
    by (simp_all add: selector_on_hold_def HoldOn_def IsOnHold_def mmu_new_def
        Movable_new_def FINDA_new_def Debouncer_new_def Pressed_def)
  with selector_request_drops_hold[of selector_on_hold 2] show ?thesis by simp
qed

subsection \<open>Requests\<close>


definition finda_blocks :: mmu where
  "finda_blocks = (mmu_new idle_hw blank_eeprom)\<lparr>m_finda := FINDA_new\<lparr>db_state := WaitForRelease\<rparr>\<rparr>"


text \<open>Where the idler goes for a slot.\<close>

definition idler_target :: "Operation \<Rightarrow> u8 \<Rightarrow> i32" where
  "idler_target op slot =
     unitToAxisUnit Idler ((if op = engage then idlerSlotPositions else idlerIntermediateSlotPositions) ! unat slot)"

lemma plan_move_to_room:
  assumes "mmu_wf w" "\<not> PG_Full (ctrl (m_motion w) a)"
  shows "pg_position (ctrl (m_motion (plan_move_to a pos f e w)) a) = pos
    \<and> Motion_CurPosition a (m_motion (plan_move_to a pos f e w)) = Motion_CurPosition a (m_motion w)
    \<and> plan_move_to a pos f e w = w\<lparr>m_motion := snd (Motion_PlanMoveTo a pos f e (m_motion w))\<rparr>"
proof -
  obtain ok c where p: "PG_PlanMoveTo pos f e (ctrl (m_motion w) a) = (ok, c)" by fastforce
  have "ok \<and> pg_position c = pos \<and> PG_CurPosition c = PG_CurPosition (ctrl (m_motion w) a)"
    using PG_PlanMoveTo_spec[OF _ assms(2) p] assms(1) by (simp add: mmu_wf_def motion_wf_def)
  with p ctrl_PlanMoveTo[of a pos f e "m_motion w" a] show ?thesis
    by (auto simp: plan_move_to_def Motion_CurPosition_def Motion_PlanMoveTo_def Let_def split: prod.splits)
qed

text \<open>An accepted idler request is served. A homed idler that is free, not already at the wanted
  place and has room in its queue accepts the request and plans its move to the configured angle
  of that slot, without jumping; and once its queue has run empty and the driver reports no error, its
  next step makes it ready, at the slot and in the state that were asked for.\<close>

theorem idler_request_served:
  assumes "mmu_wf w" "\<not> IsOnHold Idler w" "mv_homingValid (m_movable w Idler)"
    "mv_state (m_movable w Idler) \<noteq> Moving" "slot \<le> toolCount"
    "\<not> (m_currentlyEngaged w = op \<and> mv_currentSlot (m_movable w Idler) = slot)"
    "\<not> PG_Full (ctrl (m_motion w) Idler)"
    and "Idler_PlanMoveInner slot op w = (r, w1)"
  shows "r = Accepted \<and> mv_state (m_movable w1 Idler) = Moving
    \<and> Motion_Position Idler (m_motion w1) = idler_target op slot
    \<and> Motion_CurPosition Idler (m_motion w1) = Motion_CurPosition Idler (m_motion w)
    \<and> (\<forall>m. Motion_QueueEmpty_axis Idler m \<and> \<not> fst (Motion_CheckForErrors Idler m) \<longrightarrow>
         (case Idler_Step (w1\<lparr>m_motion := m\<rparr>) of (_, w2) \<Rightarrow>
            mv_state (m_movable w2 Idler) = Ready \<and> mv_currentSlot (m_movable w2 Idler) = slot
            \<and> m_currentlyEngaged w2 = op))"
proof -
  define u where "u = MB_SetCurrents Idler (mc_iRun (ad_currents (mo_data (m_motion w) Idler)))
     (mc_iHold (ad_currents (mo_data (m_motion w) Idler)))
     ((mov Idler (\<lambda>m. m\<lparr>mv_plannedSlot := slot\<rparr>) w)\<lparr>m_plannedMove := op\<rparr>)"
  have u: "mmu_wf u" "\<not> PG_Full (ctrl (m_motion u) Idler)"
    "Motion_CurPosition Idler (m_motion u) = Motion_CurPosition Idler (m_motion w)"
    "m_plannedMove u = op" "mv_plannedSlot (m_movable u Idler) = slot"
    "mv_state (m_movable u Idler) = mv_state (m_movable w Idler)"
    using assms(1,7)
    by (auto simp: u_def MB_SetCurrents_def Motion_CurPosition_def mv_wf_same movable_wf
        intro!: mmu_wf_mot mmu_wf_mov motion_wf_frames)
  have "mv_state (m_movable w Idler) \<noteq> HomeBack"
    using wf_homing[OF assms(1), of Idler] assms(3) by (auto simp: homing_states_def)
  with assms(2-4,6,8) have r: "r = Accepted" "w1 = set_mv_state Idler Moving (Idler_PrepareMoveToPlannedSlot u)"
    by (auto simp: Idler_PlanMoveInner_def InitMovementNoReinitAxis_def u_def Let_def IsOnHold_def)
  have "unat slot < 6" using assms(5) by (simp add: toolCount_def word_le_nat_alt)
  then have len: "unat slot < length idlerSlotPositions" "unat slot < length idlerIntermediateSlotPositions"
    by (simp_all add: idlerSlotPositions_def idlerIntermediateSlotPositions_def)
  define f where "f = unitToAxisUnit Idler (IdlerFeedrate_deg_s (m_globals u))"
  have prep: "Idler_PrepareMoveToPlannedSlot u = plan_move_to Idler (idler_target op slot) f 0 u"
    using len by (simp add: Idler_PrepareMoveToPlannedSlot_def Idler_SlotPosition_def f_def u(4,5)
        Idler_IntermediateSlotPosition_def slot_table_def idler_target_def Let_def)
  note pm = plan_move_to_room[OF u(1,2), of "idler_target op slot" f 0]
  have w1: "mv_state (m_movable w1 Idler) = Moving" "mv_plannedSlot (m_movable w1 Idler) = slot"
    "m_plannedMove w1 = op" using r(2) u(4,5) by (simp_all add: prep)
  have served: "case Idler_Step (w1\<lparr>m_motion := m\<rparr>) of (_, w2) \<Rightarrow>
       mv_state (m_movable w2 Idler) = Ready \<and> mv_currentSlot (m_movable w2 Idler) = slot \<and> m_currentlyEngaged w2 = op"
    if "Motion_QueueEmpty_axis Idler m" "\<not> fst (Motion_CheckForErrors Idler m)" for m
  proof -
    define m' where "m' = snd (Motion_CheckForErrors Idler m)"
    have m': "Motion_CheckForErrors Idler m = (False, m')" using that(2) by (simp add: m'_def prod_eq_iff)
    have "Motion_QueueEmpty_axis Idler m'" using that(1) ctrl_CheckForErrors[of Idler m Idler]
      by (simp add: m' Motion_QueueEmpty_axis_def)
    moreover have "CheckTMC Idler (w1\<lparr>m_motion := m\<rparr>) = w1\<lparr>m_motion := m'\<rparr>"
      by (simp add: CheckTMC_def m')
    ultimately show ?thesis using w1
      by (simp add: Idler_Step_def IsOnHold_def PerformMove_def Idler_FinishMove_def MB_SetCurrents_def Let_def)
        (simp add: movable_states)
  qed
  have "m_motion w1 = m_motion (plan_move_to Idler (idler_target op slot) f 0 u)"
    using r(2) by (simp add: prep)
  then have pos: "Motion_Position Idler (m_motion w1) = idler_target op slot"
    "Motion_CurPosition Idler (m_motion w1) = Motion_CurPosition Idler (m_motion w)"
    using pm[THEN conjunct1] pm[THEN conjunct2, THEN conjunct1] u(3)
    by (simp_all add: Motion_Position_def ctrl_def)
  show ?thesis
    by (intro conjI allI impI) (fact r(1) w1(1) pos | rule served; blast)+
qed

theorem idler_request_served_witness:
  "fst (Idler_PlanMoveInner 2 engage (mov Idler (\<lambda>m. m\<lparr>mv_homingValid := True\<rparr>) (mmu_new idle_hw blank_eeprom)))
     = Accepted
   \<and> Motion_Position Idler (m_motion (snd (Idler_PlanMoveInner 2 engage
       (mov Idler (\<lambda>m. m\<lparr>mv_homingValid := True\<rparr>) (mmu_new idle_hw blank_eeprom))))) = 1226"
proof -
  let ?w = "mov Idler (\<lambda>m. m\<lparr>mv_homingValid := True\<rparr>) (mmu_new idle_hw blank_eeprom)"
  have "mmu_wf ?w"
    by (rule mmu_wf_mov[OF mmu_wf_new])
      (simp add: mv_wf_def Let_def mmu_new_def Movable_new_def homing_states_def movable_states)
  moreover have "\<not> IsOnHold Idler ?w" "mv_homingValid (m_movable ?w Idler)" "(2 :: u8) \<le> toolCount"
    "mv_state (m_movable ?w Idler) \<noteq> Moving" "m_currentlyEngaged ?w \<noteq> engage"
    by (simp_all add: IsOnHold_def mmu_new_def Movable_new_def movable_states toolCount_def)
  moreover have "\<not> PG_Full (ctrl (m_motion ?w) Idler)"
    by (simp add: mmu_new_def ctrl_new PulseGen_new_def PG_Full_def CI_full_def CI_count_def CI_new_def
        size_is_power2_def blockBufferSize_def)
  moreover have "idler_target engage 2 = 1226"
    by (simp add: idler_target_def config_defs unitToAxisUnit_def truncate_rat_def)
  ultimately show ?thesis
    using idler_request_served[of ?w 2 engage "fst (Idler_PlanMoveInner 2 engage ?w)"
        "snd (Idler_PlanMoveInner 2 engage ?w)" ] by simp
qed

end
