(* ===== verification/Command_Base.thy ===== *)
theory Command_Base
  imports Homing
begin

text \<open>
  The base class of the commands (\<open>logic/command_base.cpp\<close>): how a command reacts to a failed
  driver or a failed homing of one of the three movables, and the helpers the commands
  share. The base part of a command object lives in the store \<open>m_base\<close> under the object, so every
  operation takes the object it is called on.
\<close>

section \<open>Error codes of movables\<close>

definition TMC2130ToErrorCode :: "ErrorFlags \<Rightarrow> ErrorCode" where
  "TMC2130ToErrorCode ef =
     (let e = E_RUNNING;
          e = (if ef_reset_flag ef then e OR TMC_RESET else e);
          e = (if ef_uv_cp ef then e OR TMC_UNDERVOLTAGE_ON_CHARGE_PUMP else e);
          e = (if ef_s2g ef then e OR TMC_SHORT_TO_GROUND else e);
          e = (if ef_otpw ef then e OR TMC_OVER_TEMPERATURE_WARN else e);
          e = (if ef_ot ef then e OR TMC_OVER_TEMPERATURE_ERROR else e)
      in e)"

definition AddErrorAxisBit :: "ErrorCode \<Rightarrow> nat \<Rightarrow> ErrorCode" where
  "AddErrorAxisBit ec axis = ec OR push_bit axis TMC_PULLEY_BIT"

definition CheckMovable :: "Axis \<Rightarrow> mmu \<Rightarrow> ErrorCode" where
  "CheckMovable a w =
     (let m = m_movable w a;
          st = mv_state m AND NOT OnHold
      in if st = TMCFailed then AddErrorAxisBit (TMC2130ToErrorCode (mv_tmcErrorFlags m)) (axis_index a)
         else if st = HomingFailed then AddErrorAxisBit HOMING_FAILED (axis_index a)
         else E_RUNNING)"

definition WithoutAxisBits :: "ErrorCode \<Rightarrow> ErrorCode" where
  "WithoutAxisBits ec = ec AND NOT (TMC_SELECTOR_BIT OR TMC_IDLER_BIT OR TMC_PULLEY_BIT)"

section \<open>Idler and selector together\<close>

definition HoldIdlerSelector :: "mmu \<Rightarrow> mmu" where
  "HoldIdlerSelector w = HoldOn Selector (HoldOn Idler w)"

definition ResumeIdlerSelector :: "mmu \<Rightarrow> mmu" where
  "ResumeIdlerSelector w = Resume Selector (Resume Idler w)"

definition InvalidateHoming :: "mmu \<Rightarrow> mmu" where
  "InvalidateHoming w = MB_InvalidateHoming Selector (MB_InvalidateHoming Idler (ResumeIdlerSelector w))"

text \<open>What the two filament sensors say about the filament.\<close>

definition sensed_state :: "bool \<Rightarrow> bool \<Rightarrow> FilamentLoadState" where
  "sensed_state fs fi =
     (if fs \<and> fi then InNozzle
      else if \<not> fs \<and> fi then InSelector
      else if \<not> fs \<and> \<not> fi then AtPulley
      else InSelector)"

definition InvalidateHomingAndFilamentState :: "mmu \<Rightarrow> mmu" where
  "InvalidateHomingAndFilamentState w =
     (let w = InvalidateHoming w
      in set_filament (active_slot w) (sensed_state (fsensor_pressed w) (finda_pressed w)) w)"

section \<open>Recovery of failed movables\<close>

definition set_recovering :: "obj \<Rightarrow> u8 \<Rightarrow> mmu \<Rightarrow> mmu" where
  "set_recovering ob axes = cmd ob (\<lambda>c. c\<lparr>c_recoveringMovableErrorAxisMask := axes\<rparr>)"

definition recovering :: "obj \<Rightarrow> mmu \<Rightarrow> u8" where
  "recovering ob w = c_recoveringMovableErrorAxisMask (m_base w ob)"

text \<open>Halting with an error that needs the user.\<close>

definition halt_with_error :: "obj \<Rightarrow> ErrorCode \<Rightarrow> mmu \<Rightarrow> mmu" where
  "halt_with_error ob ec w =
     HoldIdlerSelector (set_state ob P_ERRWaitingForUser (set_error ob ec w))"

definition save_before_failure :: "obj \<Rightarrow> mmu \<Rightarrow> mmu" where
  "save_before_failure ob =
     cmd ob (\<lambda>c. c\<lparr>c_stateBeforeModuleFailed := c_state c, c_errorBeforeModuleFailed := c_error c\<rparr>)"

text \<open>The last part of the branch with an error: homing is tried again on the middle button.\<close>

definition retry_homing :: "obj \<Rightarrow> ErrorCode \<Rightarrow> Axis \<Rightarrow> u8 \<Rightarrow> mmu \<Rightarrow> mmu" where
  "retry_homing ob ec a axisMask w =
     (if state_of ob w = P_ERRWaitingForUser \<and> WithoutAxisBits ec = HOMING_FAILED then
        let (ev, u) = ConsumeEvent (m_userInput w);
            w = w\<lparr>m_userInput := u\<rparr>
        in if ev = Ev_Middle then
             let w = set_recovering ob (recovering ob w OR axisMask) w;
                 w = ResumeIdlerSelector w;
                 (_, w) = PlanHome a w
             in set_error ob E_RUNNING (set_state ob P_Homing w)
           else w
      else w)"

definition WaitForOneModuleErrorRecovery ::
  "obj \<Rightarrow> ErrorCode \<Rightarrow> Axis \<Rightarrow> u8 \<Rightarrow> mmu \<Rightarrow> bool \<times> mmu" where
  "WaitForOneModuleErrorRecovery ob ec a axisMask w =
     (if ec \<noteq> E_RUNNING then
        let w = (if c_stateBeforeModuleFailed (m_base w ob) = P_Empty
                 then halt_with_error ob ec (save_before_failure ob w) else w);
            w = (if recovering ob w \<noteq> 0 then halt_with_error ob ec w else w)
        in (True, retry_homing ob ec a axisMask w)
      else if recovering ob w AND axisMask \<noteq> 0 then
        if state_of ob w = P_Homing then
          if mv_homingValid (m_movable w a) then
            (False,
             cmd ob (\<lambda>c. c\<lparr>c_state := c_stateBeforeModuleFailed c,
                           c_error := c_errorBeforeModuleFailed c,
                           c_recoveringMovableErrorAxisMask :=
                             c_recoveringMovableErrorAxisMask c AND NOT axisMask,
                           c_stateBeforeModuleFailed := P_Empty\<rparr>) w)
          else (True, w)
        else (False, w)
      else (recovering ob w AND axisMask \<noteq> 0, w))"

definition WaitForModulesErrorRecovery :: "obj \<Rightarrow> mmu \<Rightarrow> bool \<times> mmu" where
  "WaitForModulesErrorRecovery ob w =
     (let (r1, w) = WaitForOneModuleErrorRecovery ob (CheckMovable Idler w) Idler 0x1 w;
          (r2, w) = WaitForOneModuleErrorRecovery ob (CheckMovable Selector w) Selector 0x2 w;
          (r3, w) = WaitForOneModuleErrorRecovery ob (CheckMovable Pulley w) Pulley 0x4 w
      in (r1 \<or> r2 \<or> r3, w))"

text \<open>
  A step of a command. \<open>StepInner\<close> is virtual: the step of the derived class is an argument; it works
  on the data of the derived class and the machine.
\<close>

definition CommandBase_Step ::
  "obj \<Rightarrow> ('d \<times> mmu \<Rightarrow> bool \<times> 'd \<times> mmu) \<Rightarrow> 'd \<times> mmu \<Rightarrow> bool \<times> 'd \<times> mmu" where
  "CommandBase_Step ob StepInner = (\<lambda>(d, w).
     let (waiting, w) = WaitForModulesErrorRecovery ob w in
     if waiting \<or> state_of ob w = P_ERRInternal then (True, d, w)
     else StepInner (d, w))"

section \<open>Helpers of the commands\<close>

definition CheckToolIndex :: "obj \<Rightarrow> u8 \<Rightarrow> mmu \<Rightarrow> bool \<times> mmu" where
  "CheckToolIndex ob index w =
     (if index \<ge> toolCount then (False, set_error ob INVALID_TOOL w)
      else (True, set_error ob E_OK w))"

definition ErrDisengagingIdler :: "obj \<Rightarrow> mmu \<Rightarrow> mmu" where
  "ErrDisengagingIdler ob w =
     (if Disengaged w then
        let w = set_state ob P_ERRWaitingForUser w;
            w = cmd ob (\<lambda>c. c\<lparr>c_error := c_deferredErrorCode c, c_deferredErrorCode := E_OK\<rparr>) w;
            w = w\<lparr>m_eeprom := DriveError_increment (m_eeprom w)\<rparr>;
            w = Pulley_Disable w;
            w = inp UserInput_Clear w
        in HoldIdlerSelector w
      else w)"

definition GoToErrDisengagingIdler :: "obj \<Rightarrow> ErrorCode \<Rightarrow> mmu \<Rightarrow> mmu" where
  "GoToErrDisengagingIdler ob deferredEC w =
     (let w = cmd ob (\<lambda>c. c\<lparr>c_state := P_ERRDisengagingIdler, c_deferredErrorCode := deferredEC\<rparr>) w;
          w = led (ActiveSlotError (active_slot w)) w
      in snd (Idler_Disengage w))"

definition GoToErrEngagingIdler :: "obj \<Rightarrow> mmu \<Rightarrow> mmu" where
  "GoToErrEngagingIdler ob w =
     (let w = set_error ob E_RUNNING (set_state ob P_ERREngagingIdler w)
      in snd (Idler_Engage (active_slot w) w))"

definition CommandFinishedCorrectly :: "mmu \<Rightarrow> mmu" where
  "CommandFinishedCorrectly w = w\<lparr>m_lastCommandProcessedMs := m_ms w\<rparr>"

definition FinishedOK :: "obj \<Rightarrow> mmu \<Rightarrow> mmu" where
  "FinishedOK ob w = CommandFinishedCorrectly (set_error ob E_OK (set_state ob P_OK w))"

definition internal_error :: "obj \<Rightarrow> mmu \<Rightarrow> mmu" where
  "internal_error ob w = set_error ob INTERNAL (set_state ob P_ERRInternal w)"

section \<open>The invariant\<close>

lemma Disengaged_frame [simp]:
  "Disengaged (set_state ob p w) = Disengaged w" "Disengaged (set_error ob ec w) = Disengaged w"
  "Disengaged (cmd ob g w) = Disengaged w" "Disengaged (mot f w) = Disengaged w"
  by (simp_all add: Disengaged_def)

lemma mmu_wf_userInput: "mmu_wf w \<Longrightarrow> ui_wf u \<Longrightarrow> mmu_wf (w\<lparr>m_userInput := u\<rparr>)"
  by (simp add: mmu_wf_def)

lemma ConsumeEvent_mmu_wf [mmu_inv]:
  "mmu_wf w \<Longrightarrow> mmu_wf (w\<lparr>m_userInput := snd (ConsumeEvent (m_userInput w))\<rparr>)"
  by (rule mmu_wf_userInput) (simp_all add: mmu_wf_def ConsumeEvent_wf)

lemma hold_resume_wf [mmu_inv]:
  assumes "mmu_wf w"
  shows "mmu_wf (HoldIdlerSelector w)" "mmu_wf (ResumeIdlerSelector w)" "mmu_wf (InvalidateHoming w)"
    "mmu_wf (InvalidateHomingAndFilamentState w)" "mmu_wf (halt_with_error ob ec w)"
  using assms
  by (auto simp: HoldIdlerSelector_def ResumeIdlerSelector_def InvalidateHoming_def Let_def
      InvalidateHomingAndFilamentState_def halt_with_error_def intro!: simple_movable_ops_wf)

lemma retry_homing_wf [mmu_inv]:
  assumes "mmu_wf w" "a = Pulley \<Longrightarrow> WithoutAxisBits ec \<noteq> HOMING_FAILED"
  shows "mmu_wf (retry_homing ob ec a m w)"
proof -
  define w1 where "w1 = w\<lparr>m_userInput := snd (ConsumeEvent (m_userInput w))\<rparr>"
  define w2 where "w2 = ResumeIdlerSelector (set_recovering ob (recovering ob w1 OR m) w1)"
  have w2: "mmu_wf w2" "mmu_wf w1"
    using assms(1) by (auto simp: w2_def w1_def set_recovering_def intro!: hold_resume_wf ConsumeEvent_mmu_wf)
  have "mmu_wf (snd (PlanHome a w2))" if "WithoutAxisBits ec = HOMING_FAILED"
    using w2(1) assms(2) that by (intro PlanHome_wf) auto
  then show ?thesis using assms(1) w2(2)
    by (simp add: retry_homing_def w1_def w2_def Let_def case_prod_beta)
qed

text \<open>A driver error is not mistaken for a failed homing, and the pulley does not home.\<close>

lemma tmc_error_not_homing:
  "WithoutAxisBits (AddErrorAxisBit (TMC2130ToErrorCode ef) (axis_index a)) \<noteq> HOMING_FAILED"
  by (cases a; cases "ef_reset_flag ef"; cases "ef_uv_cp ef"; cases "ef_s2g ef"; cases "ef_otpw ef";
      cases "ef_ot ef"; simp add: WithoutAxisBits_def AddErrorAxisBit_def TMC2130ToErrorCode_def error_defs)

lemma CheckMovable_pulley:
  assumes "mmu_wf w" shows "WithoutAxisBits (CheckMovable Pulley w) \<noteq> HOMING_FAILED"
proof -
  have "mv_state (m_movable w Pulley) \<in> {Ready, Moving, TMCFailed}"
    using movable_wf[OF assms, of Pulley] by (simp add: mv_wf_def Let_def)
  moreover have "WithoutAxisBits E_RUNNING \<noteq> HOMING_FAILED" by (simp add: WithoutAxisBits_def error_defs)
  ultimately show ?thesis
    using tmc_error_not_homing[of "mv_tmcErrorFlags (m_movable w Pulley)" Pulley]
    by (auto simp: CheckMovable_def Let_def) (simp_all add: movable_states)
qed

lemma WaitForOne_wf [mmu_inv]:
  assumes "mmu_wf w" "ec = CheckMovable a w"
  shows "mmu_wf (snd (WaitForOneModuleErrorRecovery ob ec a m w))"
proof -
  have "a = Pulley \<Longrightarrow> WithoutAxisBits ec \<noteq> HOMING_FAILED" using CheckMovable_pulley[OF assms(1)] assms(2) by simp
  then show ?thesis using assms(1)
    by (auto simp: WaitForOneModuleErrorRecovery_def Let_def save_before_failure_def
        intro!: retry_homing_wf hold_resume_wf)
qed

lemma WaitForModules_wf [mmu_inv]: "mmu_wf w \<Longrightarrow> mmu_wf (snd (WaitForModulesErrorRecovery ob w))"
  unfolding WaitForModulesErrorRecovery_def Let_def case_prod_beta
  by (simp add: WaitForOne_wf)

lemma CommandBase_Step_wf:
  assumes "mmu_wf w" "\<And>d w. mmu_wf w \<Longrightarrow> mmu_wf (snd (snd (inner (d, w))))"
  shows "mmu_wf (snd (snd (CommandBase_Step ob inner (d, w))))"
proof -
  obtain r v where wm: "WaitForModulesErrorRecovery ob w = (r, v)" by fastforce
  with WaitForModules_wf[OF assms(1), of ob] have "mmu_wf v" by simp
  with assms(2) show ?thesis by (simp add: CommandBase_Step_def wm)
qed

lemma base_helpers_wf [mmu_inv]:
  assumes "mmu_wf w"
  shows "mmu_wf (snd (CheckToolIndex ob i w))" "mmu_wf (ErrDisengagingIdler ob w)"
    "mmu_wf (GoToErrDisengagingIdler ob ec w)" "mmu_wf (GoToErrEngagingIdler ob w)"
    "mmu_wf (FinishedOK ob w)" "mmu_wf (internal_error ob w)"
  using assms
  by (auto simp: CheckToolIndex_def ErrDisengagingIdler_def GoToErrDisengagingIdler_def Let_def
      GoToErrEngagingIdler_def FinishedOK_def CommandFinishedCorrectly_def internal_error_def
      intro!: hold_resume_wf Idler_requests_wf Pulley_ops_wf mmu_wf_led mmu_wf_inp UserInput_Clear_wf)

section \<open>What the requests leave alone\<close>

lemma simple_ops_frame [simp]:
  "m_globals (Pulley_PlanMove d f e w) = m_globals w" "m_finda (Pulley_PlanMove d f e w) = m_finda w"
  "m_fsensor (Pulley_PlanMove d f e w) = m_fsensor w" "m_ms (Pulley_PlanMove d f e w) = m_ms w"
  "m_eeprom (Pulley_PlanMove d f e w) = m_eeprom w"
  "m_globals (Pulley_InitAxis w) = m_globals w" "m_finda (Pulley_InitAxis w) = m_finda w"
  "m_fsensor (Pulley_InitAxis w) = m_fsensor w" "m_ms (Pulley_InitAxis w) = m_ms w"
  "m_eeprom (Pulley_InitAxis w) = m_eeprom w"
  "m_globals (Pulley_Disable w) = m_globals w" "m_finda (Pulley_Disable w) = m_finda w"
  "m_fsensor (Pulley_Disable w) = m_fsensor w" "m_ms (Pulley_Disable w) = m_ms w"
  "m_eeprom (Pulley_Disable w) = m_eeprom w"
  "m_globals (MB_InvalidateHoming a w) = m_globals w" "m_finda (MB_InvalidateHoming a w) = m_finda w"
  "m_fsensor (MB_InvalidateHoming a w) = m_fsensor w" "m_ms (MB_InvalidateHoming a w) = m_ms w"
  "m_eeprom (MB_InvalidateHoming a w) = m_eeprom w"
  "m_globals (MB_SetCurrents a i h w) = m_globals w" "m_finda (MB_SetCurrents a i h w) = m_finda w"
  "m_fsensor (MB_SetCurrents a i h w) = m_fsensor w" "m_ms (MB_SetCurrents a i h w) = m_ms w"
  "m_eeprom (MB_SetCurrents a i h w) = m_eeprom w"
  "m_globals (set_axis_start a w) = m_globals w" "m_finda (set_axis_start a w) = m_finda w"
  "m_fsensor (set_axis_start a w) = m_fsensor w" "m_ms (set_axis_start a w) = m_ms w"
  "m_eeprom (set_axis_start a w) = m_eeprom w"
  by (simp_all add: Pulley_PlanMove_def Pulley_InitAxis_def Pulley_Disable_def MB_InvalidateHoming_def
      MB_SetCurrents_def set_axis_start_def)

lemma PrepareMove_globals [simp]:
  "m_globals (PrepareMoveToPlannedSlot a w) = m_globals w"
  "m_finda (PrepareMoveToPlannedSlot a w) = m_finda w"
  "m_fsensor (PrepareMoveToPlannedSlot a w) = m_fsensor w" "m_ms (PrepareMoveToPlannedSlot a w) = m_ms w"
  "m_eeprom (PrepareMoveToPlannedSlot a w) = m_eeprom w"
  by (cases a; simp add: Idler_PrepareMoveToPlannedSlot_def Selector_PrepareMoveToPlannedSlot_def
      Idler_SlotPosition_def Idler_IntermediateSlotPosition_def Selector_SlotPosition_def Let_def slot_table_def)+

lemma PlanHomingMove_globals [simp]:
  "m_globals (PlanHomingMoveForward a w) = m_globals w" "m_finda (PlanHomingMoveForward a w) = m_finda w"
  "m_fsensor (PlanHomingMoveForward a w) = m_fsensor w" "m_ms (PlanHomingMoveForward a w) = m_ms w"
  "m_eeprom (PlanHomingMoveForward a w) = m_eeprom w"
  by (cases a; simp add: Idler_PlanHomingMoveForward_def Selector_PlanHomingMoveForward_def Let_def)+

lemma PlanHome_globals [simp]:
  "m_globals (snd (PlanHome a w)) = m_globals w" "m_finda (snd (PlanHome a w)) = m_finda w"
  "m_fsensor (snd (PlanHome a w)) = m_fsensor w" "m_ms (snd (PlanHome a w)) = m_ms w"
  "m_eeprom (snd (PlanHome a w)) = m_eeprom w"
  "m_globals (snd (InitMovementNoReinitAxis a w)) = m_globals w"
  "m_finda (snd (InitMovementNoReinitAxis a w)) = m_finda w"
  "m_fsensor (snd (InitMovementNoReinitAxis a w)) = m_fsensor w"
  "m_ms (snd (InitMovementNoReinitAxis a w)) = m_ms w"
  "m_eeprom (snd (InitMovementNoReinitAxis a w)) = m_eeprom w"
  by (simp_all add: PlanHome_def InitMovementNoReinitAxis_def Let_def)

lemma requests_globals [simp]:
  "m_globals (snd (Idler_PlanMoveInner sl op w)) = m_globals w"
  "m_finda (snd (Idler_PlanMoveInner sl op w)) = m_finda w"
  "m_fsensor (snd (Idler_PlanMoveInner sl op w)) = m_fsensor w"
  "m_ms (snd (Idler_PlanMoveInner sl op w)) = m_ms w"
  "m_eeprom (snd (Idler_PlanMoveInner sl op w)) = m_eeprom w"
  "m_globals (snd (Selector_MoveToSlot sl w)) = m_globals w"
  "m_finda (snd (Selector_MoveToSlot sl w)) = m_finda w"
  "m_fsensor (snd (Selector_MoveToSlot sl w)) = m_fsensor w"
  "m_ms (snd (Selector_MoveToSlot sl w)) = m_ms w" "m_eeprom (snd (Selector_MoveToSlot sl w)) = m_eeprom w"
  by (simp_all add: Idler_PlanMoveInner_def Selector_MoveToSlot_def Let_def)

lemma idler_requests_globals [simp]:
  "m_globals (snd (Idler_Engage sl w)) = m_globals w" "m_finda (snd (Idler_Engage sl w)) = m_finda w"
  "m_fsensor (snd (Idler_Engage sl w)) = m_fsensor w" "m_ms (snd (Idler_Engage sl w)) = m_ms w"
  "m_eeprom (snd (Idler_Engage sl w)) = m_eeprom w"
  "m_globals (snd (Idler_Disengage w)) = m_globals w" "m_finda (snd (Idler_Disengage w)) = m_finda w"
  "m_fsensor (snd (Idler_Disengage w)) = m_fsensor w" "m_ms (snd (Idler_Disengage w)) = m_ms w"
  "m_eeprom (snd (Idler_Disengage w)) = m_eeprom w"
  "m_globals (snd (Idler_PartiallyDisengage sl w)) = m_globals w"
  "m_finda (snd (Idler_PartiallyDisengage sl w)) = m_finda w"
  "m_fsensor (snd (Idler_PartiallyDisengage sl w)) = m_fsensor w"
  "m_ms (snd (Idler_PartiallyDisengage sl w)) = m_ms w"
  "m_eeprom (snd (Idler_PartiallyDisengage sl w)) = m_eeprom w"
  by (simp_all add: Idler_Engage_def Idler_Disengage_def Idler_PartiallyDisengage_def)

lemma hold_globals [simp]:
  "m_globals (HoldOn a w) = m_globals w" "m_finda (HoldOn a w) = m_finda w"
  "m_fsensor (HoldOn a w) = m_fsensor w" "m_ms (HoldOn a w) = m_ms w" "m_eeprom (HoldOn a w) = m_eeprom w"
  "m_globals (Resume a w) = m_globals w" "m_finda (Resume a w) = m_finda w"
  "m_fsensor (Resume a w) = m_fsensor w" "m_ms (Resume a w) = m_ms w" "m_eeprom (Resume a w) = m_eeprom w"
  by (simp_all add: HoldOn_def Resume_def)

lemma hold_both_globals [simp]:
  "m_globals (HoldIdlerSelector w) = m_globals w" "m_finda (HoldIdlerSelector w) = m_finda w"
  "m_fsensor (HoldIdlerSelector w) = m_fsensor w" "m_ms (HoldIdlerSelector w) = m_ms w"
  "m_eeprom (HoldIdlerSelector w) = m_eeprom w"
  "m_globals (ResumeIdlerSelector w) = m_globals w" "m_finda (ResumeIdlerSelector w) = m_finda w"
  "m_fsensor (ResumeIdlerSelector w) = m_fsensor w" "m_ms (ResumeIdlerSelector w) = m_ms w"
  "m_eeprom (ResumeIdlerSelector w) = m_eeprom w"
  "m_globals (InvalidateHoming w) = m_globals w" "m_finda (InvalidateHoming w) = m_finda w"
  "m_fsensor (InvalidateHoming w) = m_fsensor w" "m_ms (InvalidateHoming w) = m_ms w"
  "m_eeprom (InvalidateHoming w) = m_eeprom w"
  by (simp_all add: HoldIdlerSelector_def ResumeIdlerSelector_def InvalidateHoming_def)

section \<open>Recovery\<close>

lemma failed_states_distinct [simp]: "HomingFailed \<noteq> TMCFailed" "TMCFailed \<noteq> HomingFailed"
  by (simp_all add: movable_states)

lemma HoldOn_frame [simp]:
  "m_base (HoldOn a w) = m_base w" "m_userInput (HoldOn a w) = m_userInput w"
  "m_movable (HoldOn a w) = (m_movable w)(a := (m_movable w a)\<lparr>mv_state := mv_state (m_movable w a) OR OnHold\<rparr>)"
  by (simp_all add: HoldOn_def)

lemma Resume_frame [simp]:
  "m_base (Resume a w) = m_base w" "m_userInput (Resume a w) = m_userInput w"
  "m_movable (Resume a w) = (m_movable w)(a := (m_movable w a)\<lparr>mv_state := mv_state (m_movable w a) AND NOT OnHold\<rparr>)"
  by (simp_all add: Resume_def)

lemma HoldIdlerSelector_frame [simp]:
  "m_base (HoldIdlerSelector w) = m_base w" "m_userInput (HoldIdlerSelector w) = m_userInput w"
  "CheckMovable a (HoldIdlerSelector w) = CheckMovable a w"
  "IsOnHold Idler (HoldIdlerSelector w)" "IsOnHold Selector (HoldIdlerSelector w)"
  by (simp_all add: HoldIdlerSelector_def CheckMovable_def Let_def IsOnHold_def)

lemma hold_cleared [simp]: "(s AND NOT OnHold) AND OnHold = 0"
  by (rule bit_word_eqI) (auto simp: bit_simps)

lemma ResumeIdlerSelector_frame [simp]:
  "m_base (ResumeIdlerSelector w) = m_base w" "m_userInput (ResumeIdlerSelector w) = m_userInput w"
  "CheckMovable a (ResumeIdlerSelector w) = CheckMovable a w"
  "\<not> IsOnHold Idler (ResumeIdlerSelector w)" "\<not> IsOnHold Selector (ResumeIdlerSelector w)"
  by (simp_all add: ResumeIdlerSelector_def CheckMovable_def Let_def IsOnHold_def)

lemma CheckMovable_cong: "m_movable w a = m_movable v a \<Longrightarrow> CheckMovable a w = CheckMovable a v"
  by (simp add: CheckMovable_def)

lemma CheckMovable_frame [simp]:
  "CheckMovable a (cmd ob g w) = CheckMovable a w" "CheckMovable a (set_state ob p w) = CheckMovable a w"
  "CheckMovable a (set_error ob ec w) = CheckMovable a w"
  "CheckMovable a (w\<lparr>m_userInput := u\<rparr>) = CheckMovable a w"
  by (simp_all add: CheckMovable_def)

text \<open>Panic touches state and error only.\<close>

lemma Panic_base [simp]:
  "c_stateBeforeModuleFailed (m_base (Panic ec w) ob) = c_stateBeforeModuleFailed (m_base w ob)"
  "c_errorBeforeModuleFailed (m_base (Panic ec w) ob) = c_errorBeforeModuleFailed (m_base w ob)"
  "c_recoveringMovableErrorAxisMask (m_base (Panic ec w) ob) = c_recoveringMovableErrorAxisMask (m_base w ob)"
  by (simp_all add: Panic_def CommandBase_Panic_def set_error_def set_state_def)

lemma plan_move_base [simp]:
  "c_stateBeforeModuleFailed (m_base (plan_move a d f e w) ob) = c_stateBeforeModuleFailed (m_base w ob)"
  "c_errorBeforeModuleFailed (m_base (plan_move a d f e w) ob) = c_errorBeforeModuleFailed (m_base w ob)"
  "c_recoveringMovableErrorAxisMask (m_base (plan_move a d f e w) ob) = c_recoveringMovableErrorAxisMask (m_base w ob)"
  by (simp_all add: plan_move_def plan_move_to_def Let_def split: prod.split)

text \<open>What planning to home does to the movables and the commands.\<close>

lemma PlanHome_released:
  assumes "\<not> IsOnHold a w" "a \<noteq> Pulley"
  defines "w' \<equiv> snd (PlanHome a w)"
  shows "mv_state (m_movable w' a) = (if a = Selector then PlannedHome else HomeForward)"
    "b \<noteq> a \<Longrightarrow> m_movable w' b = m_movable w b"
    "c_stateBeforeModuleFailed (m_base w' ob) = c_stateBeforeModuleFailed (m_base w ob)"
    "c_errorBeforeModuleFailed (m_base w' ob) = c_errorBeforeModuleFailed (m_base w ob)"
    "recovering ob w' = recovering ob w"
  using assms(1,2)
  by (cases a; simp add: w'_def PlanHome_def Let_def MB_InvalidateHoming_def IsOnHold_def recovering_def
      Idler_PlanHomingMoveForward_def Selector_PlanHomingMoveForward_def set_axis_start_def)+

lemma HomingFailed_code:
  assumes "mv_state (m_movable w a) AND NOT OnHold = HomingFailed"
  shows "CheckMovable a w = HOMING_FAILED OR push_bit (axis_index a) TMC_PULLEY_BIT"
    "CheckMovable a w \<noteq> E_RUNNING" "WithoutAxisBits (CheckMovable a w) = HOMING_FAILED"
proof -
  have "HomingFailed \<noteq> TMCFailed" by (simp add: movable_states)
  then show c: "CheckMovable a w = HOMING_FAILED OR push_bit (axis_index a) TMC_PULLEY_BIT"
    using assms by (simp add: CheckMovable_def AddErrorAxisBit_def Let_def)
  show "CheckMovable a w \<noteq> E_RUNNING" "WithoutAxisBits (CheckMovable a w) = HOMING_FAILED"
    unfolding c by (cases a; simp add: WithoutAxisBits_def error_defs)+
qed

fun axis_mask :: "Axis \<Rightarrow> u8" where
  "axis_mask Idler = 0x1" | "axis_mask Selector = 0x2" | "axis_mask Pulley = 0x4"

lemma WaitForOne_idle:
  "CheckMovable a w = E_RUNNING \<Longrightarrow> recovering ob w AND m = 0 \<Longrightarrow>
     WaitForOneModuleErrorRecovery ob (CheckMovable a w) a m w = (False, w)"
  by (simp add: WaitForOneModuleErrorRecovery_def)

text \<open>Only the failed axis has an effect if the two others are fine and not in recovery.\<close>

lemma WaitForModules_one:
  assumes "a \<noteq> Pulley" "\<forall>b. b \<noteq> a \<longrightarrow> CheckMovable b w = E_RUNNING"
    and "\<forall>b. b \<noteq> a \<longrightarrow> recovering ob w AND axis_mask b = 0"
    and "WaitForOneModuleErrorRecovery ob (CheckMovable a w) a (axis_mask a) w = (r, w')"
    and "\<forall>b. b \<noteq> a \<longrightarrow> CheckMovable b w' = E_RUNNING"
    and "\<forall>b. b \<noteq> a \<longrightarrow> recovering ob w' AND axis_mask b = 0"
  shows "WaitForModulesErrorRecovery ob w = (r, w')"
proof -
  have idle: "WaitForOneModuleErrorRecovery ob (CheckMovable b w) b (axis_mask b) w = (False, w)"
    "WaitForOneModuleErrorRecovery ob (CheckMovable b w') b (axis_mask b) w' = (False, w')" if "b \<noteq> a" for b
    using assms(2,3,5,6) that WaitForOne_idle by blast+
  show ?thesis
  proof (cases a)
    case Idler
    with idle[of Selector] idle[of Pulley] assms(4) show ?thesis
      by (simp add: WaitForModulesErrorRecovery_def)
  next
    case Selector
    with idle[of Idler] idle[of Pulley] assms(4) show ?thesis
      by (simp add: WaitForModulesErrorRecovery_def)
  qed (use assms(1) in simp)
qed

lemma others_bits: "b \<noteq> a \<Longrightarrow> axis_mask a AND axis_mask b = 0" "axis_mask a AND axis_mask a \<noteq> 0"
  by (cases a; cases b; simp)+

lemma failure_halts:
  assumes "a \<noteq> Pulley" "\<forall>b. b \<noteq> a \<longrightarrow> CheckMovable b w = E_RUNNING"
    and "mv_state (m_movable w a) AND NOT OnHold = HomingFailed" "recovering ob w = 0"
    and "c_stateBeforeModuleFailed (m_base w ob) = P_Empty" "fst (ConsumeEvent (m_userInput w)) \<noteq> Ev_Middle"
    and wait: "WaitForModulesErrorRecovery ob w = (waiting, w')"
  shows "waiting" "state_of ob w' = P_ERRWaitingForUser"
    "error_of ob w' = HOMING_FAILED OR push_bit (axis_index a) TMC_PULLEY_BIT"
    "c_stateBeforeModuleFailed (m_base w' ob) = state_of ob w"
    "c_errorBeforeModuleFailed (m_base w' ob) = error_of ob w" "recovering ob w' = 0"
    "IsOnHold Idler w'" "IsOnHold Selector w'"
proof -
  note ec = HomingFailed_code[OF assms(3)]
  define ec where "ec = CheckMovable a w"
  define w1 where "w1 = halt_with_error ob ec (save_before_failure ob w)"
  have w1: "m_userInput w1 = m_userInput w" "recovering ob w1 = 0" "state_of ob w1 = P_ERRWaitingForUser"
    "error_of ob w1 = ec" "c_stateBeforeModuleFailed (m_base w1 ob) = state_of ob w"
    "c_errorBeforeModuleFailed (m_base w1 ob) = error_of ob w" "IsOnHold Idler w1" "IsOnHold Selector w1"
    "CheckMovable b w1 = CheckMovable b w" for b
    using assms(4)
    by (simp_all add: w1_def halt_with_error_def save_before_failure_def recovering_def state_of_def
        error_of_def set_state_def set_error_def)
  define w2 where "w2 = w1\<lparr>m_userInput := snd (ConsumeEvent (m_userInput w1))\<rparr>"
  have "WaitForOneModuleErrorRecovery ob (CheckMovable a w) a (axis_mask a) w = (True, w2)"
    using ec(2,3) assms(5,6) w1(1-3)
    by (simp add: WaitForOneModuleErrorRecovery_def ec_def[symmetric] w1_def[symmetric] retry_homing_def
        w2_def case_prod_beta Let_def)
  moreover have "CheckMovable b w2 = CheckMovable b w" for b by (simp add: w2_def w1(9))
  moreover have "recovering ob w2 = 0" using w1(2) by (simp add: w2_def recovering_def)
  ultimately have "WaitForModulesErrorRecovery ob w = (True, w2)"
    using assms(1,2,4) by (intro WaitForModules_one) simp_all
  with wait have "waiting" "w' = w2" by simp_all
  then show "waiting" "state_of ob w' = P_ERRWaitingForUser"
    "error_of ob w' = HOMING_FAILED OR push_bit (axis_index a) TMC_PULLEY_BIT"
    "c_stateBeforeModuleFailed (m_base w' ob) = state_of ob w"
    "c_errorBeforeModuleFailed (m_base w' ob) = error_of ob w" "recovering ob w' = 0"
    "IsOnHold Idler w'" "IsOnHold Selector w'"
    using w1 ec(1) by (simp_all add: w2_def state_of_def error_of_def recovering_def IsOnHold_def ec_def)
qed

lemma middle_retries:
  assumes "a \<noteq> Pulley" "\<forall>b. b \<noteq> a \<longrightarrow> CheckMovable b w = E_RUNNING"
    and "mv_state (m_movable w a) AND NOT OnHold = HomingFailed" "recovering ob w = 0"
    and "c_stateBeforeModuleFailed (m_base w ob) \<noteq> P_Empty" "state_of ob w = P_ERRWaitingForUser"
    and "fst (ConsumeEvent (m_userInput w)) = Ev_Middle"
    and wait: "WaitForModulesErrorRecovery ob w = (waiting, w')"
  shows "waiting" "state_of ob w' = P_Homing" "error_of ob w' = E_RUNNING" "recovering ob w' = axis_mask a"
    "mv_state (m_movable w' a) \<in> {PlannedHome, HomeForward}" "\<not> IsOnHold Idler w'" "\<not> IsOnHold Selector w'"
    "c_stateBeforeModuleFailed (m_base w' ob) = c_stateBeforeModuleFailed (m_base w ob)"
    "c_errorBeforeModuleFailed (m_base w' ob) = c_errorBeforeModuleFailed (m_base w ob)"
proof -
  note ec = HomingFailed_code[OF assms(3)]
  define w1 where "w1 = ResumeIdlerSelector (set_recovering ob (axis_mask a)
      (w\<lparr>m_userInput := snd (ConsumeEvent (m_userInput w))\<rparr>))"
  have rel: "\<not> IsOnHold a w1" using assms(1) by (cases a) (simp_all add: w1_def)
  define w2 where "w2 = set_error ob E_RUNNING (set_state ob P_Homing (snd (PlanHome a w1)))"
  note ph = PlanHome_released[OF rel assms(1)]
  have w1: "c_stateBeforeModuleFailed (m_base w1 ob) = c_stateBeforeModuleFailed (m_base w ob)"
    "c_errorBeforeModuleFailed (m_base w1 ob) = c_errorBeforeModuleFailed (m_base w ob)"
    "recovering ob w1 = axis_mask a" "CheckMovable b w1 = CheckMovable b w" for b
    by (simp_all add: w1_def set_recovering_def recovering_def)
  have "WaitForOneModuleErrorRecovery ob (CheckMovable a w) a (axis_mask a) w = (True, w2)"
    using ec(2,3) assms(4-7)
    by (simp add: WaitForOneModuleErrorRecovery_def retry_homing_def w2_def w1_def case_prod_beta Let_def
        recovering_def)
  moreover have "CheckMovable b w2 = E_RUNNING" if "b \<noteq> a" for b
    using that assms(2) CheckMovable_cong[OF ph(2)[OF that]] by (simp add: w2_def w1(4))
  moreover have r2: "recovering ob w2 = axis_mask a"
    using ph(5)[of ob] w1(3) by (simp add: w2_def recovering_def set_error_def set_state_def)
  ultimately have "WaitForModulesErrorRecovery ob w = (True, w2)"
    using assms(1,2,4) by (intro WaitForModules_one) (auto simp: others_bits)
  with wait have w': "waiting" "w' = w2" by simp_all
  have hold: "\<not> IsOnHold Idler w2 \<and> \<not> IsOnHold Selector w2"
  proof -
    have "\<not> IsOnHold b w2" if "b \<noteq> Pulley" for b
    proof (cases "b = a")
      case True
      with ph(1) show ?thesis by (auto simp: IsOnHold_def w2_def movable_states)
    next
      case False
      moreover have "\<not> IsOnHold b w1" using that by (cases b) (simp_all add: w1_def)
      ultimately show ?thesis using ph(2) by (simp add: IsOnHold_def w2_def)
    qed
    then show ?thesis by blast
  qed
  show "waiting" "recovering ob w' = axis_mask a" using w' r2 by simp_all
  show "state_of ob w' = P_Homing" "error_of ob w' = E_RUNNING" using w' by (simp_all add: w2_def)
  show "mv_state (m_movable w' a) \<in> {PlannedHome, HomeForward}" using w' ph(1) by (simp add: w2_def)
  show "\<not> IsOnHold Idler w'" "\<not> IsOnHold Selector w'" using w' hold by simp_all
  show "c_stateBeforeModuleFailed (m_base w' ob) = c_stateBeforeModuleFailed (m_base w ob)"
    "c_errorBeforeModuleFailed (m_base w' ob) = c_errorBeforeModuleFailed (m_base w ob)"
    using w' ph(3,4)[of ob] w1(1,2) by (simp_all add: w2_def set_error_def set_state_def)
qed

lemma homed_restores:
  assumes "a \<noteq> Pulley" "\<forall>b. CheckMovable b w = E_RUNNING" "recovering ob w = axis_mask a"
    and "state_of ob w = P_Homing" "mv_homingValid (m_movable w a)"
    and wait: "WaitForModulesErrorRecovery ob w = (waiting, w')"
  shows "\<not> waiting" "state_of ob w' = c_stateBeforeModuleFailed (m_base w ob)"
    "error_of ob w' = c_errorBeforeModuleFailed (m_base w ob)" "recovering ob w' = 0"
    "c_stateBeforeModuleFailed (m_base w' ob) = P_Empty" "m_movable w' = m_movable w"
proof -
  define w2 where "w2 = cmd ob (\<lambda>c. c\<lparr>c_state := c_stateBeforeModuleFailed c,
      c_error := c_errorBeforeModuleFailed c,
      c_recoveringMovableErrorAxisMask := c_recoveringMovableErrorAxisMask c AND NOT (axis_mask a),
      c_stateBeforeModuleFailed := P_Empty\<rparr>) w"
  have "WaitForOneModuleErrorRecovery ob (CheckMovable a w) a (axis_mask a) w = (False, w2)"
    using assms(2-5) others_bits(2)[of a] by (simp add: WaitForOneModuleErrorRecovery_def w2_def)
  moreover have r: "recovering ob w2 = 0"
    using assms(3) by (simp add: w2_def recovering_def)
  ultimately have "WaitForModulesErrorRecovery ob w = (False, w2)"
    using assms(1-3) by (intro WaitForModules_one) (auto simp: w2_def others_bits recovering_def)
  with wait have "\<not> waiting" "w' = w2" by simp_all
  then show "\<not> waiting" "state_of ob w' = c_stateBeforeModuleFailed (m_base w ob)"
    "error_of ob w' = c_errorBeforeModuleFailed (m_base w ob)" "recovering ob w' = 0"
    "c_stateBeforeModuleFailed (m_base w' ob) = P_Empty" "m_movable w' = m_movable w"
    using r by (simp_all add: w2_def state_of_def error_of_def)
qed

section \<open>Properties\<close>

text \<open>C25: a failed homing of one axis is a detour. When the idler or the selector fails to home while
  a command runs, the command's step halts with the error of that axis and both movables go on hold. The
  middle button releases both, starts a new homing of that axis and shows the command as homing.
  As soon as homing is valid, the command goes on in exactly the state and with the error it had before,
  and no axis is in recovery. Between the three steps anything may happen to the machine as
  long as nobody writes to the command's record.\<close>

theorem homing_failure_is_a_detour:
  assumes "a \<noteq> Pulley"
    and "mv_state (m_movable w a) AND NOT OnHold = HomingFailed" "\<forall>b. b \<noteq> a \<longrightarrow> CheckMovable b w = E_RUNNING"
    and "recovering ob w = 0" "c_stateBeforeModuleFailed (m_base w ob) = P_Empty" "state_of ob w \<noteq> P_Empty"
    and "fst (ConsumeEvent (m_userInput w)) \<noteq> Ev_Middle"
    and "WaitForModulesErrorRecovery ob w = (halted, w1)"
    and "mv_state (m_movable v1 a) AND NOT OnHold = HomingFailed" "\<forall>b. b \<noteq> a \<longrightarrow> CheckMovable b v1 = E_RUNNING"
    and "m_base v1 ob = m_base w1 ob" "fst (ConsumeEvent (m_userInput v1)) = Ev_Middle"
    and "WaitForModulesErrorRecovery ob v1 = (homing, w2)"
    and "m_base v2 ob = m_base w2 ob" "\<forall>b. CheckMovable b v2 = E_RUNNING" "mv_homingValid (m_movable v2 a)"
    and "WaitForModulesErrorRecovery ob v2 = (waiting, w3)"
  shows "halted \<and> state_of ob w1 = P_ERRWaitingForUser
      \<and> error_of ob w1 = HOMING_FAILED OR push_bit (axis_index a) TMC_PULLEY_BIT
      \<and> IsOnHold Idler w1 \<and> IsOnHold Selector w1
    \<and> homing \<and> state_of ob w2 = P_Homing \<and> error_of ob w2 = E_RUNNING
      \<and> mv_state (m_movable w2 a) \<in> {PlannedHome, HomeForward} \<and> \<not> IsOnHold Idler w2 \<and> \<not> IsOnHold Selector w2
    \<and> \<not> waiting \<and> state_of ob w3 = state_of ob w \<and> error_of ob w3 = error_of ob w
      \<and> recovering ob w3 = 0 \<and> c_stateBeforeModuleFailed (m_base w3 ob) = P_Empty"
proof -
  note h = failure_halts[OF assms(1,3,2,4,5,7,8)]
  have v1: "recovering ob v1 = 0" "c_stateBeforeModuleFailed (m_base v1 ob) \<noteq> P_Empty"
    "state_of ob v1 = P_ERRWaitingForUser"
    using h(2,4,6) assms(6,11) by (simp_all add: recovering_def state_of_def)
  note m = middle_retries[OF assms(1,10,9) v1 assms(12,13)]
  have v2: "recovering ob v2 = axis_mask a" "state_of ob v2 = P_Homing"
    using m(2,4) assms(14) by (simp_all add: recovering_def state_of_def)
  note r = homed_restores[OF assms(1,15) v2 assms(16,17)]
  have "state_of ob w3 = state_of ob w" "error_of ob w3 = error_of ob w"
    using r(2,3) m(8,9) h(4,5) assms(11,14) by (simp_all add: error_of_def state_of_def)
  with h m r show ?thesis by simp
qed

text \<open>A machine where the idler has failed to home, and one where it has homed later.\<close>

definition idler_failed :: mmu where
  "idler_failed = mov Idler (\<lambda>m. m\<lparr>mv_state := HomingFailed\<rparr>) (mmu_new idle_hw blank_eeprom)"

definition press_middle :: "mmu \<Rightarrow> mmu" where
  "press_middle = inp (enqueue Ev_Middle)"

definition idler_homed :: "mmu \<Rightarrow> mmu" where
  "idler_homed w =
     (mov Idler (\<lambda>m. m\<lparr>mv_homingValid := True\<rparr>) (mmu_new idle_hw blank_eeprom))\<lparr>m_base := m_base w\<rparr>"

abbreviation wait_step :: "mmu \<Rightarrow> mmu" where
  "wait_step w \<equiv> snd (WaitForModulesErrorRecovery (Cmd home) w)"

lemma all_axis: "(\<forall>a :: Axis. P a) \<longleftrightarrow> P Pulley \<and> P Selector \<and> P Idler"
  by (metis Axis.exhaust)

lemma idler_homed_fine: "CheckMovable a (idler_homed w) = E_RUNNING"
  by (simp add: CheckMovable_def idler_homed_def mmu_new_def Movable_new_def movable_states)

theorem homing_failure_is_a_detour_witness:
  "state_of (Cmd home) (wait_step (idler_homed (wait_step (press_middle (wait_step idler_failed)))))
     = state_of (Cmd home) idler_failed"
proof -
  let ?run = "\<lambda>w. (fst (WaitForModulesErrorRecovery (Cmd home) w), wait_step w)"
  let ?v1 = "press_middle (wait_step idler_failed)"
  let ?v2 = "idler_homed (wait_step ?v1)"
  have fine: "CheckMovable Selector idler_failed = E_RUNNING" "CheckMovable Pulley idler_failed = E_RUNNING"
    "CheckMovable Selector ?v1 = E_RUNNING" "CheckMovable Pulley ?v1 = E_RUNNING" by code_simp+
  have others: "\<forall>b. b \<noteq> Idler \<longrightarrow> CheckMovable b idler_failed = E_RUNNING"
    "\<forall>b. b \<noteq> Idler \<longrightarrow> CheckMovable b ?v1 = E_RUNNING" "\<forall>b. CheckMovable b ?v2 = E_RUNNING"
    using fine by (simp_all add: all_axis idler_homed_fine)
  have run: "WaitForModulesErrorRecovery (Cmd home) w = ?run w" for w by simp
  have base: "m_base ?v1 (Cmd home) = m_base (wait_step idler_failed) (Cmd home)"
    "m_base ?v2 (Cmd home) = m_base (wait_step ?v1) (Cmd home)" "mv_homingValid (m_movable ?v2 Idler)"
    by (simp_all add: press_middle_def idler_homed_def)
  have states: "mv_state (m_movable idler_failed Idler) AND NOT OnHold = HomingFailed"
    "recovering (Cmd home) idler_failed = 0"
    "c_stateBeforeModuleFailed (m_base idler_failed (Cmd home)) = P_Empty"
    "state_of (Cmd home) idler_failed \<noteq> P_Empty"
    "fst (ConsumeEvent (m_userInput idler_failed)) \<noteq> Ev_Middle"
    "mv_state (m_movable ?v1 Idler) AND NOT OnHold = HomingFailed"
    "fst (ConsumeEvent (m_userInput ?v1)) = Ev_Middle" by code_simp+
  have "(Idler :: Axis) \<noteq> Pulley" by simp
  from homing_failure_is_a_detour[OF this states(1) others(1) states(2-5) run states(6) others(2)
      base(1) states(7) run base(2) others(3) base(3) run]
  show ?thesis by (elim conjE)
qed


text \<open>The Home command with both axes in recovery, after the idler has homed.\<close>

definition both_recover :: mmu where
  "both_recover = cmd (Cmd home) (\<lambda>c. c\<lparr>c_state := P_Homing, c_stateBeforeModuleFailed := P_Homing,
     c_recoveringMovableErrorAxisMask := 3\<rparr>) (idler_homed idler_failed)"


end
