(* ===== verification/Feed_Automata.thy ===== *)
theory Feed_Automata
  imports Command_Base
begin

text \<open>
  The four automata the commands are built from: feeding to FINDA (\<open>logic/feed_to_finda.cpp\<close>), feeding to
  the extruder (\<open>logic/feed_to_bondtech.cpp\<close>), unloading to FINDA (\<open>logic/unload_to_finda.cpp\<close>) and
  retracting from FINDA (\<open>logic/retract_from_finda.cpp\<close>). An operation works on the automaton and the
  machine; a step also returns whether the automaton has finished. The contract the four share is
  the locale \<open>automaton\<close>.
\<close>

section \<open>The contract\<close>

text \<open>Steps of an automaton, with anything that happens to the machine before each of them.\<close>

fun run_automaton :: "('s \<times> mmu \<Rightarrow> bool \<times> 's \<times> mmu) \<Rightarrow> (mmu \<Rightarrow> mmu) list \<Rightarrow> 's \<times> mmu \<Rightarrow> 's \<times> mmu" where
  "run_automaton step [] sw = sw"
| "run_automaton step (env # envs) (s, w) = run_automaton step envs (snd (step (s, env w)))"

lemma run_invariant:
  assumes "I (fst sw) (snd sw)" "\<And>s w. I s w \<Longrightarrow> I (fst (snd (step (s, w)))) (snd (snd (step (s, w))))"
    and "\<And>env s w. env \<in> set envs \<Longrightarrow> I s w \<Longrightarrow> I s (env w)"
  shows "I (fst (run_automaton step envs sw)) (snd (run_automaton step envs sw))"
  using assms
proof (induction envs arbitrary: sw)
  case (Cons env envs)
  obtain s w where sw: "sw = (s, w)" by fastforce
  have "I (fst (snd (step (s, env w)))) (snd (snd (step (s, env w))))"
    using Cons.prems by (simp add: sw)
  with Cons.IH[of "snd (step (s, env w))"] Cons.prems(2,3) show ?case by (simp add: sw)
qed simp

text \<open>
  An automaton keeps the machine consistent, only reports that it has finished in a final
  state, and does nothing more once it is there.
\<close>

locale automaton =
  fixes step :: "'s \<times> mmu \<Rightarrow> bool \<times> 's \<times> mmu" and final :: "'s \<Rightarrow> bool"
  assumes step_wf: "mmu_wf w \<Longrightarrow> mmu_wf (snd (snd (step (s, w))))"
    and step_final: "final s \<Longrightarrow> step (s, w) = (True, s, w)"
    and finished_final: "fst (step (s, w)) \<Longrightarrow> final (fst (snd (step (s, w))))"
begin

lemma run_wf:
  assumes "mmu_wf w" "\<And>env v. env \<in> set envs \<Longrightarrow> mmu_wf v \<Longrightarrow> mmu_wf (env v)"
  shows "mmu_wf (snd (run_automaton step envs (s, w)))"
  using assms
proof (induction envs arbitrary: s w)
  case (Cons env envs)
  obtain r s' w' where st: "step (s, env w) = (r, s', w')" by (metis prod_cases3)
  have "mmu_wf w'" using step_wf[of "env w" s] Cons.prems by (simp add: st)
  with Cons.IH[of w' s'] Cons.prems(2) show ?case by (simp add: st)
qed simp

lemma run_final: "final s \<Longrightarrow> run_automaton step envs (s, w) = (s, fold (\<lambda>env. env) envs w)"
  by (induction envs arbitrary: w) (simp_all add: step_final)

lemma finished_stays:
  assumes "step (s, w) = (True, s', w')"
  shows "fst (run_automaton step envs (s', w')) = s'"
  using finished_final[of s w] assms by (simp add: run_final)

end

text \<open>Every change of an automaton's own state is progress towards a final state.\<close>

fun state_changes :: "('s \<times> mmu \<Rightarrow> bool \<times> 's \<times> mmu) \<Rightarrow> (mmu \<Rightarrow> mmu) list \<Rightarrow> 's \<times> mmu \<Rightarrow> nat" where
  "state_changes step [] sw = 0"
| "state_changes step (env # envs) (s, w) =
     (let (_, s', w') = step (s, env w)
      in (if s' = s then 0 else 1) + state_changes step envs (s', w'))"

locale progressing_automaton = automaton +
  fixes rank :: "'a \<Rightarrow> nat"
  assumes progress: "fst (snd (step (s, w))) = s \<or> rank (fst (snd (step (s, w)))) < rank s"
begin

lemma state_changes_bounded: "state_changes step envs sw \<le> rank (fst sw)"
proof (induction envs arbitrary: sw)
  case (Cons env envs)
  obtain s w where sw: "sw = (s, w)" by fastforce
  obtain r s' w' where st: "step (s, env w) = (r, s', w')" by (metis prod_cases3)
  have "s' = s \<or> rank s' < rank s" using progress[of s "env w"] by (simp add: st)
  with Cons.IH[of "(s', w')"] show ?case by (auto simp: st sw)
qed simp

end

section \<open>Feeding to FINDA\<close>

datatype FeedToFindaState =
  FTF_EngagingIdler | FTF_PushingFilament | FTF_PushingFilamentUnlimited | FTF_UnloadBackToPTFE
  | FTF_DisengagingIdler | FTF_OK | FTF_Failed | FTF_Stopped

record FeedToFinda =
  ftf_state :: FeedToFindaState
  ftf_feedPhaseLimited :: bool
  ftf_haltAtEnd :: bool

definition FeedToFinda_new :: FeedToFinda where
  "FeedToFinda_new = \<lparr>ftf_state = FTF_OK, ftf_feedPhaseLimited = True, ftf_haltAtEnd = False\<rparr>"

definition FeedToFinda_Reset :: "bool \<Rightarrow> bool \<Rightarrow> FeedToFinda \<times> mmu \<Rightarrow> bool \<times> FeedToFinda \<times> mmu" where
  "FeedToFinda_Reset feedPhaseLimited haltAtEnd = (\<lambda>(f, w).
     let f = f\<lparr>ftf_state := FTF_EngagingIdler, ftf_feedPhaseLimited := feedPhaseLimited,
               ftf_haltAtEnd := haltAtEnd\<rparr>;
         w = led (ActiveSlotProcessing (active_slot w)) w;
         (r, w) = Selector_MoveToSlot (active_slot w) w
     in if r \<noteq> Accepted then (False, f, w)
        else (True, f, snd (Idler_Engage (active_slot w) w)))"

definition plan_feed :: "mmu \<Rightarrow> mmu" where
  "plan_feed w = Pulley_PlanMove maximumFeedToFinda (PulleySlowFeedrate_mm_s (m_globals w)) 0 w"

definition FeedToFinda_Step :: "FeedToFinda \<times> mmu \<Rightarrow> bool \<times> FeedToFinda \<times> mmu" where
  "FeedToFinda_Step = (\<lambda>(f, w).
     case ftf_state f of
       FTF_EngagingIdler \<Rightarrow>
         if Engaged w \<and> mv_currentSlot (m_movable w Selector) = active_slot w then
           let w = plan_feed (Pulley_InitAxis w);
               (f, w) = (if ftf_feedPhaseLimited f then (f\<lparr>ftf_state := FTF_PushingFilament\<rparr>, w)
                         else (f\<lparr>ftf_state := FTF_PushingFilamentUnlimited\<rparr>, plan_feed w));
               w = set_filament (active_slot w) InSelector w
           in (False, f, inp UserInput_Clear w)
         else (False, f, w)
     | FTF_PushingFilament \<Rightarrow>
         if finda_pressed w then
           let w = mot (Motion_AbortPlannedMoves (ftf_haltAtEnd f)) w;
               w = set_filament (active_slot w) InSelector w
           in (True, f\<lparr>ftf_state := FTF_OK\<rparr>, w)
         else if Motion_QueueEmpty (m_motion w) then
           (False, f\<lparr>ftf_state := FTF_Failed\<rparr>, led (ActiveSlotError (active_slot w)) w)
         else (False, f, w)
     | FTF_PushingFilamentUnlimited \<Rightarrow>
         if finda_pressed w \<or> AnyEvent (m_userInput w) then
           let w = mot (Motion_AbortPlannedMoves (ftf_haltAtEnd f)) w;
               w = set_filament (active_slot w) InSelector w;
               f = f\<lparr>ftf_state := (if AnyEvent (m_userInput w) then FTF_Stopped else FTF_OK)\<rparr>
           in (True, f, inp UserInput_Clear w)
         else if Motion_PlannedMoves Pulley (m_motion w) < 2 then (False, f, plan_feed w)
         else (False, f, w)
     | _ \<Rightarrow> (True, f, w))"

definition ftf_final :: "FeedToFinda \<Rightarrow> bool" where
  "ftf_final f \<longleftrightarrow> ftf_state f \<notin> {FTF_EngagingIdler, FTF_PushingFilament, FTF_PushingFilamentUnlimited}"

fun ftf_rank :: "FeedToFindaState \<Rightarrow> nat" where
  "ftf_rank FTF_EngagingIdler = 2" | "ftf_rank FTF_PushingFilament = 1"
| "ftf_rank FTF_PushingFilamentUnlimited = 1" | "ftf_rank _ = 0"

section \<open>Feeding to the extruder\<close>

datatype FeedToBondtechState =
  FTB_EngagingIdler | FTB_PushingFilamentFast | FTB_PushingFilamentToFSensor
  | FTB_PushingFilamentIntoNozzle | FTB_PartiallyDisengagingIdler | FTB_DisengagingIdler
  | FTB_OK | FTB_Failed | FTB_FSensorTooEarly

record FeedToBondtech =
  ftb_state :: FeedToBondtechState
  ftb_maxRetries :: u8

definition FeedToBondtech_new :: FeedToBondtech where
  "FeedToBondtech_new = \<lparr>ftb_state = FTB_OK, ftb_maxRetries = 1\<rparr>"

definition FeedToBondtech_Reset :: "u8 \<Rightarrow> FeedToBondtech \<times> mmu \<Rightarrow> FeedToBondtech \<times> mmu" where
  "FeedToBondtech_Reset maxRetries = (\<lambda>(f, w).
     let w = led (ActiveSlotProcessing (active_slot w)) w
     in (f\<lparr>ftb_state := FTB_EngagingIdler, ftb_maxRetries := maxRetries\<rparr>,
         snd (Idler_Engage (active_slot w) w)))"

definition GoToPushToNozzle :: "FeedToBondtech \<times> mmu \<Rightarrow> FeedToBondtech \<times> mmu" where
  "GoToPushToNozzle = (\<lambda>(f, w).
     let w = set_filament (active_slot w) InFSensor w;
         w = Pulley_PlanMove (FSensorToNozzle_mm (m_globals w)) (PulleySlowFeedrate_mm_s (m_globals w)) 0 w
     in (f\<lparr>ftb_state := FTB_PushingFilamentIntoNozzle\<rparr>, w))"

definition FeedToBondtech_Step :: "FeedToBondtech \<times> mmu \<Rightarrow> bool \<times> FeedToBondtech \<times> mmu" where
  "FeedToBondtech_Step = (\<lambda>(f, w).
     let slow = PulleySlowFeedrate_mm_s (m_globals w) in
     case ftb_state f of
       FTB_EngagingIdler \<Rightarrow>
         if Engaged w then
           let w = Pulley_InitAxis w;
               fastFeedDistance = unit_of_u16 (BowdenLength_Get (m_eeprom w));
               w = Pulley_PlanMove fastFeedDistance (PulleyLoadFeedrate_mm_s (m_globals w)) slow w;
               w = Pulley_PlanMove (maximumBowdenLength - fastFeedDistance) slow slow w
           in (False, f\<lparr>ftb_state := FTB_PushingFilamentFast\<rparr>, w)
         else (False, f, w)
     | FTB_PushingFilamentFast \<Rightarrow>
         if fsensor_pressed w then
           (False, f\<lparr>ftb_state := FTB_FSensorTooEarly\<rparr>, mot (Motion_AbortPlannedMoves True) w)
         else if Motion_PlannedMoves Pulley (m_motion w) = 1 then
           (False, f\<lparr>ftb_state := FTB_PushingFilamentToFSensor\<rparr>, w)
         else (False, f, w)
     | FTB_PushingFilamentToFSensor \<Rightarrow>
         if fsensor_pressed w then
           (False, GoToPushToNozzle (f, mot (Motion_AbortPlannedMoves True) w))
         else if Motion_QueueEmpty (m_motion w) then (False, f\<lparr>ftb_state := FTB_Failed\<rparr>, w)
         else (False, f, w)
     | FTB_PushingFilamentIntoNozzle \<Rightarrow>
         if Motion_QueueEmpty (m_motion w) then
           let w = set_filament (active_slot w) InNozzle w;
               w = snd (Idler_PartiallyDisengage (active_slot w) w);
               w = Pulley_PlanMove fsensorToNozzleAvoidGrind slow 0 w
           in (False, f\<lparr>ftb_state := FTB_PartiallyDisengagingIdler\<rparr>, w)
         else (False, f, w)
     | FTB_PartiallyDisengagingIdler \<Rightarrow>
         if PartiallyDisengaged w then
           let w = Pulley_Disable (mot (Motion_AbortPlannedMoves_axis Pulley True) w)
           in (False, f\<lparr>ftb_state := FTB_DisengagingIdler\<rparr>, snd (Idler_Disengage w))
         else (False, f, w)
     | FTB_DisengagingIdler \<Rightarrow>
         if Disengaged w then
           (False, f\<lparr>ftb_state := FTB_OK\<rparr>, led (ActiveSlotDonePrimed (active_slot w)) w)
         else (False, f, w)
     | _ \<Rightarrow> (True, f, w))"

definition ftb_final :: "FeedToBondtech \<Rightarrow> bool" where
  "ftb_final f \<longleftrightarrow> ftb_state f \<in> {FTB_OK, FTB_Failed, FTB_FSensorTooEarly}"

fun ftb_rank :: "FeedToBondtechState \<Rightarrow> nat" where
  "ftb_rank FTB_EngagingIdler = 6" | "ftb_rank FTB_PushingFilamentFast = 5"
| "ftb_rank FTB_PushingFilamentToFSensor = 4" | "ftb_rank FTB_PushingFilamentIntoNozzle = 3"
| "ftb_rank FTB_PartiallyDisengagingIdler = 2" | "ftb_rank FTB_DisengagingIdler = 1" | "ftb_rank _ = 0"

section \<open>Unloading to FINDA\<close>

datatype UnloadToFindaState =
  UTF_EngagingIdler | UTF_UnloadingToFinda | UTF_WaitingForFINDA | UTF_OK | UTF_FailedFINDA
  | UTF_FailedFSensor

record UnloadToFinda =
  utf_state :: UnloadToFindaState
  utf_maxTries :: u8
  utf_unloadStart_mm :: i32
  utf_started_ms :: u16

definition UnloadToFinda_new :: UnloadToFinda where
  "UnloadToFinda_new = \<lparr>utf_state = UTF_OK, utf_maxTries = 3, utf_unloadStart_mm = 0, utf_started_ms = 0\<rparr>"

definition UnloadToFinda_Reset :: "u8 \<Rightarrow> UnloadToFinda \<times> mmu \<Rightarrow> UnloadToFinda \<times> mmu" where
  "UnloadToFinda_Reset maxTries = (\<lambda>(f, w).
     let f = f\<lparr>utf_maxTries := maxTries\<rparr>
     in if \<not> finda_pressed w then (f\<lparr>utf_state := UTF_OK\<rparr>, w)
        else
          let w = snd (Idler_PartiallyDisengage (active_slot w) w)
          in (f\<lparr>utf_state := UTF_EngagingIdler, utf_started_ms := m_ms w\<rparr>,
              led (ActiveSlotProcessing (active_slot w)) w))"

text \<open>The distance pulled since \<open>start\<close> is compared as a signed number.\<close>

definition pulled_further :: "i32 \<Rightarrow> mmu \<Rightarrow> bool" where
  "pulled_further start w \<longleftrightarrow>
     sint (truncatedUnit (FSensorUnloadCheck_mm (m_globals w)) 1)
       < sint (abs_i32 (start - Pulley_CurrentPosition_mm w))"

definition UnloadToFinda_Step :: "UnloadToFinda \<times> mmu \<Rightarrow> bool \<times> UnloadToFinda \<times> mmu" where
  "UnloadToFinda_Step = (\<lambda>(f, w).
     case utf_state f of
       UTF_EngagingIdler \<Rightarrow>
         if \<not> PartiallyDisengaged w then (False, f, w)
         else if fsensor_pressed w then
           (False, (if Elapsed (m_ms w) (utf_started_ms f) 4000 then f\<lparr>utf_state := UTF_FailedFSensor\<rparr> else f), w)
         else if InSelector \<le> filament_loaded w then
           let w = snd (Idler_Engage (active_slot w) (Pulley_InitAxis w));
               slow = PulleySlowFeedrate_mm_s (m_globals w)
           in (False, f\<lparr>utf_state := UTF_UnloadingToFinda\<rparr>,
               Pulley_PlanMove (- fsensorToNozzleAvoidGrindUnload) slow slow w)
         else (False, f\<lparr>utf_state := UTF_FailedFINDA\<rparr>, w)
     | UTF_UnloadingToFinda \<Rightarrow>
         if Engaged w then
           let w = set_filament (active_slot w) InSelector w;
               f = f\<lparr>utf_state := UTF_WaitingForFINDA, utf_unloadStart_mm := Pulley_CurrentPosition_mm w\<rparr>
           in (False, f,
               Pulley_PlanMove (- maximumBowdenLength - feedToFinda - filamentMinLoadedToMMU)
                 (PulleyUnloadFeedrate_mm_s (m_globals w)) 0 w)
         else (False, f, w)
     | UTF_WaitingForFINDA \<Rightarrow>
         if pulled_further (utf_unloadStart_mm f) w \<and> fsensor_pressed w then
           (False, f\<lparr>utf_state := UTF_FailedFSensor\<rparr>,
            led (ActiveSlotDoneEmpty (active_slot w)) (mot (Motion_AbortPlannedMoves True) w))
         else if \<not> finda_pressed w then
           (False, f\<lparr>utf_state := UTF_OK\<rparr>,
            led (ActiveSlotDoneEmpty (active_slot w)) (mot (Motion_AbortPlannedMoves True) w))
         else if Motion_QueueEmpty (m_motion w) then
           let f = f\<lparr>utf_maxTries := utf_maxTries f - 1\<rparr>
           in if utf_maxTries f \<noteq> 0 then
                (False, UnloadToFinda_Reset (utf_maxTries f) (f, MB_InvalidateHoming Idler w))
              else (False, f\<lparr>utf_state := UTF_FailedFINDA\<rparr>, w)
         else (False, f, w)
     | _ \<Rightarrow> (True, f, w))"

definition utf_final :: "UnloadToFinda \<Rightarrow> bool" where
  "utf_final f \<longleftrightarrow> utf_state f \<in> {UTF_OK, UTF_FailedFINDA, UTF_FailedFSensor}"

text \<open>A counter of 0 wraps around, it stands for 256 tries.\<close>

definition tries :: "u8 \<Rightarrow> nat" where "tries n = (if n = 0 then 256 else unat n)"

fun utf_phase :: "UnloadToFindaState \<Rightarrow> nat" where
  "utf_phase UTF_EngagingIdler = 2" | "utf_phase UTF_UnloadingToFinda = 1" | "utf_phase _ = 0"

definition utf_rank :: "UnloadToFinda \<Rightarrow> nat" where
  "utf_rank f = (if utf_final f then 0 else 3 * (tries (utf_maxTries f) - 1) + utf_phase (utf_state f) + 1)"

section \<open>Retracting from FINDA\<close>

datatype RetractFromFindaState = RFF_EngagingIdler | RFF_UnloadBackToPTFE | RFF_OK | RFF_Failed

type_synonym RetractFromFinda = RetractFromFindaState

definition RetractFromFinda_new :: RetractFromFinda where "RetractFromFinda_new = RFF_OK"

definition RetractFromFinda_Reset :: "mmu \<Rightarrow> RetractFromFinda \<times> mmu" where
  "RetractFromFinda_Reset w =
     (let w = led (ActiveSlotProcessing (active_slot w)) w
      in (RFF_EngagingIdler, snd (Idler_Engage (active_slot w) w)))"

definition RetractFromFinda_Step :: "RetractFromFinda \<times> mmu \<Rightarrow> bool \<times> RetractFromFinda \<times> mmu" where
  "RetractFromFinda_Step = (\<lambda>(r, w).
     case r of
       RFF_EngagingIdler \<Rightarrow>
         if Engaged w then
           (False, RFF_UnloadBackToPTFE,
            Pulley_PlanMove (- (cuttingEdgeToFindaMidpoint + cuttingEdgeRetract))
              (PulleyUnloadFeedrate_mm_s (m_globals w)) 0 w)
         else (False, r, w)
     | RFF_UnloadBackToPTFE \<Rightarrow>
         if Motion_QueueEmpty (m_motion w) then
           if \<not> finda_pressed w then
             let w = set_filament (active_slot w) AtPulley w
             in (False, RFF_OK, led (ActiveSlotDoneEmpty (active_slot w)) w)
           else (False, RFF_Failed, led (ActiveSlotError (active_slot w)) w)
         else (False, r, w)
     | _ \<Rightarrow> (True, r, w))"

definition rff_final :: "RetractFromFinda \<Rightarrow> bool" where
  "rff_final r \<longleftrightarrow> r \<in> {RFF_OK, RFF_Failed}"

fun rff_rank :: "RetractFromFindaState \<Rightarrow> nat" where
  "rff_rank RFF_EngagingIdler = 2" | "rff_rank RFF_UnloadBackToPTFE = 1" | "rff_rank _ = 0"

section \<open>The automata fulfil the contract\<close>

text \<open>Consistency of the machine, as introduction rules for whole branches.\<close>

lemma mmu_wf_abort: "mmu_wf w \<Longrightarrow> mmu_wf (mot (Motion_AbortPlannedMoves halt) w)"
  by (intro mmu_wf_mot motion_wf_Abort)

lemma mmu_wf_abort_axis: "mmu_wf w \<Longrightarrow> mmu_wf (mot (Motion_AbortPlannedMoves_axis a halt) w)"
  by (intro mmu_wf_mot motion_wf_Abort_axis)

lemma mmu_wf_leds:
  assumes "mmu_wf w"
  shows "mmu_wf (led (ActiveSlotProcessing sl) w)" "mmu_wf (led (ActiveSlotError sl) w)"
    "mmu_wf (led (ActiveSlotDoneEmpty sl) w)" "mmu_wf (led (ActiveSlotDonePrimed sl) w)"
    "mmu_wf (led LEDs_SetAllOff w)"
  by (intro mmu_wf_led[OF assms]; simp)+

lemma mmu_wf_clear: "mmu_wf w \<Longrightarrow> mmu_wf (inp UserInput_Clear w)"
  by (intro mmu_wf_inp UserInput_Clear_wf)

lemma plan_feed_wf: "mmu_wf w \<Longrightarrow> mmu_wf (plan_feed w)"
  by (simp add: plan_feed_def Pulley_ops_wf)

lemmas command_wf = mmu_wf_abort mmu_wf_abort_axis mmu_wf_leds mmu_wf_clear plan_feed_wf Pulley_ops_wf
  Idler_requests_wf Selector_MoveToSlot_wf simple_movable_ops_wf base_helpers_wf hold_resume_wf

lemma FeedToFinda_Reset_wf [mmu_inv]: "mmu_wf w \<Longrightarrow> mmu_wf (snd (snd (FeedToFinda_Reset l h (f, w))))"
  by (auto simp: FeedToFinda_Reset_def Let_def case_prod_beta intro!: command_wf)

lemma FeedToFinda_Step_wf: "mmu_wf w \<Longrightarrow> mmu_wf (snd (snd (FeedToFinda_Step (f, w))))"
  by (cases "ftf_state f") (auto simp: FeedToFinda_Step_def Let_def case_prod_beta intro!: command_wf)

lemma FeedToBondtech_Reset_wf [mmu_inv]: "mmu_wf w \<Longrightarrow> mmu_wf (snd (FeedToBondtech_Reset n (f, w)))"
  by (auto simp: FeedToBondtech_Reset_def Let_def intro!: command_wf)

lemma FeedToBondtech_Step_wf: "mmu_wf w \<Longrightarrow> mmu_wf (snd (snd (FeedToBondtech_Step (f, w))))"
  by (cases "ftb_state f")
    (auto simp: FeedToBondtech_Step_def GoToPushToNozzle_def Let_def case_prod_beta intro!: command_wf)

lemma UnloadToFinda_Reset_wf [mmu_inv]: "mmu_wf w \<Longrightarrow> mmu_wf (snd (UnloadToFinda_Reset n (f, w)))"
  by (auto simp: UnloadToFinda_Reset_def Let_def intro!: command_wf)

lemma UnloadToFinda_Step_wf: "mmu_wf w \<Longrightarrow> mmu_wf (snd (snd (UnloadToFinda_Step (f, w))))"
  by (cases "utf_state f")
    (auto simp: UnloadToFinda_Step_def Let_def intro!: command_wf UnloadToFinda_Reset_wf)

lemma RetractFromFinda_Reset_wf [mmu_inv]: "mmu_wf w \<Longrightarrow> mmu_wf (snd (RetractFromFinda_Reset w))"
  by (auto simp: RetractFromFinda_Reset_def Let_def intro!: command_wf)

lemma RetractFromFinda_Step_wf: "mmu_wf w \<Longrightarrow> mmu_wf (snd (snd (RetractFromFinda_Step (r, w))))"
  by (cases r) (auto simp: RetractFromFinda_Step_def Let_def intro!: command_wf)

interpretation feed: progressing_automaton FeedToFinda_Step ftf_final "(\<lambda>f. ftf_rank (ftf_state f))"
proof (unfold_locales)
  show "ftf_final s \<Longrightarrow> FeedToFinda_Step (s, w) = (True, s, w)" for s w
    by (cases "ftf_state s") (auto simp: FeedToFinda_Step_def ftf_final_def)
  show "fst (FeedToFinda_Step (s, w)) \<Longrightarrow> ftf_final (fst (snd (FeedToFinda_Step (s, w))))" for s w
    by (cases "ftf_state s") (auto simp: FeedToFinda_Step_def ftf_final_def Let_def split: if_splits)
  show "fst (snd (FeedToFinda_Step (s, w))) = s
      \<or> (\<lambda>f. ftf_rank (ftf_state f)) (fst (snd (FeedToFinda_Step (s, w)))) < (\<lambda>f. ftf_rank (ftf_state f)) s" for s w
    by (cases "ftf_state s") (auto simp: FeedToFinda_Step_def Let_def split: if_splits)
qed (rule FeedToFinda_Step_wf)

interpretation bondtech: progressing_automaton FeedToBondtech_Step ftb_final "(\<lambda>f. ftb_rank (ftb_state f))"
proof (unfold_locales)
  show "ftb_final s \<Longrightarrow> FeedToBondtech_Step (s, w) = (True, s, w)" for s w
    by (cases "ftb_state s") (auto simp: FeedToBondtech_Step_def ftb_final_def)
  show "fst (FeedToBondtech_Step (s, w)) \<Longrightarrow> ftb_final (fst (snd (FeedToBondtech_Step (s, w))))" for s w
    by (cases "ftb_state s") (auto simp: FeedToBondtech_Step_def ftb_final_def Let_def split: if_splits)
  show "fst (snd (FeedToBondtech_Step (s, w))) = s
      \<or> (\<lambda>f. ftb_rank (ftb_state f)) (fst (snd (FeedToBondtech_Step (s, w)))) < (\<lambda>f. ftb_rank (ftb_state f)) s" for s w
    by (cases "ftb_state s") (auto simp: FeedToBondtech_Step_def GoToPushToNozzle_def Let_def split: if_splits)
qed (rule FeedToBondtech_Step_wf)

lemma tries_pred: "n \<noteq> 1 \<Longrightarrow> tries (n - 1) = tries n - 1"
proof (cases "n = 0")
  case True
  have "unat (- 1 :: u8) = 255" by (simp add: unsigned_minus_1_eq_mask mask_eq_exp_minus_1)
  with True show ?thesis by (simp add: tries_def)
next
  case False
  assume "n \<noteq> 1"
  with False have "n - 1 \<noteq> 0" "unat (n - 1) = unat n - 1" by (simp_all add: unat_minus_one)
  with False show ?thesis by (simp add: tries_def)
qed

lemma tries_retry: "n \<noteq> 1 \<Longrightarrow> 2 \<le> tries n"
proof (cases "n = 0")
  case False
  assume "n \<noteq> 1"
  with False have "unat n \<noteq> unat (0 :: u8)" "unat n \<noteq> unat (1 :: u8)" by (simp_all only: word_unat_eq_iff not_False_eq_True)
  then have "unat n \<noteq> 0" "unat n \<noteq> 1" by simp_all
  with False show ?thesis by (simp add: tries_def)
qed (simp add: tries_def)

lemma UnloadToFinda_progress:
  "fst (snd (UnloadToFinda_Step (f, w))) = f \<or> utf_rank (fst (snd (UnloadToFinda_Step (f, w)))) < utf_rank f"
proof (cases "utf_state f")
  case UTF_WaitingForFINDA
  then show ?thesis using tries_retry[of "utf_maxTries f"] tries_pred[of "utf_maxTries f"]
    by (auto simp: UnloadToFinda_Step_def UnloadToFinda_Reset_def utf_rank_def utf_final_def Let_def split: if_splits)
qed (auto simp: UnloadToFinda_Step_def utf_rank_def utf_final_def Let_def split: if_splits)

interpretation unload: progressing_automaton UnloadToFinda_Step utf_final utf_rank
proof (unfold_locales)
  show "utf_final s \<Longrightarrow> UnloadToFinda_Step (s, w) = (True, s, w)" for s w
    by (cases "utf_state s") (auto simp: UnloadToFinda_Step_def utf_final_def)
  show "fst (UnloadToFinda_Step (s, w)) \<Longrightarrow> utf_final (fst (snd (UnloadToFinda_Step (s, w))))" for s w
    by (cases "utf_state s") (auto simp: UnloadToFinda_Step_def utf_final_def Let_def split: if_splits)
qed (rule UnloadToFinda_Step_wf, assumption, rule UnloadToFinda_progress)

interpretation retract: progressing_automaton RetractFromFinda_Step rff_final "rff_rank"
proof (unfold_locales)
  show "rff_final s \<Longrightarrow> RetractFromFinda_Step (s, w) = (True, s, w)" for s w
    by (cases s) (auto simp: RetractFromFinda_Step_def rff_final_def)
  show "fst (RetractFromFinda_Step (s, w)) \<Longrightarrow> rff_final (fst (snd (RetractFromFinda_Step (s, w))))" for s w
    by (cases s) (auto simp: RetractFromFinda_Step_def rff_final_def Let_def split: if_splits)
  show "fst (snd (RetractFromFinda_Step (s, w))) = s
      \<or> rff_rank (fst (snd (RetractFromFinda_Step (s, w)))) < rff_rank s" for s w
    by (cases "s") (auto simp: RetractFromFinda_Step_def Let_def split: if_splits)
qed (rule RetractFromFinda_Step_wf)

section \<open>Properties\<close>

text \<open>C27: the automata make progress. Whatever happens to the machine between the steps, feeding to FINDA
  changes its state at most twice after a reset, feeding to the extruder six times, retracting twice and
  unloading to FINDA three times per allowed try; so an automaton can only wait for a sensor, the idler
  or a move, never cycle. With one allowed try, which is what the unload command asks for, unloading
  is never repeated.\<close>

theorem automata_progress:
  "state_changes FeedToFinda_Step envs (snd (FeedToFinda_Reset limited halt (f1, w))) \<le> 2
   \<and> state_changes FeedToBondtech_Step envs (FeedToBondtech_Reset n (f2, w)) \<le> 6
   \<and> state_changes UnloadToFinda_Step envs (UnloadToFinda_Reset n (f3, w)) \<le> 3 * tries n
   \<and> state_changes RetractFromFinda_Step envs (RetractFromFinda_Reset w) \<le> 2"
proof (intro conjI)
  let ?r1 = "snd (FeedToFinda_Reset limited halt (f1, w))" and ?r2 = "FeedToBondtech_Reset n (f2, w)"
  let ?r3 = "UnloadToFinda_Reset n (f3, w)" and ?r4 = "RetractFromFinda_Reset w"
  have "ftf_rank (ftf_state (fst ?r1)) \<le> 2" by (simp add: FeedToFinda_Reset_def Let_def case_prod_beta)
  then show "state_changes FeedToFinda_Step envs ?r1 \<le> 2"
    using feed.state_changes_bounded[of envs ?r1] by simp
  have "ftb_rank (ftb_state (fst ?r2)) \<le> 6" by (simp add: FeedToBondtech_Reset_def Let_def)
  then show "state_changes FeedToBondtech_Step envs ?r2 \<le> 6"
    using bondtech.state_changes_bounded[of envs ?r2] by simp
  have "n = 1 \<or> 2 \<le> tries n" using tries_retry by blast
  then obtain k where "tries n = Suc k" by (cases "tries n") (auto simp: tries_def)
  then have "utf_rank (fst ?r3) \<le> 3 * tries n"
    by (simp add: UnloadToFinda_Reset_def utf_rank_def utf_final_def Let_def)
  then show "state_changes UnloadToFinda_Step envs ?r3 \<le> 3 * tries n"
    using unload.state_changes_bounded[of envs ?r3] by simp
  have "rff_rank (fst ?r4) \<le> 2" by (simp add: RetractFromFinda_Reset_def Let_def)
  then show "state_changes RetractFromFinda_Step envs ?r4 \<le> 2"
    using retract.state_changes_bounded[of envs ?r4] by simp
qed

text \<open>C28: a verdict of an automaton agrees with the sensors at the step it is reached. Feeding to FINDA
  succeeds only with FINDA pressed and fails only with FINDA off and no move left; feeding to the extruder
  fails only with the printer's sensor off and no move left, or with the sensor on during the fast move;
  unloading succeeds only with FINDA off and reports the printer's sensor only if that is pressed;
  retracting succeeds only with FINDA off and fails only with FINDA on.\<close>

theorem verdicts_match_sensors:
  "(case FeedToFinda_Step (f1, w) of (_, f', _) \<Rightarrow> f' \<noteq> f1 \<longrightarrow>
     (ftf_state f' = FTF_OK \<longrightarrow> finda_pressed w)
     \<and> (ftf_state f' = FTF_Failed \<longrightarrow> \<not> finda_pressed w \<and> Motion_QueueEmpty (m_motion w))
     \<and> (ftf_state f' = FTF_Stopped \<longrightarrow> \<not> ftf_feedPhaseLimited f1 \<or> AnyEvent (m_userInput w)))
   \<and> (case FeedToBondtech_Step (f2, w) of (_, f', _) \<Rightarrow> f' \<noteq> f2 \<longrightarrow>
     (ftb_state f' = FTB_Failed \<longrightarrow> \<not> fsensor_pressed w \<and> Motion_QueueEmpty (m_motion w))
     \<and> (ftb_state f' = FTB_FSensorTooEarly \<longrightarrow> fsensor_pressed w)
     \<and> (ftb_state f' = FTB_PushingFilamentIntoNozzle \<longrightarrow> fsensor_pressed w)
     \<and> (ftb_state f' = FTB_OK \<longrightarrow> Disengaged w))
   \<and> (case UnloadToFinda_Step (f3, w) of (_, f', _) \<Rightarrow> f' \<noteq> f3 \<longrightarrow>
     (utf_state f' = UTF_OK \<longrightarrow> \<not> finda_pressed w)
     \<and> (utf_state f' = UTF_FailedFSensor \<longrightarrow> fsensor_pressed w)
     \<and> (utf_state f' = UTF_FailedFINDA \<longrightarrow>
          filament_loaded w < InSelector \<or> finda_pressed w \<and> Motion_QueueEmpty (m_motion w)))
   \<and> (case RetractFromFinda_Step (r, w) of (_, r', _) \<Rightarrow> r' \<noteq> r \<longrightarrow>
     (r' = RFF_OK \<longrightarrow> \<not> finda_pressed w) \<and> (r' = RFF_Failed \<longrightarrow> finda_pressed w))"
proof (intro conjI)
  show "case FeedToFinda_Step (f1, w) of (_, f', _) \<Rightarrow> f' \<noteq> f1 \<longrightarrow>
     (ftf_state f' = FTF_OK \<longrightarrow> finda_pressed w)
     \<and> (ftf_state f' = FTF_Failed \<longrightarrow> \<not> finda_pressed w \<and> Motion_QueueEmpty (m_motion w))
     \<and> (ftf_state f' = FTF_Stopped \<longrightarrow> \<not> ftf_feedPhaseLimited f1 \<or> AnyEvent (m_userInput w))"
    by (cases "ftf_state f1") (simp_all add: FeedToFinda_Step_def Let_def)
  show "case FeedToBondtech_Step (f2, w) of (_, f', _) \<Rightarrow> f' \<noteq> f2 \<longrightarrow>
     (ftb_state f' = FTB_Failed \<longrightarrow> \<not> fsensor_pressed w \<and> Motion_QueueEmpty (m_motion w))
     \<and> (ftb_state f' = FTB_FSensorTooEarly \<longrightarrow> fsensor_pressed w)
     \<and> (ftb_state f' = FTB_PushingFilamentIntoNozzle \<longrightarrow> fsensor_pressed w)
     \<and> (ftb_state f' = FTB_OK \<longrightarrow> Disengaged w)"
    by (cases "ftb_state f2") (simp_all add: FeedToBondtech_Step_def GoToPushToNozzle_def Let_def)
  show "case UnloadToFinda_Step (f3, w) of (_, f', _) \<Rightarrow> f' \<noteq> f3 \<longrightarrow>
     (utf_state f' = UTF_OK \<longrightarrow> \<not> finda_pressed w)
     \<and> (utf_state f' = UTF_FailedFSensor \<longrightarrow> fsensor_pressed w)
     \<and> (utf_state f' = UTF_FailedFINDA \<longrightarrow>
          filament_loaded w < InSelector \<or> finda_pressed w \<and> Motion_QueueEmpty (m_motion w))"
    by (cases "utf_state f3")
      (auto simp: UnloadToFinda_Step_def UnloadToFinda_Reset_def Let_def)
  show "case RetractFromFinda_Step (r, w) of (_, r', _) \<Rightarrow> r' \<noteq> r \<longrightarrow>
     (r' = RFF_OK \<longrightarrow> \<not> finda_pressed w) \<and> (r' = RFF_Failed \<longrightarrow> finda_pressed w)"
    by (cases r) (simp_all add: RetractFromFinda_Step_def Let_def)
qed

theorem verdicts_match_sensors_witness:
  "\<not> finda_pressed (mmu_new idle_hw blank_eeprom)
   \<and> Motion_QueueEmpty (m_motion (mmu_new idle_hw blank_eeprom))"
proof -
  let ?w = "mmu_new idle_hw blank_eeprom" and ?f = "FeedToFinda_new\<lparr>ftf_state := FTF_PushingFilament\<rparr>"
  have "ftf_state (fst (snd (FeedToFinda_Step (?f, ?w)))) = FTF_Failed" by code_simp
  then have "ftf_state (fst (snd (FeedToFinda_Step (?f, ?w)))) = FTF_Failed" "fst (snd (FeedToFinda_Step (?f, ?w))) \<noteq> ?f"
    by auto
  with verdicts_match_sensors[of ?f ?w] show ?thesis by (auto simp: case_prod_beta)
qed

text \<open>What a run leaves recorded, per automaton.\<close>

lemma FeedToFinda_records:
  assumes "\<forall>env \<in> set envs. \<forall>v. filament_loaded (env v) = filament_loaded v"
  shows "case run_automaton FeedToFinda_Step envs (snd (FeedToFinda_Reset limited halt (f1, w))) of (f, v) \<Rightarrow>
     ftf_final f \<longrightarrow> filament_loaded v = InSelector"
proof -
  define I where "I = (\<lambda>(f :: FeedToFinda) v. ftf_state f \<noteq> FTF_EngagingIdler \<longrightarrow> filament_loaded v = InSelector)"
  have "I (fst (snd (FeedToFinda_Reset limited halt (f1, w)))) (snd (snd (FeedToFinda_Reset limited halt (f1, w))))"
    by (simp add: I_def FeedToFinda_Reset_def Let_def case_prod_beta)
  then have "I (fst (run_automaton FeedToFinda_Step envs (snd (FeedToFinda_Reset limited halt (f1, w)))))
      (snd (run_automaton FeedToFinda_Step envs (snd (FeedToFinda_Reset limited halt (f1, w)))))"
  proof (rule run_invariant[of I])
    show "I (fst (snd (FeedToFinda_Step (s, v)))) (snd (snd (FeedToFinda_Step (s, v))))" if "I s v" for s v
      using that by (cases "ftf_state s") (auto simp: I_def FeedToFinda_Step_def plan_feed_def Let_def)
    show "I s (env v)" if "env \<in> set envs" "I s v" for env s v
      using assms that by (cases "ftf_state s") (simp_all add: I_def)
  qed
  then show ?thesis by (auto simp: I_def ftf_final_def case_prod_beta split: if_splits)
qed

lemma FeedToBondtech_records:
  assumes "\<forall>env \<in> set envs. \<forall>v. filament_loaded (env v) = filament_loaded v"
  shows "case run_automaton FeedToBondtech_Step envs (FeedToBondtech_Reset n (f2, w)) of (f, v) \<Rightarrow>
     (ftb_state f = FTB_OK \<longrightarrow> filament_loaded v = InNozzle)
     \<and> (ftb_state f \<in> {FTB_Failed, FTB_FSensorTooEarly} \<longrightarrow> filament_loaded v = filament_loaded w)"
proof -
  define I where "I = (\<lambda>(f :: FeedToBondtech) v. case ftb_state f of
      FTB_PushingFilamentIntoNozzle \<Rightarrow> True
    | FTB_PartiallyDisengagingIdler \<Rightarrow> filament_loaded v = InNozzle
    | FTB_DisengagingIdler \<Rightarrow> filament_loaded v = InNozzle | FTB_OK \<Rightarrow> filament_loaded v = InNozzle
    | _ \<Rightarrow> filament_loaded v = filament_loaded w)"
  have "I (fst (FeedToBondtech_Reset n (f2, w))) (snd (FeedToBondtech_Reset n (f2, w)))"
    by (simp add: I_def FeedToBondtech_Reset_def Let_def case_prod_beta)
  then have "I (fst (run_automaton FeedToBondtech_Step envs (FeedToBondtech_Reset n (f2, w))))
      (snd (run_automaton FeedToBondtech_Step envs (FeedToBondtech_Reset n (f2, w))))"
  proof (rule run_invariant[of I])
    show "I (fst (snd (FeedToBondtech_Step (s, v)))) (snd (snd (FeedToBondtech_Step (s, v))))" if "I s v" for s v
      using that by (cases "ftb_state s") (auto simp: I_def FeedToBondtech_Step_def GoToPushToNozzle_def Let_def)
    show "I s (env v)" if "env \<in> set envs" "I s v" for env s v
      using assms that by (cases "ftb_state s") (simp_all add: I_def)
  qed
  then show ?thesis by (auto simp: I_def case_prod_beta split: if_splits)
qed

lemma UnloadToFinda_records:
  assumes "\<forall>env \<in> set envs. \<forall>v. filament_loaded (env v) = filament_loaded v"
  shows "case run_automaton UnloadToFinda_Step envs (UnloadToFinda_Reset n (f3, w)) of (f, v) \<Rightarrow>
     utf_state f = UTF_OK \<longrightarrow>
       filament_loaded v = InSelector \<or> \<not> finda_pressed w \<and> filament_loaded v = filament_loaded w"
proof -
  define I where "I = (\<lambda>(f :: UnloadToFinda) v. filament_loaded v = InSelector \<or> (case utf_state f of
      UTF_WaitingForFINDA \<Rightarrow> False
    | UTF_OK \<Rightarrow> \<not> finda_pressed w \<and> filament_loaded v = filament_loaded w | _ \<Rightarrow> True))"
  have "I (fst (UnloadToFinda_Reset n (f3, w))) (snd (UnloadToFinda_Reset n (f3, w)))"
    by (simp add: I_def UnloadToFinda_Reset_def Let_def case_prod_beta)
  then have "I (fst (run_automaton UnloadToFinda_Step envs (UnloadToFinda_Reset n (f3, w))))
      (snd (run_automaton UnloadToFinda_Step envs (UnloadToFinda_Reset n (f3, w))))"
  proof (rule run_invariant[of I])
    show "I (fst (snd (UnloadToFinda_Step (s, v)))) (snd (snd (UnloadToFinda_Step (s, v))))" if "I s v" for s v
      using that by (cases "utf_state s") (auto simp: I_def UnloadToFinda_Step_def UnloadToFinda_Reset_def Let_def)
    show "I s (env v)" if "env \<in> set envs" "I s v" for env s v
      using assms that by (cases "utf_state s") (simp_all add: I_def)
  qed
  then show ?thesis by (auto simp: I_def case_prod_beta split: if_splits)
qed

lemma RetractFromFinda_records:
  assumes "\<forall>env \<in> set envs. \<forall>v. filament_loaded (env v) = filament_loaded v"
  shows "case run_automaton RetractFromFinda_Step envs (RetractFromFinda_Reset w) of (f, v) \<Rightarrow>
     filament_loaded v = (if f = RFF_OK then AtPulley else filament_loaded w)"
proof -
  define I where "I = (\<lambda>(f :: RetractFromFinda) v. filament_loaded v = (if f = RFF_OK then AtPulley else filament_loaded w))"
  have "I (fst (RetractFromFinda_Reset w)) (snd (RetractFromFinda_Reset w))"
    by (simp add: I_def RetractFromFinda_Reset_def Let_def case_prod_beta)
  then have "I (fst (run_automaton RetractFromFinda_Step envs (RetractFromFinda_Reset w)))
      (snd (run_automaton RetractFromFinda_Step envs (RetractFromFinda_Reset w)))"
  proof (rule run_invariant[of I])
    show "I (fst (snd (RetractFromFinda_Step (s, v)))) (snd (snd (RetractFromFinda_Step (s, v))))" if "I s v" for s v
      using that by (cases "s") (auto simp: I_def RetractFromFinda_Step_def Let_def)
    show "I s (env v)" if "env \<in> set envs" "I s v" for env s v
      using assms that by (cases "s") (simp_all add: I_def)
  qed
  then show ?thesis by (auto simp: I_def case_prod_beta split: if_splits)
qed

text \<open>A finished automaton has recorded where the filament is. If nothing else moves filament
  meanwhile, a finished feed to FINDA leaves the filament recorded in the selector, a successful feed to
  the extruder in the nozzle and a successful retraction at the pulley; a feed to the extruder that never
  saw the printer's sensor and a failed retraction leave the record as it was, and so does an unload
  that had nothing to do.\<close>

theorem finished_automata_record_filament:
  assumes "\<forall>env \<in> set envs. \<forall>v. filament_loaded (env v) = filament_loaded v"
  shows "(case run_automaton FeedToFinda_Step envs (snd (FeedToFinda_Reset limited halt (f1, w))) of (f, v) \<Rightarrow>
       ftf_final f \<longrightarrow> filament_loaded v = InSelector)
    \<and> (case run_automaton FeedToBondtech_Step envs (FeedToBondtech_Reset n (f2, w)) of (f, v) \<Rightarrow>
       (ftb_state f = FTB_OK \<longrightarrow> filament_loaded v = InNozzle)
       \<and> (ftb_state f \<in> {FTB_Failed, FTB_FSensorTooEarly} \<longrightarrow> filament_loaded v = filament_loaded w))
    \<and> (case run_automaton UnloadToFinda_Step envs (UnloadToFinda_Reset n (f3, w)) of (f, v) \<Rightarrow>
       utf_state f = UTF_OK \<longrightarrow>
         filament_loaded v = InSelector \<or> \<not> finda_pressed w \<and> filament_loaded v = filament_loaded w)
    \<and> (case run_automaton RetractFromFinda_Step envs (RetractFromFinda_Reset w) of (f, v) \<Rightarrow>
       filament_loaded v = (if f = RFF_OK then AtPulley else filament_loaded w))"
  using FeedToFinda_records[OF assms] FeedToBondtech_records[OF assms] UnloadToFinda_records[OF assms]
    RetractFromFinda_records[OF assms]
  by (intro conjI)

text \<open>The idler is engaged and all moves have ended; the global state is kept.\<close>

definition idler_engaged :: "mmu \<Rightarrow> mmu" where
  "idler_engaged w = (mmu_new idle_hw blank_eeprom)\<lparr>m_globals := m_globals w, m_currentlyEngaged := engage\<rparr>"

theorem finished_automata_record_filament_witness:
  "filament_loaded (snd (run_automaton RetractFromFinda_Step [idler_engaged, idler_engaged]
     (RetractFromFinda_Reset (mmu_new idle_hw blank_eeprom)))) = AtPulley"
proof -
  let ?run = "run_automaton RetractFromFinda_Step [idler_engaged, idler_engaged]
     (RetractFromFinda_Reset (mmu_new idle_hw blank_eeprom))"
  have "\<forall>env \<in> set [idler_engaged, idler_engaged]. \<forall>v. filament_loaded (env v) = filament_loaded v"
    by (simp add: idler_engaged_def)
  from finished_automata_record_filament[OF this, THEN conjunct2, THEN conjunct2, THEN conjunct2]
  have "filament_loaded (snd ?run) = (if fst ?run = RFF_OK then AtPulley
      else filament_loaded (mmu_new idle_hw blank_eeprom))" by (simp only: case_prod_beta)
  moreover have "Motion_QueueEmpty (m_motion (mmu_new idle_hw blank_eeprom))"
    "\<not> finda_pressed (mmu_new idle_hw blank_eeprom)" by code_simp+
  then have "fst ?run = RFF_OK"
    by (simp add: RetractFromFinda_Step_def RetractFromFinda_Reset_def idler_engaged_def Engaged_def Let_def)
  ultimately show ?thesis by (simp only: refl if_True)
qed

end
