(* ===== verification/Command_Frame.thy ===== *)
theory Command_Frame
  imports Feed_Automata
begin

text \<open>
  What all commands share: the contract of a command, which the locale \<open>command\<close> states, and what the
  requests to the movables and the automata leave alone in the record of a command.
\<close>

section \<open>The contract of a command\<close>

text \<open>
  A command's step keeps the machine consistent, and a finished command does nothing.
\<close>

locale command =
  fixes ob :: obj and StepInner :: "'d \<times> mmu \<Rightarrow> bool \<times> 'd \<times> mmu"
  assumes inner_wf: "mmu_wf w \<Longrightarrow> mmu_wf (snd (snd (StepInner (d, w))))"
    and inner_finished: "state_of ob w = P_OK \<Longrightarrow> StepInner (d, w) = (True, d, w)"
begin

lemma Step_wf: "mmu_wf w \<Longrightarrow> mmu_wf (snd (snd (CommandBase_Step ob StepInner (d, w))))"
  by (intro CommandBase_Step_wf inner_wf)

lemma no_recovery:
  assumes "\<forall>a. CheckMovable a w = E_RUNNING" "recovering ob w = 0"
  shows "WaitForModulesErrorRecovery ob w = (False, w)"
  using assms by (simp add: WaitForModulesErrorRecovery_def WaitForOneModuleErrorRecovery_def)

lemma Step_inner:
  assumes "\<forall>a. CheckMovable a w = E_RUNNING" "recovering ob w = 0" "state_of ob w \<noteq> P_ERRInternal"
  shows "CommandBase_Step ob StepInner (d, w) = StepInner (d, w)"
  using no_recovery[OF assms(1,2)] assms(3) by (simp add: CommandBase_Step_def)

lemma Step_finished:
  assumes "\<forall>a. CheckMovable a w = E_RUNNING" "recovering ob w = 0" "state_of ob w = P_OK"
  shows "CommandBase_Step ob StepInner (d, w) = (True, d, w)"
  using Step_inner[OF assms(1,2)] inner_finished[OF assms(3)] assms(3) by simp

lemma Step_panicked:
  assumes "\<forall>a. CheckMovable a w = E_RUNNING" "recovering ob w = 0" "state_of ob w = P_ERRInternal"
  shows "CommandBase_Step ob StepInner (d, w) = (True, d, w)"
  using no_recovery[OF assms(1,2)] assms(3) by (simp add: CommandBase_Step_def)

end

section \<open>What requests and automata do to a command\<close>

text \<open>
  Requests and automata do not write to the record of a command, except that a full planner is a panic of
  the current command. \<open>intact\<close> says that only state and error can have changed, and only by a panic.
\<close>

definition intact :: "obj \<Rightarrow> mmu \<Rightarrow> mmu \<Rightarrow> bool" where
  "intact ob w w' \<longleftrightarrow> m_base w' ob = m_base w ob
     \<or> state_of ob w' = P_ERRInternal \<and> c_deferredErrorCode (m_base w' ob) = c_deferredErrorCode (m_base w ob)"

lemma intact_refl [intro]: "intact ob w w"
  by (simp add: intact_def)

lemma intact_trans: "intact ob u v \<Longrightarrow> intact ob v w \<Longrightarrow> intact ob u w"
  by (auto simp: intact_def state_of_def)

lemma intact_base: "m_base w' ob = m_base w ob \<Longrightarrow> intact ob w w'"
  by (simp add: intact_def)

lemma intact_state:
  "intact ob w w' \<Longrightarrow> state_of ob w' = p \<Longrightarrow> p \<noteq> P_ERRInternal \<Longrightarrow> m_base w' ob = m_base w ob"
  by (auto simp: intact_def)

lemma Panic_intact: "intact ob w (Panic ec w)"
  by (simp add: intact_def Panic_def CommandBase_Panic_def state_of_def set_error_def set_state_def)

lemma plan_move_intact: "intact ob w (plan_move_to a pos f e w)" "intact ob w (plan_move a d f e w)"
proof -
  have "intact ob u (plan_move_to a pos f e u)" for u pos
  proof -
    obtain q m where pm: "Motion_PlanMoveTo a pos f e (m_motion u) = (q, m)" by fastforce
    have "intact ob u (u\<lparr>m_motion := m\<rparr>)" by (simp add: intact_base)
    then show ?thesis using intact_trans[OF _ Panic_intact] by (simp add: plan_move_to_def pm Let_def)
  qed
  then show "intact ob w (plan_move_to a pos f e w)" "intact ob w (plan_move a d f e w)"
    by (simp_all add: plan_move_def)
qed

lemma simple_ops_base [simp]:
  "m_base (Pulley_InitAxis w) = m_base w" "m_base (Pulley_Disable w) = m_base w"
  "m_base (MB_InvalidateHoming a w) = m_base w" "m_base (MB_SetCurrents a i h w) = m_base w"
  "m_base (InvalidateHoming w) = m_base w"
  by (simp_all add: Pulley_InitAxis_def Pulley_Disable_def MB_InvalidateHoming_def MB_SetCurrents_def
      InvalidateHoming_def)

lemma Pulley_PlanMove_intact: "intact ob w (Pulley_PlanMove d f e w)"
  unfolding Pulley_PlanMove_def
  by (rule intact_trans[OF plan_move_intact(2)[where a = Pulley] intact_base]) simp

lemma PrepareMove_intact: "intact ob w (PrepareMoveToPlannedSlot a w)"
proof -
  have "m_base (snd (slot_table tab a sl w)) = m_base w" for tab a sl by (simp add: slot_table_def)
  then have "intact ob w (plan_move_to b (fst (slot_table tab a sl w)) f e (snd (slot_table tab a sl w)))"
    for tab a sl b f e
    by (intro intact_trans[OF intact_base plan_move_intact(1)]) simp
  then show ?thesis
    by (cases a) (auto simp: Idler_PrepareMoveToPlannedSlot_def Selector_PrepareMoveToPlannedSlot_def
        Idler_SlotPosition_def Idler_IntermediateSlotPosition_def Selector_SlotPosition_def
        case_prod_beta Let_def)
qed

lemma InitMovement_intact: "intact ob w (snd (InitMovementNoReinitAxis a w))"
proof -
  define c where "c = ad_currents (mo_data (m_motion w) a)"
  define u where "u = MB_SetCurrents a (mc_iRun c) (mc_iHold c) w"
  have "intact ob w u" by (simp add: u_def intact_base)
  moreover have "intact ob (PrepareMoveToPlannedSlot a u) (set_mv_state a Moving (PrepareMoveToPlannedSlot a u))"
    by (simp add: intact_base)
  moreover have "snd (InitMovementNoReinitAxis a w) = set_mv_state a Moving (PrepareMoveToPlannedSlot a u)"
    by (simp add: InitMovementNoReinitAxis_def u_def c_def Let_def)
  ultimately show ?thesis
    by (metis intact_trans PrepareMove_intact)
qed

lemma PlanHome_intact: "intact ob w (snd (PlanHome a w))"
proof -
  define u where "u = mov a (\<lambda>m. m\<lparr>mv_currentSlot := -1\<rparr>) (set_mv_state a HomeForward
    (mot (StallGuardReset a) (mot (Motion_SetMode a Normal) (mot (\<lambda>m. snd (InitAxis a m))
      (mot (PlanStallGuardThreshold a (StallGuardThreshold (m_eeprom w) a)) (MB_InvalidateHoming a w))))))"
  have base: "m_base u = m_base w" by (simp add: u_def)
  have "intact ob u (PlanHomingMoveForward a u)"
  proof (cases a)
    case Idler
    define u' where "u' = set_axis_start Idler (mot (Motion_SetPosition Idler (unitToAxisUnit Idler IdlerOffsetFromHome)) u)"
    have "intact ob u u'" by (simp add: u'_def intact_base set_axis_start_def)
    moreover have "PlanHomingMoveForward Idler u = plan_move Idler (unitToAxisUnit Idler (al_lenght idlerLimits * 2))
        (unitToAxisUnit Idler (IdlerHomingFeedrate_deg_s (m_globals u'))) 0 u'"
      by (simp add: Idler_PlanHomingMoveForward_def u'_def Let_def)
    ultimately show ?thesis using Idler plan_move_intact(2) intact_trans by metis
  qed (simp_all add: Selector_PlanHomingMoveForward_def intact_base)
  then have "intact ob w (PlanHomingMoveForward a u)" using base intact_base intact_trans by metis
  moreover have "snd (PlanHome a w) = (if IsOnHold a (MB_InvalidateHoming a w) then MB_InvalidateHoming a w
      else PlanHomingMoveForward a u)"
    by (simp add: PlanHome_def u_def Let_def)
  ultimately show ?thesis by (simp add: intact_base)
qed

lemma Idler_PlanMoveInner_intact: "intact ob w (snd (Idler_PlanMoveInner sl op w))"
proof -
  define u where "u = (mov Idler (\<lambda>m. m\<lparr>mv_plannedSlot := sl\<rparr>) w)\<lparr>m_plannedMove := op\<rparr>"
  have "intact ob w u" by (simp add: u_def intact_base)
  moreover have "snd (Idler_PlanMoveInner sl op w) \<in>
      {w, u, snd (PlanHome Idler u), snd (InitMovementNoReinitAxis Idler u)}"
    by (auto simp: Idler_PlanMoveInner_def u_def Let_def)
  ultimately show ?thesis
    using intact_trans[OF _ PlanHome_intact] intact_trans[OF _ InitMovement_intact] intact_refl[of ob w]
    by (elim insertE emptyE) simp_all
qed

lemma Selector_MoveToSlot_intact: "intact ob w (snd (Selector_MoveToSlot sl w))"
proof -
  define u where "u = mov Selector (\<lambda>m. m\<lparr>mv_plannedSlot := sl\<rparr>) w"
  have "intact ob w u" by (simp add: u_def intact_base)
  moreover have "snd (Selector_MoveToSlot sl w) \<in>
      {w, u, snd (PlanHome Selector u), snd (InitMovementNoReinitAxis Selector u)}"
    by (auto simp: Selector_MoveToSlot_def u_def Let_def)
  ultimately show ?thesis
    using intact_trans[OF _ PlanHome_intact] intact_trans[OF _ InitMovement_intact] intact_refl[of ob w]
    by (elim insertE emptyE) simp_all
qed

text \<open>As introduction rules that peel off one operation after the other.\<close>

lemma intact_then:
  assumes "intact ob w v"
  shows "intact ob w (snd (Idler_Engage sl v))" "intact ob w (snd (Idler_Disengage v))"
    "intact ob w (snd (Idler_PartiallyDisengage sl v))" "intact ob w (snd (Selector_MoveToSlot sl v))"
    "intact ob w (Pulley_PlanMove d f e v)" "intact ob w (plan_feed v)" "intact ob w (Pulley_InitAxis v)"
    "intact ob w (Pulley_Disable v)" "intact ob w (MB_InvalidateHoming a v)" "intact ob w (InvalidateHoming v)"
    "intact ob w (mot g v)" "intact ob w (led l v)" "intact ob w (inp u v)" "intact ob w (set_filament sl st v)"
  using assms
  by (auto intro: intact_trans[OF assms] Idler_PlanMoveInner_intact Selector_MoveToSlot_intact
      Pulley_PlanMove_intact simp: Idler_Engage_def Idler_Disengage_def Idler_PartiallyDisengage_def
      plan_feed_def intact_base)

lemma FeedToFinda_intact:
  "intact ob w v \<Longrightarrow> intact ob w (snd (snd (FeedToFinda_Reset limited halt (f, v))))"
  "intact ob w v \<Longrightarrow> intact ob w (snd (snd (FeedToFinda_Step (f, v))))"
proof -
  assume v: "intact ob w v"
  then show "intact ob w (snd (snd (FeedToFinda_Reset limited halt (f, v))))"
    by (auto simp: FeedToFinda_Reset_def Let_def case_prod_beta intro!: intact_then)
  from v show "intact ob w (snd (snd (FeedToFinda_Step (f, v))))"
    by (cases "ftf_state f") (auto simp: FeedToFinda_Step_def Let_def case_prod_beta intro!: intact_then)
qed

lemma FeedToBondtech_intact:
  "intact ob w v \<Longrightarrow> intact ob w (snd (FeedToBondtech_Reset n (f, v)))"
  "intact ob w v \<Longrightarrow> intact ob w (snd (snd (FeedToBondtech_Step (f, v))))"
proof -
  assume v: "intact ob w v"
  then show "intact ob w (snd (FeedToBondtech_Reset n (f, v)))"
    by (auto simp: FeedToBondtech_Reset_def Let_def intro!: intact_then)
  from v show "intact ob w (snd (snd (FeedToBondtech_Step (f, v))))"
    by (cases "ftb_state f")
      (auto simp: FeedToBondtech_Step_def GoToPushToNozzle_def Let_def case_prod_beta intro!: intact_then)
qed

lemma UnloadToFinda_intact:
  "intact ob w v \<Longrightarrow> intact ob w (snd (UnloadToFinda_Reset n (f, v)))"
  "intact ob w v \<Longrightarrow> intact ob w (snd (snd (UnloadToFinda_Step (f, v))))"
proof -
  assume v: "intact ob w v"
  then show "intact ob w (snd (UnloadToFinda_Reset n (f, v)))"
    by (auto simp: UnloadToFinda_Reset_def Let_def intro!: intact_then)
  from v show "intact ob w (snd (snd (UnloadToFinda_Step (f, v))))"
    by (cases "utf_state f")
      (auto simp: UnloadToFinda_Step_def UnloadToFinda_Reset_def Let_def intro!: intact_then)
qed

lemma RetractFromFinda_intact:
  "intact ob w v \<Longrightarrow> intact ob w (snd (RetractFromFinda_Reset v))"
  "intact ob w v \<Longrightarrow> intact ob w (snd (snd (RetractFromFinda_Step (r, v))))"
proof -
  assume v: "intact ob w v"
  then show "intact ob w (snd (RetractFromFinda_Reset v))"
    by (auto simp: RetractFromFinda_Reset_def Let_def intro!: intact_then)
  from v show "intact ob w (snd (snd (RetractFromFinda_Step (r, v))))"
    by (cases r) (auto simp: RetractFromFinda_Step_def Let_def intro!: intact_then)
qed

lemmas automata_intact = FeedToFinda_intact FeedToBondtech_intact UnloadToFinda_intact RetractFromFinda_intact

text \<open>The active slot stays what it is, and the other globals but the load state as well.\<close>

lemma automata_active_slot [simp]:
  "active_slot (snd (snd (FeedToFinda_Reset limited halt (f1, w)))) = active_slot w"
  "active_slot (snd (snd (FeedToFinda_Step (f1, w)))) = active_slot w"
  "active_slot (snd (FeedToBondtech_Reset n (f2, w))) = active_slot w"
  "active_slot (snd (snd (FeedToBondtech_Step (f2, w)))) = active_slot w"
  "active_slot (snd (UnloadToFinda_Reset n (f3, w))) = active_slot w"
  "active_slot (snd (snd (UnloadToFinda_Step (f3, w)))) = active_slot w"
  "active_slot (snd (RetractFromFinda_Reset w)) = active_slot w"
  "active_slot (snd (snd (RetractFromFinda_Step (r, w)))) = active_slot w"
proof -
  show "active_slot (snd (snd (FeedToFinda_Reset limited halt (f1, w)))) = active_slot w"
    by (simp add: FeedToFinda_Reset_def Let_def case_prod_beta)
  show "active_slot (snd (snd (FeedToFinda_Step (f1, w)))) = active_slot w"
    by (cases "ftf_state f1") (simp_all add: FeedToFinda_Step_def plan_feed_def Let_def case_prod_beta)
  show "active_slot (snd (FeedToBondtech_Reset n (f2, w))) = active_slot w"
    by (simp add: FeedToBondtech_Reset_def Let_def)
  show "active_slot (snd (snd (FeedToBondtech_Step (f2, w)))) = active_slot w"
    by (cases "ftb_state f2") (simp_all add: FeedToBondtech_Step_def GoToPushToNozzle_def Let_def)
  show "active_slot (snd (UnloadToFinda_Reset n (f3, w))) = active_slot w"
    by (simp add: UnloadToFinda_Reset_def Let_def)
  show "active_slot (snd (snd (UnloadToFinda_Step (f3, w)))) = active_slot w"
    by (cases "utf_state f3") (simp_all add: UnloadToFinda_Step_def UnloadToFinda_Reset_def Let_def)
  show "active_slot (snd (RetractFromFinda_Reset w)) = active_slot w"
    by (simp add: RetractFromFinda_Reset_def Let_def)
  show "active_slot (snd (snd (RetractFromFinda_Step (r, w)))) = active_slot w"
    by (cases r) (simp_all add: RetractFromFinda_Step_def Let_def)
qed

text \<open>A retraction that reports has not moved anything, and has recorded the filament when it succeeded.\<close>

lemma RetractFromFinda_Step_finished:
  "fst (RetractFromFinda_Step (r, w)) \<Longrightarrow> RetractFromFinda_Step (r, w) = (True, r, w) \<and> (r = RFF_OK \<or> r = RFF_Failed)"
  by (cases r) (auto simp: RetractFromFinda_Step_def Let_def split: if_splits)

lemma RetractFromFinda_Step_ok:
  "fst (snd (RetractFromFinda_Step (r, w))) = RFF_OK \<Longrightarrow>
     r = RFF_OK \<and> snd (snd (RetractFromFinda_Step (r, w))) = w
     \<or> filament_loaded (snd (snd (RetractFromFinda_Step (r, w)))) = AtPulley"
  by (cases r) (auto simp: RetractFromFinda_Step_def Let_def split: if_splits)

lemma RetractFromFinda_Reset_state [simp]: "fst (RetractFromFinda_Reset w) = RFF_EngagingIdler"
  by (simp add: RetractFromFinda_Reset_def Let_def)

text \<open>The states error handling leads to.\<close>

lemma intact_cases:
  assumes "intact ob w w'" obtains "m_base w' ob = m_base w ob" "state_of ob w' = state_of ob w"
  | "state_of ob w' = P_ERRInternal"
  using assms by (auto simp: intact_def state_of_def)

lemma GoToErrDisengagingIdler_state:
  "state_of ob (GoToErrDisengagingIdler ob ec w) = P_ERRDisengagingIdler
   \<or> state_of ob (GoToErrDisengagingIdler ob ec w) = P_ERRInternal"
  "c_deferredErrorCode (m_base (GoToErrDisengagingIdler ob ec w) ob) = ec"
  "m_globals (GoToErrDisengagingIdler ob ec w) = m_globals w"
proof -
  define u where "u = led (ActiveSlotError (active_slot w))
    (cmd ob (\<lambda>c. c\<lparr>c_state := P_ERRDisengagingIdler, c_deferredErrorCode := ec\<rparr>) w)"
  have g: "GoToErrDisengagingIdler ob ec w = snd (Idler_Disengage u)"
    by (simp add: GoToErrDisengagingIdler_def u_def Let_def)
  have u: "state_of ob u = P_ERRDisengagingIdler" "c_deferredErrorCode (m_base u ob) = ec"
    by (simp_all add: u_def state_of_def)
  show "state_of ob (GoToErrDisengagingIdler ob ec w) = P_ERRDisengagingIdler
   \<or> state_of ob (GoToErrDisengagingIdler ob ec w) = P_ERRInternal"
    "c_deferredErrorCode (m_base (GoToErrDisengagingIdler ob ec w) ob) = ec"
    using intact_then(2)[OF intact_refl[of ob u]] u unfolding g by (auto simp: intact_def state_of_def)
  show "m_globals (GoToErrDisengagingIdler ob ec w) = m_globals w" unfolding g by (simp add: u_def)
qed

lemma ErrDisengagingIdler_frame [simp]:
  "m_globals (ErrDisengagingIdler ob w) = m_globals w"
  "state_of ob (ErrDisengagingIdler ob w) = (if Disengaged w then P_ERRWaitingForUser else state_of ob w)"
  by (simp_all add: ErrDisengagingIdler_def Let_def) (simp_all add: state_of_def set_state_def)

lemma internal_error_frame [simp]:
  "m_globals (internal_error ob w) = m_globals w" "state_of ob (internal_error ob w) = P_ERRInternal"
  "error_of ob (internal_error ob w) = INTERNAL"
  by (simp_all add: internal_error_def)

lemma FinishedOK_frame [simp]:
  "m_globals (FinishedOK ob w) = m_globals w" "state_of ob (FinishedOK ob w) = P_OK"
  "error_of ob (FinishedOK ob w) = E_OK" "m_movable (FinishedOK ob w) = m_movable w"
  by (simp_all add: FinishedOK_def CommandFinishedCorrectly_def) (simp_all add: state_of_def error_of_def set_state_def set_error_def)

text \<open>What an error that waits for the user looks like.\<close>

lemma AnyEvent_Clear [simp]: "\<not> AnyEvent (UserInput_Clear u)"
  by (simp add: AnyEvent_def UserInput_Clear_def CB_reset_def CB_empty_def CI_empty_def CI_reset_def)

lemma ErrDisengagingIdler_reports:
  fixes ob
  assumes "Disengaged w"
  defines "w' \<equiv> ErrDisengagingIdler ob w"
  shows "state_of ob w' = P_ERRWaitingForUser \<and> error_of ob w' = c_deferredErrorCode (m_base w ob)
    \<and> IsOnHold Idler w' \<and> IsOnHold Selector w' \<and> \<not> AnyEvent (m_userInput w')
    \<and> m_eeprom w' = DriveError_increment (m_eeprom w) \<and> m_globals w' = m_globals w"
  using assms(1)
  by (simp add: w'_def ErrDisengagingIdler_def Let_def)
    (simp add: state_of_def error_of_def set_state_def Pulley_Disable_def)

text \<open>A request for a place the idler is at, and a move of the pulley with room in its queue, cannot panic.\<close>

lemma state_of_base: "m_base w' = m_base w \<Longrightarrow> state_of ob w' = state_of ob w"
  by (simp add: state_of_def)

lemma request_in_place:
  assumes "mv_state (m_movable w Idler) = Ready" "mv_homingValid (m_movable w Idler)"
    "mv_currentSlot (m_movable w Idler) = sl" "m_currentlyEngaged w = op"
  shows "m_base (snd (Idler_PlanMoveInner sl op w)) = m_base w"
  using assms by (simp add: Idler_PlanMoveInner_def IsOnHold_def movable_states Let_def)

lemma Pulley_PlanMove_room:
  assumes "\<not> PG_Full (ctrl (m_motion w) Pulley)"
  shows "m_base (Pulley_PlanMove d f e w) = m_base w"
proof -
  have "fst (Motion_PlanMoveTo Pulley p f' e' (m_motion w))" for p f' e'
    using assms by (simp add: Motion_PlanMoveTo_def PG_PlanMoveTo_def PG_Full_def Let_def)
  then show ?thesis
    by (simp add: Pulley_PlanMove_def plan_move_def plan_move_to_def Let_def case_prod_beta)
qed

text \<open>A queue of at most two moves has room for another one.\<close>

lemma queued_length: "pg_wf c \<Longrightarrow> length (queued c) = unat (PG_PlannedMoves c)"
  by (simp add: queued_def CI_cells_def PG_PlannedMoves_def)

lemma PG_Full_queued: "pg_wf c \<Longrightarrow> PG_Full c \<longleftrightarrow> length (queued c) = 4"
  by (simp add: queued_length PG_Full_def pg_wf_def CI_full_iff PG_PlannedMoves_def blockBufferSize_def)

lemma Pulley_PlanMove_queue:
  assumes "mmu_wf w" "\<not> PG_Full (ctrl (m_motion w) Pulley)"
  shows "length (queued (ctrl (m_motion (Pulley_PlanMove d f e w)) Pulley))
    \<le> Suc (length (queued (ctrl (m_motion w) Pulley)))"
proof -
  let ?c = "ctrl (m_motion w) Pulley"
  define pos where "pos = Motion_Position Pulley (m_motion w) + unitToAxisUnit Pulley d"
  obtain ok c where c: "PG_PlanMoveTo pos (unitToAxisUnit Pulley f) (unitToAxisUnit Pulley e) ?c = (ok, c)" by fastforce
  have "pg_wf ?c" using assms(1) by (simp add: mmu_wf_def motion_wf_def)
  from PG_PlanMoveTo_spec[OF this assms(2) c] have "ok" "length (queued c) \<le> Suc (length (queued ?c))"
    by (auto split: if_splits)
  moreover have "ctrl (m_motion (Pulley_PlanMove d f e w)) Pulley = c"
    using ctrl_PlanMoveTo[of Pulley pos "unitToAxisUnit Pulley f" "unitToAxisUnit Pulley e" "m_motion w" Pulley] c
    by (simp add: Pulley_PlanMove_def plan_move_def plan_move_to_def pos_def Let_def case_prod_beta)
  ultimately show ?thesis by simp
qed

lemma Pulley_PlanMove_twice:
  assumes "mmu_wf w" "Motion_QueueEmpty_axis Pulley (m_motion w)"
  shows "m_base (Pulley_PlanMove d f e (Pulley_PlanMove d' f' e' w)) = m_base w"
proof -
  let ?v = "Pulley_PlanMove d' f' e' w"
  have c: "pg_wf (ctrl (m_motion w) Pulley)" and v: "mmu_wf ?v" "pg_wf (ctrl (m_motion ?v) Pulley)"
    using assms(1) Pulley_ops_wf(2)[OF assms(1)] by (simp_all add: mmu_wf_def motion_wf_def)
  have "length (queued (ctrl (m_motion w) Pulley)) = 0"
    using assms(2) c CI_empty_iff[of blockBufferSize "pg_block_index (ctrl (m_motion w) Pulley)"]
    by (simp add: queued_length[OF c] PG_PlannedMoves_def Motion_QueueEmpty_axis_def PG_QueueEmpty_def pg_wf_def)
  moreover from this have "\<not> PG_Full (ctrl (m_motion w) Pulley)" using PG_Full_queued[OF c] by simp
  moreover from this have "\<not> PG_Full (ctrl (m_motion ?v) Pulley)"
    using PG_Full_queued[OF v(2)] Pulley_PlanMove_queue[OF assms(1), of d' f' e'] calculation by simp
  ultimately show ?thesis by (simp add: Pulley_PlanMove_room)
qed

section \<open>A machine at rest\<close>

text \<open>A machine at rest with the idler in some position and the selector at the active slot; the commands and the global state are kept.\<close>

definition idler_at :: "u8 \<Rightarrow> Operation \<Rightarrow> mmu \<Rightarrow> mmu" where
  "idler_at slot op w =
     (mov Selector (\<lambda>m. m\<lparr>mv_homingValid := True, mv_currentSlot := active_slot w\<rparr>)
       (mov Idler (\<lambda>m. m\<lparr>mv_homingValid := True, mv_currentSlot := slot\<rparr>) (mmu_new idle_hw blank_eeprom)))
       \<lparr>m_globals := m_globals w, m_base := m_base w, m_currentlyEngaged := op\<rparr>"

lemma idler_at_frame [simp]:
  "m_globals (idler_at sl op w) = m_globals w" "m_base (idler_at sl op w) = m_base w"
  "state_of ob (idler_at sl op w) = state_of ob w" "Engaged (idler_at sl op w) = (op = engage)"
  "Disengaged (idler_at sl op w) = (op = disengage)" "mv_state (m_movable (idler_at sl op w) a) = Ready"
  by (simp_all add: idler_at_def state_of_def Engaged_def Disengaged_def mmu_new_def Movable_new_def)

lemma idler_at_sensors [simp]:
  "\<not> finda_pressed (idler_at sl op w)" "Motion_QueueEmpty (m_motion (idler_at sl op w))"
  "\<not> PG_Full (ctrl (m_motion (idler_at sl op w)) a)"
proof -
  let ?w = "mmu_new idle_hw blank_eeprom"
  have "m_finda (idler_at sl op w) = m_finda ?w" "m_motion (idler_at sl op w) = m_motion ?w"
    by (simp_all add: idler_at_def)
  moreover have "\<not> finda_pressed ?w" "Motion_QueueEmpty (m_motion ?w)" by code_simp+
  moreover have "\<not> PG_Full (ctrl (m_motion ?w) a)" by (cases a; code_simp)
  ultimately show "\<not> finda_pressed (idler_at sl op w)" "Motion_QueueEmpty (m_motion (idler_at sl op w))"
    "\<not> PG_Full (ctrl (m_motion (idler_at sl op w)) a)" by simp_all
qed

lemma idler_at_place [simp]:
  "mv_homingValid (m_movable (idler_at sl op w) Idler)" "mv_currentSlot (m_movable (idler_at sl op w) Idler) = sl"
  "mv_homingValid (m_movable (idler_at sl op w) Selector)"
  "mv_currentSlot (m_movable (idler_at sl op w) Selector) = active_slot w"
  "m_currentlyEngaged (idler_at sl op w) = op"
  by (simp_all add: idler_at_def)

lemma idler_at_wf: "mmu_wf (idler_at sl op w)"
proof -
  let ?m = "mov Selector (\<lambda>m. m\<lparr>mv_homingValid := True, mv_currentSlot := active_slot w\<rparr>)
       (mov Idler (\<lambda>m. m\<lparr>mv_homingValid := True, mv_currentSlot := sl\<rparr>) (mmu_new idle_hw blank_eeprom))"
  have "mmu_wf ?m"
    by (intro mmu_wf_mov mmu_wf_new)
      (simp_all add: mmu_new_def Movable_new_def mv_wf_def Let_def homing_states_def movable_states)
  then show ?thesis by (simp add: idler_at_def mmu_wf_def)
qed

end
