(* ===== verification/Unload_Filament.thy ===== *)
theory Unload_Filament
  imports Command_Frame
begin

text \<open>
  Unloading filament (\<open>logic/unload_filament.cpp\<close>). The command object exists on its own and as the member
  \<open>unl\<close> of the tool change, cut and eject commands; the operations take the object.
\<close>

section \<open>The command\<close>

record UnloadFilament =
  uf_unl :: UnloadToFinda
  uf_feed :: FeedToFinda
  uf_retract :: RetractFromFinda
  uf_skipDisengagingIdler :: bool

definition UnloadFilament_new :: UnloadFilament where
  "UnloadFilament_new = \<lparr>uf_unl = UnloadToFinda_new, uf_feed = FeedToFinda_new,
     uf_retract = RetractFromFinda_new, uf_skipDisengagingIdler = False\<rparr>"

definition uf_maxRetries :: u8 where "uf_maxRetries = 1"

definition UnloadFilament_Reset :: "obj \<Rightarrow> u8 \<Rightarrow> UnloadFilament \<times> mmu \<Rightarrow> bool \<times> UnloadFilament \<times> mmu" where
  "UnloadFilament_Reset ob param = (\<lambda>(d, w).
     if \<not> finda_pressed w \<and> filament_loaded w < InSelector then (True, d, w)
     else
       let w = Pulley_InitAxis w;
           w = set_error ob E_RUNNING (set_state ob P_UnloadingToFinda w);
           (u, w) = UnloadToFinda_Reset uf_maxRetries (uf_unl d, w)
       in (True, d\<lparr>uf_skipDisengagingIdler := False, uf_unl := u\<rparr>, w))"

definition UnloadFilament_Reset2 :: "obj \<Rightarrow> u8 \<Rightarrow> UnloadFilament \<times> mmu \<Rightarrow> bool \<times> UnloadFilament \<times> mmu" where
  "UnloadFilament_Reset2 ob param dw =
     (let (rv, d, w) = UnloadFilament_Reset ob param dw
      in (rv, d\<lparr>uf_skipDisengagingIdler := True\<rparr>, w))"

definition UnloadFinishedCorrectly :: "obj \<Rightarrow> mmu \<Rightarrow> mmu" where
  "UnloadFinishedCorrectly ob w =
     (let w = Pulley_Disable (FinishedOK ob w);
          w = set_filament (active_slot w) AtPulley w
      in led LEDs_SetAllOff w)"

definition UF_GoToRetractingFromFinda :: "obj \<Rightarrow> UnloadFilament \<times> mmu \<Rightarrow> UnloadFilament \<times> mmu" where
  "UF_GoToRetractingFromFinda ob = (\<lambda>(d, w).
     let (r, w) = RetractFromFinda_Reset (set_state ob P_RetractingFromFinda w)
     in (d\<lparr>uf_retract := r\<rparr>, w))"

definition GoToRecheckFilamentAgainstFINDA :: "obj \<Rightarrow> UnloadFilament \<times> mmu \<Rightarrow> UnloadFilament \<times> mmu" where
  "GoToRecheckFilamentAgainstFINDA ob = (\<lambda>(d, w).
     let (ok, f, w) = FeedToFinda_Reset True True (uf_feed d, w);
         d = d\<lparr>uf_feed := f\<rparr>
     in if ok then (d, set_error ob E_RUNNING (set_state ob P_FeedingToFinda w))
        else (d, GoToErrDisengagingIdler ob FINDA_FLICKERS w))"

text \<open>The middle button while waiting for the user.\<close>

definition UF_try_again :: "obj \<Rightarrow> UnloadFilament \<times> mmu \<Rightarrow> UnloadFilament \<times> mmu" where
  "UF_try_again ob = (\<lambda>(d, w).
     let w = InvalidateHoming w
     in if finda_pressed w then snd (UnloadFilament_Reset ob 0 (d, w))
        else if \<not> finda_pressed w \<and> fsensor_pressed w then (d, w)
        else GoToRecheckFilamentAgainstFINDA ob (d, w))"

definition UnloadFilament_StepInner :: "obj \<Rightarrow> UnloadFilament \<times> mmu \<Rightarrow> bool \<times> UnloadFilament \<times> mmu" where
  "UnloadFilament_StepInner ob = (\<lambda>(d, w).
     case state_of ob w of
       P_UnloadingToFinda \<Rightarrow>
         let (finished, u, w) = UnloadToFinda_Step (uf_unl d, w);
             d = d\<lparr>uf_unl := u\<rparr>
         in if finished then
              if utf_state u = UTF_FailedFINDA then
                (False, d, GoToErrDisengagingIdler ob FINDA_DIDNT_SWITCH_OFF w)
              else if utf_state u = UTF_FailedFSensor then
                (False, d, GoToErrDisengagingIdler ob FSENSOR_DIDNT_SWITCH_OFF w)
              else (False, UF_GoToRetractingFromFinda ob (d, w))
            else (False, d, w)
     | P_RetractingFromFinda \<Rightarrow>
         let (finished, r, w) = RetractFromFinda_Step (uf_retract d, w);
             d = d\<lparr>uf_retract := r\<rparr>
         in if finished then
              if r = RFF_Failed then (False, d, GoToErrDisengagingIdler ob FINDA_DIDNT_SWITCH_OFF w)
              else
                let w = set_state ob P_DisengagingIdler w
                in if uf_skipDisengagingIdler d \<and> mv_state (m_movable w Selector) = Ready
                   then (False, d, UnloadFinishedCorrectly ob w)
                   else (False, d, snd (Idler_Disengage w))
            else (False, d, w)
     | P_DisengagingIdler \<Rightarrow>
         if Disengaged w \<and> mv_state (m_movable w Selector) = Ready
         then (False, d, UnloadFinishedCorrectly ob w) else (False, d, w)
     | P_ERRDisengagingIdler \<Rightarrow> (False, d, ErrDisengagingIdler ob w)
     | P_ERRWaitingForUser \<Rightarrow>
         let (ev, u) = ConsumeEvent (m_userInput w);
             w = w\<lparr>m_userInput := u\<rparr>
         in if ev = Ev_Middle then (False, UF_try_again ob (d, w)) else (False, d, w)
     | P_FeedingToFinda \<Rightarrow>
         let (finished, f, w) = FeedToFinda_Step (uf_feed d, w);
             d = d\<lparr>uf_feed := f\<rparr>
         in if finished then
              if ftf_state f = FTF_Failed then
                (False, d, GoToErrDisengagingIdler ob FINDA_DIDNT_SWITCH_ON w)
              else (False, UF_GoToRetractingFromFinda ob (d, w))
            else (False, d, w)
     | P_OK \<Rightarrow> (True, d, w)
     | _ \<Rightarrow> (True, d, internal_error ob w))"

section \<open>The command fulfils the contract\<close>

lemmas automata_wf = FeedToFinda_Reset_wf FeedToBondtech_Reset_wf UnloadToFinda_Reset_wf
  RetractFromFinda_Reset_wf feed.step_wf bondtech.step_wf unload.step_wf retract.step_wf

lemma UnloadFilament_Reset_wf: "mmu_wf w \<Longrightarrow> mmu_wf (snd (snd (UnloadFilament_Reset ob p (d, w))))"
  by (auto simp: UnloadFilament_Reset_def Let_def case_prod_beta intro!: automata_wf command_wf)

lemma UnloadFilament_Reset2_wf: "mmu_wf w \<Longrightarrow> mmu_wf (snd (snd (UnloadFilament_Reset2 ob p (d, w))))"
  by (simp add: UnloadFilament_Reset2_def case_prod_beta UnloadFilament_Reset_wf)

lemma UnloadFinishedCorrectly_wf: "mmu_wf w \<Longrightarrow> mmu_wf (UnloadFinishedCorrectly ob w)"
  by (auto simp: UnloadFinishedCorrectly_def Let_def intro!: command_wf)

lemma UF_GoToRetractingFromFinda_wf:
  "mmu_wf w \<Longrightarrow> mmu_wf (snd (UF_GoToRetractingFromFinda ob (d, w)))"
  by (auto simp: UF_GoToRetractingFromFinda_def Let_def case_prod_beta intro!: automata_wf)

lemma UF_try_again_wf: "mmu_wf w \<Longrightarrow> mmu_wf (snd (UF_try_again ob (d, w)))"
proof -
  assume "mmu_wf w"
  then have w: "mmu_wf (InvalidateHoming w)" by (rule hold_resume_wf)
  then have "mmu_wf (snd (GoToRecheckFilamentAgainstFINDA ob (d, InvalidateHoming w)))"
    by (auto simp: GoToRecheckFilamentAgainstFINDA_def Let_def case_prod_beta intro!: automata_wf command_wf)
  with w show ?thesis by (simp add: UF_try_again_def Let_def UnloadFilament_Reset_wf)
qed

lemma UnloadFilament_StepInner_wf:
  "mmu_wf w \<Longrightarrow> mmu_wf (snd (snd (UnloadFilament_StepInner ob (d, w))))"
  by (cases "state_of ob w")
    (simp_all add: UnloadFilament_StepInner_def Let_def case_prod_beta automata_wf command_wf
      UnloadFinishedCorrectly_wf UF_GoToRetractingFromFinda_wf UF_try_again_wf ConsumeEvent_mmu_wf)

interpretation unload_cmd: command ob "UnloadFilament_StepInner ob" for ob
  by unfold_locales (rule UnloadFilament_StepInner_wf, assumption, simp add: UnloadFilament_StepInner_def)

text \<open>The commands that contain an unload keep their own record during it.\<close>

lemma intact_other:
  assumes "ob \<noteq> ob'" "intact ob w v"
  shows "intact ob w (set_state ob' p v)" "intact ob w (set_error ob' ec v)" "intact ob w (cmd ob' g v)"
    "intact ob w (FinishedOK ob' v)" "intact ob w (internal_error ob' v)"
    "intact ob w (GoToErrDisengagingIdler ob' ec v)" "intact ob w (ErrDisengagingIdler ob' v)"
proof -
  show c: "intact ob w (cmd ob' g v)" for g using assms by (simp add: intact_def state_of_def)
  then show e: "intact ob w (set_state ob' p v)" "intact ob w (set_error ob' ec v)" for p ec
    by (simp_all add: set_state_def set_error_def)
  show "intact ob w (FinishedOK ob' v)" "intact ob w (internal_error ob' v)"
    using assms by (simp_all add: FinishedOK_def internal_error_def CommandFinishedCorrectly_def intact_def
        state_of_def set_state_def set_error_def)
  show "intact ob w (GoToErrDisengagingIdler ob' ec v)" for ec
    unfolding GoToErrDisengagingIdler_def Let_def using c by (intro intact_then)
  show "intact ob w (ErrDisengagingIdler ob' v)"
    using assms by (simp add: ErrDisengagingIdler_def Let_def intact_def state_of_def set_state_def)
qed

lemma UnloadFilament_intact:
  assumes "ob \<noteq> ob'" "intact ob w v"
  shows "intact ob w (snd (snd (UnloadFilament_Reset ob' p (d, v))))"
    "intact ob w (snd (snd (UnloadFilament_Reset2 ob' p (d, v))))"
    "intact ob w (snd (snd (UnloadFilament_StepInner ob' (d, v))))"
proof -
  note rules = intact_then intact_other[OF assms(1)] automata_intact
  have reset: "intact ob w u \<Longrightarrow> intact ob w (snd (snd (UnloadFilament_Reset ob' p (d, u))))" for u p d
    by (auto simp: UnloadFilament_Reset_def Let_def case_prod_beta intro!: rules)
  from reset[OF assms(2)] show "intact ob w (snd (snd (UnloadFilament_Reset ob' p (d, v))))"
    "intact ob w (snd (snd (UnloadFilament_Reset2 ob' p (d, v))))"
    by (simp_all add: UnloadFilament_Reset2_def case_prod_beta)
  have retract: "intact ob w u \<Longrightarrow> intact ob w (snd (UF_GoToRetractingFromFinda ob' (d, u)))" for u d
    by (auto simp: UF_GoToRetractingFromFinda_def Let_def case_prod_beta intro!: rules)
  have fin: "intact ob w u \<Longrightarrow> intact ob w (UnloadFinishedCorrectly ob' u)" for u
    by (auto simp: UnloadFinishedCorrectly_def Let_def intro!: rules)
  have again: "intact ob w (snd (UF_try_again ob' (d, u)))" if "intact ob w u" for u d
  proof -
    have "intact ob w (InvalidateHoming u)" using that by (intro rules)
    then show ?thesis
      by (auto simp: UF_try_again_def GoToRecheckFilamentAgainstFINDA_def Let_def case_prod_beta
          intro!: rules reset)
  qed
  have ev: "intact ob w (v\<lparr>m_userInput := x\<rparr>)" for x using assms(2) by (simp add: intact_def state_of_def)
  show "intact ob w (snd (snd (UnloadFilament_StepInner ob' (d, v))))"
    using assms(2) ev
    by (cases "state_of ob' v")
      (auto simp: UnloadFilament_StepInner_def Let_def case_prod_beta intro!: rules retract fin again)
qed

section \<open>How an unload goes on\<close>

text \<open>What is known while the command runs: in the last phases the retraction has succeeded.\<close>

definition unload_inv :: "obj \<Rightarrow> u8 \<Rightarrow> UnloadFilament \<Rightarrow> mmu \<Rightarrow> bool" where
  "unload_inv ob slot d w \<longleftrightarrow> active_slot w = slot
     \<and> (state_of ob w = P_RetractingFromFinda \<and> uf_retract d = RFF_OK \<longrightarrow> filament_loaded w = AtPulley)
     \<and> (state_of ob w \<in> {P_DisengagingIdler, P_OK} \<longrightarrow> uf_retract d = RFF_OK \<and> filament_loaded w = AtPulley)
     \<and> (state_of ob w = P_OK \<longrightarrow> error_of ob w = E_OK)"

lemma unload_inv_other:
  "active_slot w = slot \<Longrightarrow> state_of ob w \<notin> {P_RetractingFromFinda, P_DisengagingIdler, P_OK} \<Longrightarrow>
     unload_inv ob slot d w"
  by (simp add: unload_inv_def)

lemma unload_inv_error:
  "active_slot w = slot \<Longrightarrow> unload_inv ob slot d (GoToErrDisengagingIdler ob ec w)"
  using GoToErrDisengagingIdler_state[of ob ec w] by (intro unload_inv_other) auto

lemma unload_inv_retract:
  "active_slot w = slot \<Longrightarrow>
     unload_inv ob slot (fst (UF_GoToRetractingFromFinda ob (d, w))) (snd (UF_GoToRetractingFromFinda ob (d, w)))"
proof -
  assume w: "active_slot w = slot"
  define v where "v = set_state ob P_RetractingFromFinda w"
  have "intact ob v (snd (RetractFromFinda_Reset v))" by (rule automata_intact intact_refl)+
  moreover have "state_of ob v = P_RetractingFromFinda" by (simp add: v_def)
  ultimately have "state_of ob (snd (RetractFromFinda_Reset v)) \<in> {P_RetractingFromFinda, P_ERRInternal}"
    by (auto elim: intact_cases)
  then show ?thesis using w
    by (auto simp: UF_GoToRetractingFromFinda_def case_prod_beta unload_inv_def v_def Let_def)
qed

lemma unload_inv_Reset:
  "active_slot w = slot \<Longrightarrow> finda_pressed w \<or> InSelector \<le> filament_loaded w \<Longrightarrow>
     case UnloadFilament_Reset ob p (d, w) of (_, d', w') \<Rightarrow> unload_inv ob slot d' w'"
proof -
  assume w: "active_slot w = slot" "finda_pressed w \<or> InSelector \<le> filament_loaded w"
  define v where "v = set_error ob E_RUNNING (set_state ob P_UnloadingToFinda (Pulley_InitAxis w))"
  have "intact ob v (snd (UnloadToFinda_Reset uf_maxRetries (uf_unl d, v)))" by (rule automata_intact intact_refl)+
  then have st: "state_of ob (snd (UnloadToFinda_Reset uf_maxRetries (uf_unl d, v))) \<in> {P_UnloadingToFinda, P_ERRInternal}"
    by (auto elim!: intact_cases simp: v_def)
  show ?thesis
  proof (cases "UnloadToFinda_Reset uf_maxRetries (uf_unl d, v)")
    case (Pair u v')
    have "active_slot v' = active_slot v" using Pair by (metis automata_active_slot(5) snd_conv)
    then have "active_slot v' = slot" using w(1) by (simp add: v_def)
    moreover have "\<not> (\<not> finda_pressed w \<and> filament_loaded w < InSelector)" using w(2) by auto
    ultimately show ?thesis using st Pair
      by (auto simp: UnloadFilament_Reset_def Let_def v_def[symmetric] intro!: unload_inv_other)
  qed
qed

lemma unload_inv_try_again:
  assumes "active_slot w = slot" "state_of ob w = P_ERRWaitingForUser"
  shows "unload_inv ob slot (fst (UF_try_again ob (d, w))) (snd (UF_try_again ob (d, w)))"
proof -
  define v where "v = InvalidateHoming w"
  have v: "active_slot v = slot" "finda_pressed v = finda_pressed w" "state_of ob v = P_ERRWaitingForUser"
    using assms by (simp_all add: v_def state_of_def)
  obtain ok f u where f: "FeedToFinda_Reset True True (uf_feed d, v) = (ok, f, u)" by (metis prod_cases3)
  have u: "active_slot u = slot" using automata_active_slot(1)[of True True "uf_feed d" v] f v(1) by simp
  have "unload_inv ob slot (fst (GoToRecheckFilamentAgainstFINDA ob (d, v))) (snd (GoToRecheckFilamentAgainstFINDA ob (d, v)))"
    using u by (simp add: GoToRecheckFilamentAgainstFINDA_def f unload_inv_error unload_inv_other Let_def)
  moreover have "finda_pressed v \<Longrightarrow> unload_inv ob slot (fst (snd (UnloadFilament_Reset ob 0 (d, v))))
      (snd (snd (UnloadFilament_Reset ob 0 (d, v))))"
    using unload_inv_Reset[of v slot ob 0 d] v(1) by (simp add: case_prod_beta)
  moreover have "unload_inv ob slot d v" using v by (intro unload_inv_other) simp_all
  ultimately show ?thesis using v(2) by (simp add: UF_try_again_def v_def[symmetric] Let_def)
qed

lemma UnloadFinishedCorrectly_frame [simp]:
  "active_slot (UnloadFinishedCorrectly ob w) = active_slot w"
  "filament_loaded (UnloadFinishedCorrectly ob w) = AtPulley"
  "state_of ob (UnloadFinishedCorrectly ob w) = P_OK" "error_of ob (UnloadFinishedCorrectly ob w) = E_OK"
proof -
  show "active_slot (UnloadFinishedCorrectly ob w) = active_slot w"
    "filament_loaded (UnloadFinishedCorrectly ob w) = AtPulley"
    by (simp_all add: UnloadFinishedCorrectly_def Let_def)
  have "m_base (UnloadFinishedCorrectly ob w) = m_base (FinishedOK ob w)"
    by (simp add: UnloadFinishedCorrectly_def Let_def)
  then show "state_of ob (UnloadFinishedCorrectly ob w) = P_OK" "error_of ob (UnloadFinishedCorrectly ob w) = E_OK"
    using FinishedOK_frame[of ob w] by (simp_all add: state_of_def error_of_def)
qed

lemma unload_inv_step:
  assumes "unload_inv ob slot d w"
  shows "case UnloadFilament_StepInner ob (d, w) of (_, d', w') \<Rightarrow> unload_inv ob slot d' w'"
proof -
  have slot: "active_slot w = slot" using assms by (simp add: unload_inv_def)
  have stay: "unload_inv ob slot d' w'"
    if "intact ob w w'" "active_slot w' = slot" "state_of ob w \<notin> {P_RetractingFromFinda, P_DisengagingIdler, P_OK}"
    for d' w' using that by (auto elim!: intact_cases intro!: unload_inv_other)
  show ?thesis
  proof (cases "state_of ob w")
    case P_UnloadingToFinda
    obtain r u v where st: "UnloadToFinda_Step (uf_unl d, w) = (r, u, v)" by (metis prod_cases3)
    have "intact ob w v" using automata_intact(6)[OF intact_refl, of ob w "uf_unl d"] st by simp
    moreover have "active_slot v = slot" using automata_active_slot(6)[of "uf_unl d" w] st slot by simp
    ultimately show ?thesis using P_UnloadingToFinda stay unload_inv_error unload_inv_retract
      by (simp add: UnloadFilament_StepInner_def st case_prod_beta Let_def)
  next
    case P_FeedingToFinda
    obtain r f v where st: "FeedToFinda_Step (uf_feed d, w) = (r, f, v)" by (metis prod_cases3)
    have "intact ob w v" using automata_intact(2)[OF intact_refl, of ob w "uf_feed d"] st by simp
    moreover have "active_slot v = slot" using automata_active_slot(2)[of "uf_feed d" w] st slot by simp
    ultimately show ?thesis using P_FeedingToFinda stay unload_inv_error unload_inv_retract
      by (simp add: UnloadFilament_StepInner_def st case_prod_beta Let_def)
  next
    case P_RetractingFromFinda
    obtain fin r v where st: "RetractFromFinda_Step (uf_retract d, w) = (fin, r, v)" by (metis prod_cases3)
    have v: "active_slot v = slot" using automata_active_slot(8)[of "uf_retract d" w] st slot by simp
    show ?thesis
    proof (cases fin)
      case False
      have "r = RFF_OK \<longrightarrow> filament_loaded v = AtPulley"
        using RetractFromFinda_Step_ok[of "uf_retract d" w] st assms P_RetractingFromFinda
        by (auto simp: unload_inv_def)
      moreover have "state_of ob v \<in> {P_RetractingFromFinda, P_ERRInternal}"
        using automata_intact(8)[OF intact_refl, of ob w "uf_retract d"] st P_RetractingFromFinda
        by (auto elim: intact_cases)
      ultimately show ?thesis using False v P_RetractingFromFinda
        by (auto simp: UnloadFilament_StepInner_def st unload_inv_def Let_def)
    next
      case True
      with st have r: "r = uf_retract d" "v = w" "r = RFF_OK \<or> r = RFF_Failed"
        using RetractFromFinda_Step_finished[of "uf_retract d" w] by auto
      define u where "u = set_state ob P_DisengagingIdler w"
      have "intact ob u (snd (Idler_Disengage u))" by (rule intact_then intact_refl)+
      then have "state_of ob (snd (Idler_Disengage u)) \<in> {P_DisengagingIdler, P_ERRInternal}"
        by (auto elim!: intact_cases simp: u_def)
      moreover have "r = RFF_OK \<Longrightarrow> filament_loaded w = AtPulley"
        using assms r(1) P_RetractingFromFinda by (simp add: unload_inv_def)
      ultimately have "r = RFF_OK \<Longrightarrow> unload_inv ob slot d (snd (Idler_Disengage u))"
        using r(1) slot by (auto simp: unload_inv_def u_def)
      moreover have "r = RFF_OK \<Longrightarrow> unload_inv ob slot d (UnloadFinishedCorrectly ob u)"
        using r(1) slot by (simp add: unload_inv_def u_def)
      ultimately show ?thesis using True r slot P_RetractingFromFinda unload_inv_error
        by (auto simp: UnloadFilament_StepInner_def st Let_def u_def)
    qed
  next
    case P_DisengagingIdler
    with assms show ?thesis by (simp add: UnloadFilament_StepInner_def unload_inv_def)
  next
    case P_ERRWaitingForUser
    define v where "v = w\<lparr>m_userInput := snd (ConsumeEvent (m_userInput w))\<rparr>"
    have v: "active_slot v = slot" "state_of ob v = P_ERRWaitingForUser" "intact ob w v"
      using slot P_ERRWaitingForUser by (simp_all add: v_def state_of_def intact_base)
    then show ?thesis using P_ERRWaitingForUser unload_inv_try_again[OF v(1,2)] stay[OF v(3,1)]
      by (simp add: UnloadFilament_StepInner_def v_def case_prod_beta Let_def)
  qed (use assms slot in \<open>simp_all add: UnloadFilament_StepInner_def unload_inv_other\<close>)
qed

section \<open>Properties\<close>

text \<open>C14: an unload that finishes has retracted the filament past FINDA. When a started unload reports
  that it is done, by whatever retries and user interventions, the last retraction has ended with FINDA
  off, the active slot is the one it was and the filament is recorded at the pulley.\<close>

theorem unload_finishes_at_pulley:
  assumes "\<forall>env \<in> set envs. \<forall>v. m_globals (env v) = m_globals v \<and> m_base (env v) = m_base v"
    and "finda_pressed w \<or> InSelector \<le> filament_loaded w"
    and "run_automaton (UnloadFilament_StepInner ob) envs (snd (UnloadFilament_Reset ob p (d, w))) = (d', w')"
    and "state_of ob w' = P_OK"
  shows "uf_retract d' = RFF_OK \<and> filament_loaded w' = AtPulley \<and> active_slot w' = active_slot w
    \<and> error_of ob w' = E_OK"
proof -
  define run where "run = run_automaton (UnloadFilament_StepInner ob) envs (snd (UnloadFilament_Reset ob p (d, w)))"
  have "unload_inv ob (active_slot w) (fst run) (snd run)" unfolding run_def
  proof (rule run_invariant)
    show "unload_inv ob (active_slot w) (fst (snd (UnloadFilament_Reset ob p (d, w))))
        (snd (snd (UnloadFilament_Reset ob p (d, w))))"
      using unload_inv_Reset[OF refl assms(2), of ob p d] by (simp add: case_prod_beta)
    show "unload_inv ob (active_slot w) (fst (snd (UnloadFilament_StepInner ob (s, v))))
        (snd (snd (UnloadFilament_StepInner ob (s, v))))" if "unload_inv ob (active_slot w) s v" for s v
      using unload_inv_step[OF that] by (simp add: case_prod_beta)
    show "unload_inv ob (active_slot w) s (env v)" if "env \<in> set envs" "unload_inv ob (active_slot w) s v" for env s v
      using assms(1) that by (simp add: unload_inv_def state_of_def error_of_def)
  qed
  with assms(3,4) show ?thesis by (simp add: run_def unload_inv_def)
qed

text \<open>An unload of a filament that has already left FINDA, step by step.\<close>

lemma unload_steps:
  "state_of ob w = P_UnloadingToFinda \<Longrightarrow> utf_state (uf_unl d) = UTF_OK \<Longrightarrow>
     UnloadFilament_StepInner ob (d, w) = (False, UF_GoToRetractingFromFinda ob (d, w))"
  "state_of ob w = P_RetractingFromFinda \<Longrightarrow> uf_retract d = RFF_EngagingIdler \<Longrightarrow> Engaged w \<Longrightarrow>
     UnloadFilament_StepInner ob (d, w) = (False, d\<lparr>uf_retract := RFF_UnloadBackToPTFE\<rparr>,
       Pulley_PlanMove (- (cuttingEdgeToFindaMidpoint + cuttingEdgeRetract))
         (PulleyUnloadFeedrate_mm_s (m_globals w)) 0 w)"
  "state_of ob w = P_RetractingFromFinda \<Longrightarrow> uf_retract d = RFF_UnloadBackToPTFE \<Longrightarrow>
     Motion_QueueEmpty (m_motion w) \<Longrightarrow> \<not> finda_pressed w \<Longrightarrow>
     UnloadFilament_StepInner ob (d, w) = (False, d\<lparr>uf_retract := RFF_OK\<rparr>,
       led (ActiveSlotDoneEmpty (active_slot w)) (set_filament (active_slot w) AtPulley w))"
  "state_of ob w = P_RetractingFromFinda \<Longrightarrow> uf_retract d = RFF_OK \<Longrightarrow> \<not> uf_skipDisengagingIdler d \<Longrightarrow>
     UnloadFilament_StepInner ob (d, w) = (False, d, snd (Idler_Disengage (set_state ob P_DisengagingIdler w)))"
  "state_of ob w = P_DisengagingIdler \<Longrightarrow> Disengaged w \<Longrightarrow> mv_state (m_movable w Selector) = Ready \<Longrightarrow>
     UnloadFilament_StepInner ob (d, w) = (False, d, UnloadFinishedCorrectly ob w)"
  by (simp_all add: UnloadFilament_StepInner_def UnloadToFinda_Step_def RetractFromFinda_Step_def Let_def)

definition in_nozzle :: mmu where
  "in_nozzle = set_filament 2 InNozzle (mmu_new idle_hw blank_eeprom)"

theorem unload_finishes_at_pulley_witness:
  "filament_loaded (snd (run_automaton (UnloadFilament_StepInner (Cmd unloadFilament))
     [idler_at 2 engage, idler_at 2 engage, idler_at 2 engage, idler_at 5 disengage, idler_at 5 disengage]
     (snd (UnloadFilament_Reset (Cmd unloadFilament) 0 (UnloadFilament_new, in_nozzle))))) = AtPulley"
proof -
  let ?ob = "Cmd unloadFilament"
  let ?step = "UnloadFilament_StepInner ?ob"
  let ?envs = "[idler_at 2 engage, idler_at 2 engage, idler_at 2 engage, idler_at 5 disengage, idler_at 5 disengage]"
  let ?start = "snd (UnloadFilament_Reset ?ob 0 (UnloadFilament_new, in_nozzle))"
  have env: "\<forall>env \<in> set ?envs. \<forall>v. m_globals (env v) = m_globals v \<and> m_base (env v) = m_base v"
    by simp
  have off: "\<not> finda_pressed (mmu_new idle_hw blank_eeprom)" by code_simp
  then have loaded: "finda_pressed in_nozzle \<or> InSelector \<le> filament_loaded in_nozzle" "\<not> finda_pressed in_nozzle"
    "\<not> filament_loaded in_nozzle < InSelector" "active_slot in_nozzle = 2"
    by (simp_all add: in_nozzle_def fls_order)
  obtain d0 w0 where s0: "?start = (d0, w0)" by fastforce
  then have w0: "state_of ?ob w0 = P_UnloadingToFinda" "utf_state (uf_unl d0) = UTF_OK" "active_slot w0 = 2"
    "\<not> uf_skipDisengagingIdler d0"
    using loaded(2-4) by (auto simp: UnloadFilament_Reset_def UnloadToFinda_Reset_def Let_def)
  define w1 where "w1 = snd (UF_GoToRetractingFromFinda ?ob (d0, idler_at 2 engage w0))"
  have s1: "?step (d0, idler_at 2 engage w0) = (False, d0\<lparr>uf_retract := RFF_EngagingIdler\<rparr>, w1)"
    using w0 unfolding w1_def 
    by (simp add: unload_steps(1) UF_GoToRetractingFromFinda_def case_prod_beta)
  have w1: "state_of ?ob w1 = P_RetractingFromFinda" "active_slot w1 = 2"
    unfolding w1_def using w0(3)
    by (simp_all add: UF_GoToRetractingFromFinda_def RetractFromFinda_Reset_def Idler_Engage_def Let_def
        state_of_base[OF request_in_place])
  let ?d1 = "d0\<lparr>uf_retract := RFF_EngagingIdler\<rparr>"
  obtain w2 where s2: "?step (?d1, idler_at 2 engage w1) = (False, d0\<lparr>uf_retract := RFF_UnloadBackToPTFE\<rparr>, w2)"
    and w2: "state_of ?ob w2 = P_RetractingFromFinda"
    using w1(1) by (simp add: unload_steps(2) state_of_base[OF Pulley_PlanMove_room])
  obtain w3 where s3: "?step (d0\<lparr>uf_retract := RFF_UnloadBackToPTFE\<rparr>, idler_at 2 engage w2)
      = (False, d0\<lparr>uf_retract := RFF_OK\<rparr>, w3)" and w3: "state_of ?ob w3 = P_RetractingFromFinda"
    using w2 by (simp add: unload_steps(3))
  let ?d3 = "d0\<lparr>uf_retract := RFF_OK\<rparr>"
  obtain w4 where s4: "?step (?d3, idler_at 5 disengage w3) = (False, ?d3, w4)"
    and w4: "state_of ?ob w4 = P_DisengagingIdler"
    using w3 w0(4) by (simp add: unload_steps(4) Idler_Disengage_def IdleSlotIndex_def toolCount_def
        state_of_base[OF request_in_place])
  obtain w5 where s5: "?step (?d3, idler_at 5 disengage w4) = (False, ?d3, w5)" and w5: "state_of ?ob w5 = P_OK"
    using w4 by (simp add: unload_steps(5))
  have run: "run_automaton ?step ?envs ?start = (?d3, w5)"
    using s0 s1 s2 s3 s4 s5 by simp
  from unload_finishes_at_pulley[OF env loaded(1) run w5] show ?thesis unfolding run by simp
qed



text \<open>Without an active slot an unload writes behind the LED array. After a start with an empty record the
  active slot is \<open>toolCount\<close>; if FINDA is then pressed, starting an unload sets the LED pair of that slot, and
  the array has none.\<close>

theorem unload_without_slot_overruns_leds:
  assumes "mmu_wf w" "finda_pressed w" "active_slot w = toolCount"
  shows "leds_oob (m_leds (snd (snd (UnloadFilament_Reset ob p (d, w)))))"
proof -
  define u where "u = set_error ob E_RUNNING (set_state ob P_UnloadingToFinda (Pulley_InitAxis w))"
  define v where "v = snd (Idler_PartiallyDisengage (active_slot u) u)"
  have v: "mmu_wf v" "active_slot v = toolCount" using assms(1,3) by (simp_all add: v_def u_def command_wf)
  have "snd (snd (UnloadFilament_Reset ob p (d, w))) = led (ActiveSlotProcessing (active_slot v)) v"
    using assms(2) by (simp add: UnloadFilament_Reset_def UnloadToFinda_Reset_def Let_def u_def v_def)
  then show ?thesis using v SetPairButOffOthers_oob[of "m_leds v" toolCount]
    by (simp add: ActiveSlotProcessing_def mmu_wf_def toolCount_def)
qed

theorem unload_without_slot_overruns_leds_witness:
  "leds_oob (m_leds (snd (snd (UnloadFilament_Reset (Cmd unloadFilament) 0 (UnloadFilament_new,
     (mmu_new idle_hw blank_eeprom)\<lparr>m_globals := Globals_Init blank_eeprom Globals_new,
       m_finda := FINDA_new\<lparr>db_state := WaitForRelease\<rparr>\<rparr>)))))"
proof -
  let ?w = "(mmu_new idle_hw blank_eeprom)\<lparr>m_globals := Globals_Init blank_eeprom Globals_new,
       m_finda := FINDA_new\<lparr>db_state := WaitForRelease\<rparr>\<rparr>"
  have "active_slot ?w = toolCount" by code_simp
  moreover have "mmu_wf ?w" "finda_pressed ?w" by (simp_all add: mmu_wf_new Pressed_def)
  ultimately show ?thesis by (intro unload_without_slot_overruns_leds)
qed

end
