(* ===== verification/Load_Filament.thy ===== *)
theory Load_Filament
  imports Unload_Filament
begin

text \<open>
  Loading filament into a slot (\<open>logic/load_filament.cpp\<close>): feed to FINDA, retract, and do both once more to
  check that the filament can be fed again.
\<close>

section \<open>The command\<close>

record LoadFilament =
  lf_feed :: FeedToFinda
  lf_retract :: RetractFromFinda
  lf_verifyLoadedFilament :: u8
  lf_result :: ResultCode

definition LoadFilament_new :: LoadFilament where
  "LoadFilament_new = \<lparr>lf_feed = FeedToFinda_new, lf_retract = RetractFromFinda_new,
     lf_verifyLoadedFilament = 0, lf_result = Result_OK\<rparr>"

abbreviation load_ob :: obj where "load_ob \<equiv> Cmd loadFilament"

definition LF_Reset2 :: "bool \<Rightarrow> LoadFilament \<times> mmu \<Rightarrow> LoadFilament \<times> mmu" where
  "LF_Reset2 feedPhaseLimited = (\<lambda>(d, w).
     let w = set_error load_ob E_RUNNING (set_state load_ob P_FeedingToFinda w);
         (ok, f, w) = FeedToFinda_Reset feedPhaseLimited True (lf_feed d, w);
         d = d\<lparr>lf_feed := f\<rparr>
     in if \<not> ok then (d, GoToErrDisengagingIdler load_ob FINDA_FLICKERS w) else (d, w))"

definition LoadFilament_Reset :: "u8 \<Rightarrow> LoadFilament \<times> mmu \<Rightarrow> bool \<times> LoadFilament \<times> mmu" where
  "LoadFilament_Reset param = (\<lambda>(d, w).
     let d = d\<lparr>lf_result := Result_OK\<rparr>;
         (ok, w) = CheckToolIndex load_ob param w
     in if \<not> ok then (False, d, w)
        else if InSelector < filament_loaded w then (False, d, w)
        else if AtPulley < filament_loaded w \<and> active_slot w \<noteq> param then (False, d, w)
        else
          let w = set_filament param AtPulley w;
              d = d\<lparr>lf_verifyLoadedFilament := 1\<rparr>
          in (True, LF_Reset2 False (d, w)))"

definition LF_ResetLimited :: "u8 \<Rightarrow> LoadFilament \<times> mmu \<Rightarrow> LoadFilament \<times> mmu" where
  "LF_ResetLimited param = (\<lambda>(d, w).
     let (ok, w) = CheckToolIndex load_ob param w
     in if \<not> ok then (d, w) else LF_Reset2 True (d, set_filament param AtPulley w))"

definition LF_GoToRetractingFromFinda :: "LoadFilament \<times> mmu \<Rightarrow> LoadFilament \<times> mmu" where
  "LF_GoToRetractingFromFinda = (\<lambda>(d, w).
     let w = set_error load_ob E_RUNNING (set_state load_ob P_RetractingFromFinda w);
         (r, w) = RetractFromFinda_Reset w
     in (d\<lparr>lf_retract := r\<rparr>, w))"

definition LoadFinishedCorrectly :: "mmu \<Rightarrow> mmu" where
  "LoadFinishedCorrectly w = Pulley_Disable (led LEDs_SetAllOff (FinishedOK load_ob w))"

definition LoadFilament_StepInner :: "LoadFilament \<times> mmu \<Rightarrow> bool \<times> LoadFilament \<times> mmu" where
  "LoadFilament_StepInner = (\<lambda>(d, w).
     case state_of load_ob w of
       P_FeedingToFinda \<Rightarrow>
         let (finished, f, w) = FeedToFinda_Step (lf_feed d, w);
             d = d\<lparr>lf_feed := f\<rparr>
         in if finished then
              (case ftf_state f of
                 FTF_Failed \<Rightarrow> (False, d, GoToErrDisengagingIdler load_ob FINDA_DIDNT_SWITCH_ON w)
               | FTF_Stopped \<Rightarrow>
                   (False, LF_GoToRetractingFromFinda
                      (d\<lparr>lf_result := Result_Cancelled, lf_verifyLoadedFilament := 0\<rparr>, w))
               | FTF_OK \<Rightarrow> (False, LF_GoToRetractingFromFinda (d, w))
               | _ \<Rightarrow> (False, d, w))
            else (False, d, w)
     | P_RetractingFromFinda \<Rightarrow>
         let (finished, r, w) = RetractFromFinda_Step (lf_retract d, w);
             d = d\<lparr>lf_retract := r\<rparr>
         in if finished then
              if r = RFF_Failed then (False, d, GoToErrDisengagingIdler load_ob FINDA_DIDNT_SWITCH_OFF w)
              else if lf_verifyLoadedFilament d \<noteq> 0 then
                let d = d\<lparr>lf_verifyLoadedFilament := lf_verifyLoadedFilament d - 1\<rparr>
                in (False, LF_ResetLimited (active_slot w) (d, w))
              else (False, d, snd (Idler_Disengage (set_state load_ob P_DisengagingIdler w)))
            else (False, d, w)
     | P_DisengagingIdler \<Rightarrow>
         if Disengaged w \<and> mv_currentSlot (m_movable w Selector) = active_slot w
         then (False, d, LoadFinishedCorrectly w) else (False, d, w)
     | P_OK \<Rightarrow> (True, d, w)
     | P_ERRDisengagingIdler \<Rightarrow> (False, d, ErrDisengagingIdler load_ob w)
     | P_ERRWaitingForUser \<Rightarrow>
         let (ev, u) = ConsumeEvent (m_userInput w);
             w = w\<lparr>m_userInput := u\<rparr>
         in if ev = Ev_Middle then
              let w = ResumeIdlerSelector w
              in if \<not> finda_pressed w then (False, LF_Reset2 False (d, w))
                 else (False, LF_GoToRetractingFromFinda (d, w))
            else (False, d, w)
     | _ \<Rightarrow> (True, d, internal_error load_ob w))"

text \<open>\<open>Result\<close> of the command; for every other command it is \<open>ResultCode::OK\<close>.\<close>

definition LoadFilament_Result :: "LoadFilament \<Rightarrow> ResultCode" where
  "LoadFilament_Result d = lf_result d"

section \<open>The command fulfils the contract\<close>

lemma LF_Reset2_wf: "mmu_wf w \<Longrightarrow> mmu_wf (snd (LF_Reset2 l (d, w)))"
  by (auto simp: LF_Reset2_def Let_def case_prod_beta intro!: automata_wf command_wf)

lemma CheckToolIndex_frame [simp]:
  "m_globals (snd (CheckToolIndex ob p w)) = m_globals w" "state_of ob' (snd (CheckToolIndex ob p w)) = state_of ob' w"
  "fst (CheckToolIndex ob p w) \<longleftrightarrow> p < toolCount"
  "error_of ob (snd (CheckToolIndex ob p w)) = (if p < toolCount then E_OK else INVALID_TOOL)"
  by (auto simp: CheckToolIndex_def not_le)

lemma LoadFilament_Reset_wf: "mmu_wf w \<Longrightarrow> mmu_wf (snd (snd (LoadFilament_Reset p (d, w))))"
  by (auto simp: LoadFilament_Reset_def Let_def case_prod_beta intro!: command_wf LF_Reset2_wf)

lemma LF_ResetLimited_wf: "mmu_wf w \<Longrightarrow> mmu_wf (snd (LF_ResetLimited p (d, w)))"
  by (auto simp: LF_ResetLimited_def Let_def case_prod_beta intro!: command_wf LF_Reset2_wf)

lemma LF_GoToRetractingFromFinda_wf: "mmu_wf w \<Longrightarrow> mmu_wf (snd (LF_GoToRetractingFromFinda (d, w)))"
  by (auto simp: LF_GoToRetractingFromFinda_def Let_def case_prod_beta intro!: automata_wf)

lemma LoadFinishedCorrectly_wf: "mmu_wf w \<Longrightarrow> mmu_wf (LoadFinishedCorrectly w)"
  by (auto simp: LoadFinishedCorrectly_def intro!: command_wf)

lemma LoadFilament_StepInner_wf:
  assumes "mmu_wf w" shows "mmu_wf (snd (snd (LoadFilament_StepInner (d, w))))"
proof (cases "state_of load_ob w")
  case P_FeedingToFinda
  have "mmu_wf (snd (snd (FeedToFinda_Step (lf_feed d, w))))" using assms by (rule automata_wf)
  then show ?thesis using P_FeedingToFinda
    by (auto simp: LoadFilament_StepInner_def Let_def case_prod_beta command_wf LF_GoToRetractingFromFinda_wf
        split: FeedToFindaState.split)
next
  case P_RetractingFromFinda
  have "mmu_wf (snd (snd (RetractFromFinda_Step (lf_retract d, w))))" using assms by (rule automata_wf)
  then show ?thesis using P_RetractingFromFinda
    by (simp add: LoadFilament_StepInner_def Let_def case_prod_beta command_wf LF_ResetLimited_wf)
qed (use assms in \<open>simp_all add: LoadFilament_StepInner_def Let_def case_prod_beta command_wf LF_Reset2_wf
    LF_GoToRetractingFromFinda_wf LoadFinishedCorrectly_wf ConsumeEvent_mmu_wf\<close>)

interpretation load_cmd: command load_ob LoadFilament_StepInner
  by unfold_locales (rule LoadFilament_StepInner_wf, assumption, simp add: LoadFilament_StepInner_def)

section \<open>How a load goes on\<close>

definition load_inv :: "u8 \<Rightarrow> LoadFilament \<Rightarrow> mmu \<Rightarrow> bool" where
  "load_inv slot d w \<longleftrightarrow> active_slot w = slot
     \<and> (state_of load_ob w = P_RetractingFromFinda \<and> lf_retract d = RFF_OK \<longrightarrow> filament_loaded w = AtPulley)
     \<and> (state_of load_ob w \<in> {P_DisengagingIdler, P_OK} \<longrightarrow>
          lf_retract d = RFF_OK \<and> filament_loaded w = AtPulley \<and> lf_verifyLoadedFilament d = 0)
     \<and> (state_of load_ob w = P_OK \<longrightarrow> error_of load_ob w = E_OK)"

lemma load_inv_other:
  "active_slot w = slot \<Longrightarrow> state_of load_ob w \<notin> {P_RetractingFromFinda, P_DisengagingIdler, P_OK} \<Longrightarrow>
     load_inv slot d w"
  by (simp add: load_inv_def)

lemma load_inv_error: "active_slot w = slot \<Longrightarrow> load_inv slot d (GoToErrDisengagingIdler load_ob ec w)"
  using GoToErrDisengagingIdler_state[of load_ob ec w] by (intro load_inv_other) auto

lemma load_inv_retract:
  "active_slot w = slot \<Longrightarrow>
     load_inv slot (fst (LF_GoToRetractingFromFinda (d, w))) (snd (LF_GoToRetractingFromFinda (d, w)))"
proof -
  assume w: "active_slot w = slot"
  define v where "v = set_error load_ob E_RUNNING (set_state load_ob P_RetractingFromFinda w)"
  have "intact load_ob v (snd (RetractFromFinda_Reset v))" by (rule automata_intact intact_refl)+
  then have "state_of load_ob (snd (RetractFromFinda_Reset v)) \<in> {P_RetractingFromFinda, P_ERRInternal}"
    by (auto elim!: intact_cases simp: v_def)
  then show ?thesis using w
    by (auto simp: LF_GoToRetractingFromFinda_def case_prod_beta load_inv_def v_def Let_def)
qed

lemma load_inv_Reset2:
  "active_slot w = slot \<Longrightarrow> load_inv slot (fst (LF_Reset2 l (d, w))) (snd (LF_Reset2 l (d, w)))"
proof -
  assume w: "active_slot w = slot"
  define v where "v = set_error load_ob E_RUNNING (set_state load_ob P_FeedingToFinda w)"
  obtain ok f u where f: "FeedToFinda_Reset l True (lf_feed d, v) = (ok, f, u)" by (metis prod_cases3)
  have "active_slot u = active_slot v" using automata_active_slot(1)[of l True "lf_feed d" v] by (simp only: f snd_conv)
  then have u: "active_slot u = slot" using w by (simp add: v_def)
  have "intact load_ob v u" using automata_intact(1)[OF intact_refl, of load_ob v l True "lf_feed d"] by (simp only: f snd_conv)
  then have "state_of load_ob u \<in> {P_FeedingToFinda, P_ERRInternal}"
    by (auto elim!: intact_cases simp: v_def)
  with u f show ?thesis
    by (auto simp: LF_Reset2_def v_def[symmetric] Let_def intro!: load_inv_error load_inv_other)
qed

lemma LoadFinishedCorrectly_frame [simp]:
  "m_globals (LoadFinishedCorrectly w) = m_globals w" "state_of load_ob (LoadFinishedCorrectly w) = P_OK"
  "error_of load_ob (LoadFinishedCorrectly w) = E_OK"
proof -
  show "m_globals (LoadFinishedCorrectly w) = m_globals w" by (simp add: LoadFinishedCorrectly_def)
  have "m_base (LoadFinishedCorrectly w) = m_base (FinishedOK load_ob w)" by (simp add: LoadFinishedCorrectly_def)
  then show "state_of load_ob (LoadFinishedCorrectly w) = P_OK" "error_of load_ob (LoadFinishedCorrectly w) = E_OK"
    using FinishedOK_frame[of load_ob w] by (simp_all add: state_of_def error_of_def)
qed

lemma load_inv_recheck:
  assumes "active_slot w = slot" "state_of load_ob w \<notin> {P_RetractingFromFinda, P_DisengagingIdler, P_OK} \<or> slot < toolCount"
  shows "load_inv slot (fst (LF_ResetLimited slot (d, w))) (snd (LF_ResetLimited slot (d, w)))"
  using assms load_inv_Reset2[of "set_filament slot AtPulley (snd (CheckToolIndex load_ob slot w))" slot True d]
  by (auto simp: LF_ResetLimited_def case_prod_beta intro: load_inv_other)

lemma load_inv_retracting:
  assumes "load_inv slot d w" "slot < toolCount" "state_of load_ob w = P_RetractingFromFinda"
  shows "case LoadFilament_StepInner (d, w) of (_, d', w') \<Rightarrow> load_inv slot d' w'"
proof -
  have slot: "active_slot w = slot" using assms(1) by (simp add: load_inv_def)
  obtain fin r v where st: "RetractFromFinda_Step (lf_retract d, w) = (fin, r, v)" by (metis prod_cases3)
  have v: "active_slot v = slot" using automata_active_slot(8)[of "lf_retract d" w] st slot by simp
  show ?thesis
  proof (cases fin)
    case False
    have "r = RFF_OK \<longrightarrow> filament_loaded v = AtPulley"
      using RetractFromFinda_Step_ok[of "lf_retract d" w] st assms(1,3) by (auto simp: load_inv_def)
    moreover have "state_of load_ob v \<in> {P_RetractingFromFinda, P_ERRInternal}"
      using automata_intact(8)[OF intact_refl, of load_ob w "lf_retract d"] st assms(3) by (auto elim: intact_cases)
    ultimately show ?thesis using False v assms(3)
      by (auto simp: LoadFilament_StepInner_def st load_inv_def Let_def)
  next
    case True
    with st have r: "r = lf_retract d" "v = w" "r = RFF_OK \<or> r = RFF_Failed"
      using RetractFromFinda_Step_finished[of "lf_retract d" w] by auto
    define u where "u = set_state load_ob P_DisengagingIdler w"
    have "intact load_ob u (snd (Idler_Disengage u))" by (rule intact_then intact_refl)+
    then have "state_of load_ob (snd (Idler_Disengage u)) \<in> {P_DisengagingIdler, P_ERRInternal}"
      by (auto elim!: intact_cases simp: u_def)
    moreover have "r = RFF_OK \<Longrightarrow> filament_loaded w = AtPulley"
      using assms(1,3) r(1) by (simp add: load_inv_def)
    ultimately have "r = RFF_OK \<Longrightarrow> lf_verifyLoadedFilament d = 0 \<Longrightarrow> load_inv slot d (snd (Idler_Disengage u))"
      using r(1) slot by (auto simp: load_inv_def u_def)
    then show ?thesis using True r slot assms(2,3) load_inv_error[OF slot] load_inv_recheck[OF slot]
      by (auto simp: LoadFilament_StepInner_def st Let_def u_def case_prod_beta)
  qed
qed

lemma load_inv_step:
  assumes "load_inv slot d w" "slot < toolCount"
  shows "case LoadFilament_StepInner (d, w) of (_, d', w') \<Rightarrow> load_inv slot d' w'"
proof -
  have slot: "active_slot w = slot" using assms(1) by (simp add: load_inv_def)
  show ?thesis
  proof (cases "state_of load_ob w")
    case P_FeedingToFinda
    obtain r f v where st: "FeedToFinda_Step (lf_feed d, w) = (r, f, v)" by (metis prod_cases3)
    have i: "intact load_ob w v" using automata_intact(2)[OF intact_refl, of load_ob w "lf_feed d"] st by simp
    have v: "active_slot v = slot" using automata_active_slot(2)[of "lf_feed d" w] st slot by simp
    have "load_inv slot d' v" for d'
      using i v P_FeedingToFinda by (auto elim!: intact_cases intro!: load_inv_other)
    then show ?thesis using P_FeedingToFinda load_inv_error[OF v] load_inv_retract[OF v]
      by (cases "ftf_state f") (simp_all add: LoadFilament_StepInner_def st case_prod_beta Let_def)
  next
    case P_RetractingFromFinda
    with assms show ?thesis by (rule load_inv_retracting)
  next
    case P_DisengagingIdler
    with assms(1) show ?thesis by (simp add: LoadFilament_StepInner_def load_inv_def)
  next
    case P_ERRWaitingForUser
    define v where "v = w\<lparr>m_userInput := snd (ConsumeEvent (m_userInput w))\<rparr>"
    have v: "active_slot v = slot" "active_slot (ResumeIdlerSelector v) = slot" "load_inv slot d v"
      using slot P_ERRWaitingForUser by (simp_all add: v_def load_inv_other state_of_def)
    then show ?thesis using P_ERRWaitingForUser load_inv_retract[OF v(2)] load_inv_Reset2[OF v(2)]
      by (simp add: LoadFilament_StepInner_def v_def case_prod_beta Let_def)
  qed (use assms slot in \<open>simp_all add: LoadFilament_StepInner_def load_inv_other\<close>)
qed

section \<open>Properties\<close>

text \<open>When a load is accepted. A load of a slot is accepted exactly for a slot of the machine, if no filament
  is past the selector, and if one that is in the selector belongs to that slot. A refused load changes
  nothing in the machine but the error of the command, which is then \<open>INVALID_TOOL\<close> for a slot that does not
  exist and otherwise OK.\<close>

theorem load_accepted_iff:
  assumes "LoadFilament_Reset p (d, w) = (ok, d', w')"
  shows "(ok \<longleftrightarrow> p < toolCount \<and> filament_loaded w \<le> InSelector \<and> (filament_loaded w \<le> AtPulley \<or> active_slot w = p))
    \<and> (\<not> ok \<longrightarrow> w' = set_error load_ob (if p < toolCount then E_OK else INVALID_TOOL) w)
    \<and> (ok \<longrightarrow> active_slot w' = p \<and> filament_loaded w' = AtPulley)"
proof (cases "p < toolCount \<and> filament_loaded w \<le> InSelector \<and> (filament_loaded w \<le> AtPulley \<or> active_slot w = p)")
  case True
  define u where "u = set_filament p AtPulley (snd (CheckToolIndex load_ob p w))"
  define v where "v = set_error load_ob E_RUNNING (set_state load_ob P_FeedingToFinda u)"
  obtain ok1 f x where f: "FeedToFinda_Reset False True (lf_feed d, v) = (ok1, f, x)" by (metis prod_cases3)
  have "m_globals x = m_globals v"
    using f by (auto simp: FeedToFinda_Reset_def Let_def case_prod_beta split: if_splits)
  then have "active_slot x = p" "filament_loaded x = AtPulley" by (simp_all add: v_def u_def)
  moreover have "LoadFilament_Reset p (d, w) = (True, LF_Reset2 False
      (d\<lparr>lf_result := Result_OK, lf_verifyLoadedFilament := 1\<rparr>, u))"
    using True by (auto simp: LoadFilament_Reset_def u_def case_prod_beta Let_def)
  ultimately show ?thesis using assms True f GoToErrDisengagingIdler_state(3)[of load_ob FINDA_FLICKERS x]
    by (auto simp: LF_Reset2_def v_def[symmetric] Let_def split: if_splits)
next
  case False
  have "snd (CheckToolIndex load_ob p w) = set_error load_ob (if p < toolCount then E_OK else INVALID_TOOL) w"
    by (auto simp: CheckToolIndex_def not_le)
  with False assms show ?thesis
    by (auto simp: LoadFilament_Reset_def case_prod_beta Let_def not_less split: if_splits)
qed

theorem load_accepted_iff_witness:
  "\<not> fst (LoadFilament_Reset 3 (LoadFilament_new, in_nozzle))
   \<and> error_of load_ob (snd (snd (LoadFilament_Reset 3 (LoadFilament_new, in_nozzle)))) = E_OK"
proof -
  have "\<not> filament_loaded in_nozzle \<le> InSelector" by (simp add: in_nozzle_def fls_order)
  moreover obtain ok d w where r: "LoadFilament_Reset 3 (LoadFilament_new, in_nozzle) = (ok, d, w)"
    by (metis prod_cases3)
  ultimately show ?thesis using load_accepted_iff[OF r] by (simp add: toolCount_def)
qed

text \<open>C29: a load that finishes has its filament retracted and checked. When an accepted load reports that it
  is done, by whatever errors, retries and cancellations, the last retraction ended with FINDA off, no
  re-check of the filament is outstanding, and the loaded slot is active with its filament recorded at the
  pulley.\<close>

theorem load_finishes_at_pulley:
  assumes "\<forall>env \<in> set envs. \<forall>v. m_globals (env v) = m_globals v \<and> m_base (env v) = m_base v"
    and "LoadFilament_Reset slot (d, w) = (True, d0, w0)"
    and "run_automaton LoadFilament_StepInner envs (d0, w0) = (d', w')"
    and "state_of load_ob w' = P_OK"
  shows "lf_retract d' = RFF_OK \<and> lf_verifyLoadedFilament d' = 0 \<and> filament_loaded w' = AtPulley
    \<and> active_slot w' = slot \<and> error_of load_ob w' = E_OK"
proof -
  have slot: "slot < toolCount" using load_accepted_iff[OF assms(2)] by simp
  have "(d0, w0) = LF_Reset2 False (d\<lparr>lf_result := Result_OK, lf_verifyLoadedFilament := 1\<rparr>,
      set_filament slot AtPulley (snd (CheckToolIndex load_ob slot w)))"
    using assms(2) by (auto simp: LoadFilament_Reset_def case_prod_beta Let_def split: if_splits)
  then have start: "load_inv slot (fst (d0, w0)) (snd (d0, w0))"
    using load_inv_Reset2[of "set_filament slot AtPulley (snd (CheckToolIndex load_ob slot w))" slot False
        "d\<lparr>lf_result := Result_OK, lf_verifyLoadedFilament := 1\<rparr>"]
    by (metis set_filament_frame(12))
  have "load_inv slot (fst (run_automaton LoadFilament_StepInner envs (d0, w0)))
      (snd (run_automaton LoadFilament_StepInner envs (d0, w0)))"
  proof (rule run_invariant[of "load_inv slot", OF start])
    show "load_inv slot (fst (snd (LoadFilament_StepInner (s, v)))) (snd (snd (LoadFilament_StepInner (s, v))))"
      if "load_inv slot s v" for s v using load_inv_step[OF that slot] by (simp add: case_prod_beta)
    show "load_inv slot s (env v)" if "env \<in> set envs" "load_inv slot s v" for env s v
      using assms(1) that by (simp add: load_inv_def state_of_def error_of_def)
  qed
  with assms(3,4) show ?thesis by (simp add: load_inv_def)
qed

text \<open>A load that the user cancels, step by step.\<close>

lemma feed_reset_in_place:
  assumes "mv_state (m_movable w Selector) = Ready" "mv_homingValid (m_movable w Selector)"
    "mv_currentSlot (m_movable w Selector) = active_slot w"
    and "mv_state (m_movable w Idler) = Ready" "mv_homingValid (m_movable w Idler)"
    "mv_currentSlot (m_movable w Idler) = active_slot w" "m_currentlyEngaged w = engage"
  shows "fst (FeedToFinda_Reset l h (f, w))"
    and "fst (snd (FeedToFinda_Reset l h (f, w))) = \<lparr>ftf_state = FTF_EngagingIdler, ftf_feedPhaseLimited = l, ftf_haltAtEnd = h\<rparr>"
    and "m_base (snd (snd (FeedToFinda_Reset l h (f, w)))) = m_base w"
  using assms
  by (simp_all add: FeedToFinda_Reset_def Selector_MoveToSlot_def Idler_Engage_def movable_states Let_def
      request_in_place)

lemma load_steps:
  "state_of load_ob w = P_FeedingToFinda \<Longrightarrow> ftf_state (lf_feed d) = FTF_EngagingIdler \<Longrightarrow>
     \<not> ftf_feedPhaseLimited (lf_feed d) \<Longrightarrow> Engaged w \<Longrightarrow> mv_currentSlot (m_movable w Selector) = active_slot w \<Longrightarrow>
     LoadFilament_StepInner (d, w) = (False, d\<lparr>lf_feed := (lf_feed d)\<lparr>ftf_state := FTF_PushingFilamentUnlimited\<rparr>\<rparr>,
       inp UserInput_Clear (set_filament (active_slot w) InSelector (plan_feed (plan_feed (Pulley_InitAxis w)))))"
  "state_of load_ob w = P_FeedingToFinda \<Longrightarrow> ftf_state (lf_feed d) = FTF_PushingFilamentUnlimited \<Longrightarrow>
     AnyEvent (m_userInput w) \<Longrightarrow>
     LoadFilament_StepInner (d, w) = (False, LF_GoToRetractingFromFinda
       (d\<lparr>lf_feed := (lf_feed d)\<lparr>ftf_state := FTF_Stopped\<rparr>, lf_result := Result_Cancelled,
          lf_verifyLoadedFilament := 0\<rparr>,
        inp UserInput_Clear (set_filament (active_slot w) InSelector
          (mot (Motion_AbortPlannedMoves (ftf_haltAtEnd (lf_feed d))) w))))"
  "state_of load_ob w = P_RetractingFromFinda \<Longrightarrow> lf_retract d = RFF_EngagingIdler \<Longrightarrow> Engaged w \<Longrightarrow>
     LoadFilament_StepInner (d, w) = (False, d\<lparr>lf_retract := RFF_UnloadBackToPTFE\<rparr>,
       Pulley_PlanMove (- (cuttingEdgeToFindaMidpoint + cuttingEdgeRetract))
         (PulleyUnloadFeedrate_mm_s (m_globals w)) 0 w)"
  "state_of load_ob w = P_RetractingFromFinda \<Longrightarrow> lf_retract d = RFF_UnloadBackToPTFE \<Longrightarrow>
     Motion_QueueEmpty (m_motion w) \<Longrightarrow> \<not> finda_pressed w \<Longrightarrow>
     LoadFilament_StepInner (d, w) = (False, d\<lparr>lf_retract := RFF_OK\<rparr>,
       led (ActiveSlotDoneEmpty (active_slot w)) (set_filament (active_slot w) AtPulley w))"
  "state_of load_ob w = P_RetractingFromFinda \<Longrightarrow> lf_retract d = RFF_OK \<Longrightarrow> lf_verifyLoadedFilament d = 0 \<Longrightarrow>
     LoadFilament_StepInner (d, w) = (False, d, snd (Idler_Disengage (set_state load_ob P_DisengagingIdler w)))"
  "state_of load_ob w = P_DisengagingIdler \<Longrightarrow> Disengaged w \<Longrightarrow>
     mv_currentSlot (m_movable w Selector) = active_slot w \<Longrightarrow>
     LoadFilament_StepInner (d, w) = (False, d, LoadFinishedCorrectly w)"
  by (simp_all add: LoadFilament_StepInner_def FeedToFinda_Step_def RetractFromFinda_Step_def plan_feed_def Let_def)

definition at_pulley :: mmu where
  "at_pulley = idler_at 2 engage (set_filament 2 AtPulley (mmu_new idle_hw blank_eeprom))"

definition pressed_button :: "mmu \<Rightarrow> mmu" where
  "pressed_button w = inp (enqueue Ev_Middle) (idler_at 2 engage w)"

theorem load_finishes_at_pulley_witness:
  "filament_loaded (snd (run_automaton LoadFilament_StepInner
     [idler_at 2 engage, pressed_button, idler_at 2 engage, idler_at 2 engage, idler_at 5 disengage,
      idler_at 5 disengage]
     (snd (LoadFilament_Reset 2 (LoadFilament_new, at_pulley))))) = AtPulley"
proof -
  let ?step = LoadFilament_StepInner
  let ?envs = "[idler_at 2 engage, pressed_button, idler_at 2 engage, idler_at 2 engage, idler_at 5 disengage,
      idler_at 5 disengage]"
  have env: "\<forall>env \<in> set ?envs. \<forall>v. m_globals (env v) = m_globals v \<and> m_base (env v) = m_base v"
    by (simp add: pressed_button_def)
  define u where "u = set_error load_ob E_RUNNING (set_state load_ob P_FeedingToFinda
      (set_filament 2 AtPulley (set_error load_ob E_OK at_pulley)))"
  have place: "mv_state (m_movable u Selector) = Ready" "mv_homingValid (m_movable u Selector)"
    "mv_currentSlot (m_movable u Selector) = active_slot u" "mv_state (m_movable u Idler) = Ready"
    "mv_homingValid (m_movable u Idler)" "mv_currentSlot (m_movable u Idler) = active_slot u"
    "m_currentlyEngaged u = engage" "state_of load_ob u = P_FeedingToFinda"
    by (simp_all add: u_def at_pulley_def)
  note reset = feed_reset_in_place[OF place(1-7), of False True FeedToFinda_new]
  define w0 where "w0 = snd (snd (FeedToFinda_Reset False True (FeedToFinda_new, u)))"
  define d0 where "d0 = LoadFilament_new\<lparr>lf_feed := \<lparr>ftf_state = FTF_EngagingIdler,
      ftf_feedPhaseLimited = False, ftf_haltAtEnd = True\<rparr>, lf_verifyLoadedFilament := 1\<rparr>"
  have "FeedToFinda_Reset False True (FeedToFinda_new, u) = (True, lf_feed d0, w0)"
    using reset(1,2) by (simp add: w0_def d0_def prod_eq_iff)
  then have s0: "LoadFilament_Reset 2 (LoadFilament_new, at_pulley) = (True, d0, w0)"
    by (simp add: LoadFilament_Reset_def LF_Reset2_def CheckToolIndex_def toolCount_def u_def at_pulley_def
        fls_order LoadFilament_new_def d0_def Let_def)
  have w0: "state_of load_ob w0 = P_FeedingToFinda" "active_slot w0 = 2"
    using reset(3) place(8) by (simp_all add: w0_def state_of_def) (simp add: u_def)
  let ?f = "lf_feed d0"
  let ?d1 = "d0\<lparr>lf_feed := ?f\<lparr>ftf_state := FTF_PushingFilamentUnlimited\<rparr>\<rparr>"
  have "mmu_wf (Pulley_InitAxis (idler_at 2 engage w0))" by (intro Pulley_ops_wf idler_at_wf)
  moreover have "Motion_QueueEmpty_axis Pulley (m_motion (Pulley_InitAxis (idler_at 2 engage w0)))"
    using idler_at_sensors(2)[of 2 engage w0]
    by (simp add: Motion_QueueEmpty_def Motion_QueueEmpty_axis_def all_axes_def Pulley_InitAxis_def)
  ultimately have "m_base (plan_feed (plan_feed (Pulley_InitAxis (idler_at 2 engage w0)))) = m_base w0"
    by (simp add: plan_feed_def Pulley_PlanMove_twice)
  then obtain w1 where s1: "?step (d0, idler_at 2 engage w0) = (False, ?d1, w1)"
    and w1: "state_of load_ob w1 = P_FeedingToFinda" "active_slot w1 = 2"
    using w0 by (simp add: load_steps(1) d0_def state_of_def plan_feed_def)
  have "m_userInput (pressed_button w1) = enqueue Ev_Middle UserInput_new"
    by (simp add: pressed_button_def idler_at_def mmu_new_def)
  moreover have "AnyEvent (enqueue Ev_Middle UserInput_new)" by code_simp
  ultimately have ev: "AnyEvent (m_userInput (pressed_button w1))" by (simp only:)
  obtain d2 w2 where s2: "?step (?d1, pressed_button w1) = (False, d2, w2)"
    and w2: "state_of load_ob w2 = P_RetractingFromFinda" "lf_retract d2 = RFF_EngagingIdler" "lf_verifyLoadedFilament d2 = 0"
    using w1 ev by (simp add: load_steps(2) LF_GoToRetractingFromFinda_def RetractFromFinda_Reset_def Idler_Engage_def
        pressed_button_def state_of_base[OF request_in_place] Let_def)
  let ?d3 = "d2\<lparr>lf_retract := RFF_UnloadBackToPTFE\<rparr>" and ?d4 = "d2\<lparr>lf_retract := RFF_OK\<rparr>"
  obtain w3 where s3: "?step (d2, idler_at 2 engage w2) = (False, ?d3, w3)" and w3: "state_of load_ob w3 = P_RetractingFromFinda"
    using w2 by (simp add: load_steps(3) state_of_base[OF Pulley_PlanMove_room])
  obtain w4 where s4: "?step (?d3, idler_at 2 engage w3) = (False, ?d4, w4)" and w4: "state_of load_ob w4 = P_RetractingFromFinda"
    using w3 by (simp add: load_steps(4))
  obtain w5 where s5: "?step (?d4, idler_at 5 disengage w4) = (False, ?d4, w5)" and w5: "state_of load_ob w5 = P_DisengagingIdler"
    using w4 w2(3) by (simp add: load_steps(5) Idler_Disengage_def IdleSlotIndex_def toolCount_def
        state_of_base[OF request_in_place])
  obtain w6 where s6: "?step (?d4, idler_at 5 disengage w5) = (False, ?d4, w6)" and w6: "state_of load_ob w6 = P_OK"
    using w5 by (simp add: load_steps(6))
  have run: "run_automaton ?step ?envs (d0, w0) = (?d4, w6)" using s1 s2 s3 s4 s5 s6 by simp
  from load_finishes_at_pulley[OF env s0 run w6] show ?thesis by (simp only: s0 run snd_conv)
qed

end
