(* ===== verification/Tool_Change.thy ===== *)
theory Tool_Change
  imports Load_Filament
begin

text \<open>
  The tool change (\<open>logic/tool_change.cpp\<close>): unload what is loaded, feed the requested slot to FINDA and on to
  the extruder.
\<close>

section \<open>The command\<close>

record ToolChange =
  tc_unl :: UnloadFilament
  tc_feed :: FeedToFinda
  tc_james :: FeedToBondtech
  tc_plannedSlot :: u8

definition ToolChange_new :: ToolChange where
  "ToolChange_new = \<lparr>tc_unl = UnloadFilament_new, tc_feed = FeedToFinda_new, tc_james = FeedToBondtech_new,
     tc_plannedSlot = -1\<rparr>"

abbreviation tool_ob :: obj where "tool_ob \<equiv> Cmd toolChange"
abbreviation tool_unl :: obj where "tool_unl \<equiv> Unl toolChange"

definition ToolChange_Reset :: "u8 \<Rightarrow> ToolChange \<times> mmu \<Rightarrow> bool \<times> ToolChange \<times> mmu" where
  "ToolChange_Reset param = (\<lambda>(d, w).
     let (ok, w) = CheckToolIndex tool_ob param w
     in if \<not> ok then (False, d, w)
        else if param = active_slot w \<and> filament_loaded w = InNozzle then (True, d, w)
        else
          let w = inp (SetPrinterInCharge True) w;
              d = d\<lparr>tc_plannedSlot := param\<rparr>
          in if InSelector \<le> filament_loaded w then
               let w = set_state tool_ob P_UnloadingFilament w;
                   (_, u, w) = UnloadFilament_Reset2 tool_unl (active_slot w) (tc_unl d, w)
               in (True, d\<lparr>tc_unl := u\<rparr>, w)
             else
               let w = set_filament (tc_plannedSlot d) InSelector w;
                   (ok, f, w) = FeedToFinda_Reset True False (tc_feed d, w);
                   d = d\<lparr>tc_feed := f\<rparr>
               in if ok then (True, d, set_error tool_ob E_RUNNING (set_state tool_ob P_FeedingToFinda w))
                  else (True, d, GoToErrDisengagingIdler tool_ob FINDA_FLICKERS w))"

definition GoToFeedingToBondtech :: "ToolChange \<times> mmu \<Rightarrow> ToolChange \<times> mmu" where
  "GoToFeedingToBondtech = (\<lambda>(d, w).
     let (f, w) = FeedToBondtech_Reset 3 (tc_james d, w)
     in (d\<lparr>tc_james := f\<rparr>, set_error tool_ob E_RUNNING (set_state tool_ob P_FeedingToBondtech w)))"

definition ToolChangeFinishedCorrectly :: "mmu \<Rightarrow> mmu" where
  "ToolChangeFinishedCorrectly w =
     FinishedOK tool_ob (inp (SetPrinterInCharge False) (led (ActiveSlotDonePrimed (active_slot w)) w))"

definition TC_GoToFeedingToFinda :: "ToolChange \<times> mmu \<Rightarrow> ToolChange \<times> mmu" where
  "TC_GoToFeedingToFinda = (\<lambda>(d, w).
     let w = set_error tool_ob E_RUNNING (set_state tool_ob P_FeedingToFinda w);
         w = set_filament (tc_plannedSlot d) AtPulley w;
         (ok, f, w) = FeedToFinda_Reset True False (tc_feed d, w);
         d = d\<lparr>tc_feed := f\<rparr>
     in if \<not> ok then (d, GoToErrDisengagingIdler tool_ob FINDA_FLICKERS w) else (d, w))"

text \<open>The middle button while waiting for the user.\<close>

definition TC_try_again :: "ToolChange \<times> mmu \<Rightarrow> ToolChange \<times> mmu" where
  "TC_try_again = (\<lambda>(d, w).
     let w = InvalidateHoming w
     in if error_of tool_ob w = FSENSOR_TOO_EARLY then snd (ToolChange_Reset (active_slot w) (d, w))
        else if error_of tool_ob w = FINDA_FLICKERS then TC_GoToFeedingToFinda (d, w)
        else if finda_pressed w then snd (ToolChange_Reset (active_slot w) (d, w))
        else TC_GoToFeedingToFinda (d, w))"

definition ToolChange_StepInner :: "ToolChange \<times> mmu \<Rightarrow> bool \<times> ToolChange \<times> mmu" where
  "ToolChange_StepInner = (\<lambda>(d, w).
     case state_of tool_ob w of
       P_UnloadingFilament \<Rightarrow>
         let (finished, u, w) = UnloadFilament_StepInner tool_unl (tc_unl d, w);
             d = d\<lparr>tc_unl := u\<rparr>
         in if finished then (False, TC_GoToFeedingToFinda (d, w)) else (False, d, w)
     | P_FeedingToFinda \<Rightarrow>
         let (finished, f, w) = FeedToFinda_Step (tc_feed d, w);
             d = d\<lparr>tc_feed := f\<rparr>
         in if finished then
              if ftf_state f = FTF_Failed then
                (False, d, GoToErrDisengagingIdler tool_ob FINDA_DIDNT_SWITCH_ON w)
              else (False, GoToFeedingToBondtech (d, w))
            else (False, d, w)
     | P_FeedingToBondtech \<Rightarrow>
         let (finished, f, w) = FeedToBondtech_Step (tc_james d, w);
             d = d\<lparr>tc_james := f\<rparr>
         in if finished then
              if ftb_state f = FTB_Failed then
                (False, d, GoToErrDisengagingIdler tool_ob FSENSOR_DIDNT_SWITCH_ON w)
              else if ftb_state f = FTB_FSensorTooEarly then
                (False, d, GoToErrDisengagingIdler tool_ob FSENSOR_TOO_EARLY w)
              else (False, d, ToolChangeFinishedCorrectly w)
            else (False, d, w)
     | P_OK \<Rightarrow> (True, d, w)
     | P_ERRDisengagingIdler \<Rightarrow> (False, d, ErrDisengagingIdler tool_ob w)
     | P_ERRWaitingForUser \<Rightarrow>
         let (ev, u) = ConsumeEvent (m_userInput w);
             w = w\<lparr>m_userInput := u\<rparr>
         in if ev = Ev_Middle then (False, TC_try_again (d, w)) else (False, d, w)
     | _ \<Rightarrow> (True, d, internal_error tool_ob w))"

text \<open>What is reported to the printer: the state and the error of the part that is running.\<close>

definition ToolChange_State :: "ToolChange \<Rightarrow> mmu \<Rightarrow> ProgressCode" where
  "ToolChange_State d w =
     (case state_of tool_ob w of
        P_UnloadingFilament \<Rightarrow> state_of tool_unl w
      | P_FeedingToBondtech \<Rightarrow>
          (case ftb_state (tc_james d) of
             FTB_PushingFilamentToFSensor \<Rightarrow> P_FeedingToFSensor
           | FTB_PushingFilamentIntoNozzle \<Rightarrow> P_FeedingToNozzle
           | FTB_DisengagingIdler \<Rightarrow> P_DisengagingIdler
           | _ \<Rightarrow> P_FeedingToBondtech)
      | s \<Rightarrow> s)"

definition ToolChange_Error :: "mmu \<Rightarrow> ErrorCode" where
  "ToolChange_Error w =
     (if state_of tool_ob w = P_UnloadingFilament then
        let ec = error_of tool_unl w in if ec = E_OK then E_RUNNING else ec
      else error_of tool_ob w)"

section \<open>The command fulfils the contract\<close>

lemma mmu_wf_printer_in_charge: "mmu_wf w \<Longrightarrow> mmu_wf (inp (SetPrinterInCharge b) w)"
  by (intro mmu_wf_inp) simp_all

lemma ToolChange_Reset_wf: "mmu_wf w \<Longrightarrow> mmu_wf (snd (snd (ToolChange_Reset p (d, w))))"
  by (auto simp: ToolChange_Reset_def Let_def case_prod_beta
      intro!: command_wf automata_wf mmu_wf_printer_in_charge UnloadFilament_Reset2_wf)

lemma ToolChange_Reset_accepted: "fst (ToolChange_Reset p (d, w)) \<longleftrightarrow> p < toolCount"
proof (cases "p < toolCount")
  case False
  then have "CheckToolIndex tool_ob p w = (False, set_error tool_ob INVALID_TOOL w)" by (simp add: CheckToolIndex_def not_less)
  with False show ?thesis by (simp add: ToolChange_Reset_def)
next
  case True
  then have "CheckToolIndex tool_ob p w = (True, set_error tool_ob E_OK w)" by (simp add: CheckToolIndex_def not_le)
  with True show ?thesis by (simp add: ToolChange_Reset_def case_prod_beta Let_def)
qed

lemma TC_GoToFeedingToFinda_wf: "mmu_wf w \<Longrightarrow> mmu_wf (snd (TC_GoToFeedingToFinda (d, w)))"
  by (auto simp: TC_GoToFeedingToFinda_def Let_def case_prod_beta intro!: command_wf automata_wf)

lemma GoToFeedingToBondtech_wf: "mmu_wf w \<Longrightarrow> mmu_wf (snd (GoToFeedingToBondtech (d, w)))"
  by (auto simp: GoToFeedingToBondtech_def Let_def case_prod_beta intro!: automata_wf)

lemma ToolChangeFinishedCorrectly_wf: "mmu_wf w \<Longrightarrow> mmu_wf (ToolChangeFinishedCorrectly w)"
  by (auto simp: ToolChangeFinishedCorrectly_def intro!: command_wf mmu_wf_printer_in_charge)

lemma TC_try_again_wf: "mmu_wf w \<Longrightarrow> mmu_wf (snd (TC_try_again (d, w)))"
  by (auto simp: TC_try_again_def Let_def intro!: ToolChange_Reset_wf TC_GoToFeedingToFinda_wf hold_resume_wf)

lemma ToolChange_StepInner_wf:
  assumes "mmu_wf w" shows "mmu_wf (snd (snd (ToolChange_StepInner (d, w))))"
proof (cases "state_of tool_ob w")
  case P_UnloadingFilament
  have "mmu_wf (snd (snd (UnloadFilament_StepInner tool_unl (tc_unl d, w))))" using assms by (rule unload_cmd.inner_wf)
  then show ?thesis using P_UnloadingFilament
    by (simp add: ToolChange_StepInner_def Let_def case_prod_beta TC_GoToFeedingToFinda_wf)
next
  case P_FeedingToFinda
  have "mmu_wf (snd (snd (FeedToFinda_Step (tc_feed d, w))))" using assms by (rule automata_wf)
  then show ?thesis using P_FeedingToFinda
    by (simp add: ToolChange_StepInner_def Let_def case_prod_beta command_wf GoToFeedingToBondtech_wf)
next
  case P_FeedingToBondtech
  have "mmu_wf (snd (snd (FeedToBondtech_Step (tc_james d, w))))" using assms by (rule automata_wf)
  then show ?thesis using P_FeedingToBondtech
    by (simp add: ToolChange_StepInner_def Let_def case_prod_beta command_wf ToolChangeFinishedCorrectly_wf)
qed (use assms in \<open>simp_all add: ToolChange_StepInner_def Let_def case_prod_beta command_wf TC_try_again_wf
    ConsumeEvent_mmu_wf\<close>)

interpretation tool_cmd: command tool_ob ToolChange_StepInner
  by unfold_locales (rule ToolChange_StepInner_wf, assumption, simp add: ToolChange_StepInner_def)

section \<open>How a tool change goes on\<close>

text \<open>
  From the reset on the planned slot is the requested one; once the unload is over it is also the active
  slot; and from the point on where the idler lets the filament go, the filament is in the nozzle.
\<close>

definition tc_inv :: "u8 \<Rightarrow> ToolChange \<Rightarrow> mmu \<Rightarrow> bool" where
  "tc_inv slot d w \<longleftrightarrow>
     (state_of tool_ob w \<noteq> P_OK \<longrightarrow> tc_plannedSlot d = slot)
     \<and> (state_of tool_ob w \<notin> {P_UnloadingFilament, P_ERRInternal} \<longrightarrow> active_slot w = slot)
     \<and> (state_of tool_ob w = P_FeedingToBondtech \<and>
          ftb_state (tc_james d) \<in> {FTB_PartiallyDisengagingIdler, FTB_DisengagingIdler, FTB_OK} \<longrightarrow>
          filament_loaded w = InNozzle)
     \<and> (state_of tool_ob w = P_OK \<longrightarrow> filament_loaded w = InNozzle \<and> error_of tool_ob w = E_OK)"

lemma tc_inv_other:
  "tc_plannedSlot d = slot \<Longrightarrow> active_slot w = slot \<or> state_of tool_ob w \<in> {P_UnloadingFilament, P_ERRInternal} \<Longrightarrow>
     state_of tool_ob w \<notin> {P_FeedingToBondtech, P_OK} \<Longrightarrow> tc_inv slot d w"
  by (auto simp: tc_inv_def)

lemma tc_inv_error:
  "tc_plannedSlot d = slot \<Longrightarrow> active_slot w = slot \<Longrightarrow> tc_inv slot d (GoToErrDisengagingIdler tool_ob ec w)"
  using GoToErrDisengagingIdler_state[of tool_ob ec w] by (intro tc_inv_other) auto

lemma tc_inv_feed:
  assumes "tc_plannedSlot d = slot"
  shows "tc_inv slot (fst (TC_GoToFeedingToFinda (d, w))) (snd (TC_GoToFeedingToFinda (d, w)))"
proof -
  define v where "v = set_filament slot AtPulley (set_error tool_ob E_RUNNING (set_state tool_ob P_FeedingToFinda w))"
  obtain ok f u where f: "FeedToFinda_Reset True False (tc_feed d, v) = (ok, f, u)" by (metis prod_cases3)
  have "active_slot u = active_slot v" using automata_active_slot(1)[of True False "tc_feed d" v] by (simp only: f snd_conv)
  then have u: "active_slot u = slot" by (simp add: v_def)
  have "intact tool_ob v u" using automata_intact(1)[OF intact_refl, of tool_ob v True False "tc_feed d"] by (simp only: f snd_conv)
  then have "state_of tool_ob u \<in> {P_FeedingToFinda, P_ERRInternal}" by (auto elim!: intact_cases simp: v_def)
  with u f assms show ?thesis
    by (auto simp: TC_GoToFeedingToFinda_def v_def[symmetric] Let_def intro!: tc_inv_error tc_inv_other)
qed

lemma tc_inv_Reset:
  assumes "state_of tool_ob w \<in> {P_OK, P_ERRWaitingForUser}" "slot < toolCount"
    and "state_of tool_ob w = P_ERRWaitingForUser \<Longrightarrow> tc_plannedSlot d = slot"
  shows "tc_inv slot (fst (snd (ToolChange_Reset slot (d, w)))) (snd (snd (ToolChange_Reset slot (d, w))))"
proof -
  define c where "c = snd (CheckToolIndex tool_ob slot w)"
  have c: "m_globals c = m_globals w" "state_of tool_ob c = state_of tool_ob w" "error_of tool_ob c = E_OK"
    "CheckToolIndex tool_ob slot w = (True, c)"
    using assms(2) by (simp_all add: c_def prod_eq_iff)
  let ?d = "d\<lparr>tc_plannedSlot := slot\<rparr>"
  consider (loaded) "slot = active_slot w" "filament_loaded w = InNozzle"
    | (unload) "\<not> (slot = active_slot w \<and> filament_loaded w = InNozzle)" "InSelector \<le> filament_loaded w"
    | (feed) "\<not> (slot = active_slot w \<and> filament_loaded w = InNozzle)" "\<not> InSelector \<le> filament_loaded w"
    by blast
  then show ?thesis
  proof cases
    case loaded
    then have "ToolChange_Reset slot (d, w) = (True, d, c)" using c by (simp add: ToolChange_Reset_def)
    with loaded c assms(1,3) show ?thesis by (auto simp: tc_inv_def)
  next
    case unload
    define v where "v = set_state tool_ob P_UnloadingFilament (inp (SetPrinterInCharge True) c)"
    let ?r = "UnloadFilament_Reset2 tool_unl (active_slot v) (tc_unl d, v)"
    have "intact tool_ob v (snd (snd ?r))" by (rule UnloadFilament_intact(2)[OF _ intact_refl]) simp
    then have "state_of tool_ob (snd (snd ?r)) \<in> {P_UnloadingFilament, P_ERRInternal}"
      by (auto elim!: intact_cases simp: v_def)
    moreover have "ToolChange_Reset slot (d, w) = (True, ?d\<lparr>tc_unl := fst (snd ?r)\<rparr>, snd (snd ?r))"
    proof (cases ?r)
      case (fields x u y)
      with unload c(1,4) show ?thesis by (auto simp: ToolChange_Reset_def v_def Let_def)
    qed
    ultimately show ?thesis by (auto intro!: tc_inv_other)
  next
    case feed
    define v where "v = set_filament slot InSelector (inp (SetPrinterInCharge True) c)"
    obtain ok f u where f: "FeedToFinda_Reset True False (tc_feed d, v) = (ok, f, u)" by (metis prod_cases3)
    have "active_slot u = active_slot v" using automata_active_slot(1)[of True False "tc_feed d" v] by (simp only: f snd_conv)
    then have u: "active_slot u = slot" by (simp add: v_def)
    have "ToolChange_Reset slot (d, w) = (True, ?d\<lparr>tc_feed := f\<rparr>,
        if ok then set_error tool_ob E_RUNNING (set_state tool_ob P_FeedingToFinda u)
        else GoToErrDisengagingIdler tool_ob FINDA_FLICKERS u)"
      using feed f by (auto simp: ToolChange_Reset_def c v_def[symmetric] Let_def)
    with u show ?thesis by (auto intro: tc_inv_error tc_inv_other)
  qed
qed

lemma FeedToBondtech_Step_nozzle:
  assumes "ftb_state f \<in> {FTB_PartiallyDisengagingIdler, FTB_DisengagingIdler, FTB_OK} \<longrightarrow> filament_loaded w = InNozzle"
    and "FeedToBondtech_Step (f, w) = (r, f', w')"
    and "ftb_state f' \<in> {FTB_PartiallyDisengagingIdler, FTB_DisengagingIdler, FTB_OK}"
  shows "filament_loaded w' = InNozzle"
  using assms by (cases "ftb_state f") (auto simp: FeedToBondtech_Step_def GoToPushToNozzle_def Let_def split: if_splits)

lemma ToolChangeFinishedCorrectly_frame [simp]:
  "m_globals (ToolChangeFinishedCorrectly w) = m_globals w" "state_of tool_ob (ToolChangeFinishedCorrectly w) = P_OK"
  "error_of tool_ob (ToolChangeFinishedCorrectly w) = E_OK"
  by (simp_all add: ToolChangeFinishedCorrectly_def)

lemma tc_inv_try_again:
  assumes "tc_plannedSlot d = slot" "active_slot w = slot" "state_of tool_ob w = P_ERRWaitingForUser" "slot < toolCount"
  shows "tc_inv slot (fst (TC_try_again (d, w))) (snd (TC_try_again (d, w)))"
proof -
  define v where "v = InvalidateHoming w"
  have v: "active_slot v = slot" "state_of tool_ob v = P_ERRWaitingForUser" "finda_pressed v = finda_pressed w"
    using assms(2,3) by (simp_all add: v_def state_of_def)
  show ?thesis
    using tc_inv_Reset[of v slot d] tc_inv_feed[of d slot v] assms(1,4) v
    by (simp add: TC_try_again_def v_def[symmetric] Let_def)
qed

lemma tc_inv_step:
  assumes "tc_inv slot d w" "slot < toolCount"
  shows "tc_inv slot (fst (snd (ToolChange_StepInner (d, w)))) (snd (snd (ToolChange_StepInner (d, w))))"
proof (cases "state_of tool_ob w")
  case P_UnloadingFilament
  let ?r = "UnloadFilament_StepInner tool_unl (tc_unl d, w)"
  have "intact tool_ob w (snd (snd ?r))" by (rule UnloadFilament_intact(3)[OF _ intact_refl]) simp
  then have "state_of tool_ob (snd (snd ?r)) \<in> {P_UnloadingFilament, P_ERRInternal}"
    using P_UnloadingFilament by (auto elim: intact_cases)
  moreover have "tc_plannedSlot d = slot" using assms(1) P_UnloadingFilament by (simp add: tc_inv_def)
  ultimately show ?thesis using P_UnloadingFilament tc_inv_feed[of "d\<lparr>tc_unl := fst (snd ?r)\<rparr>" slot "snd (snd ?r)"]
    by (auto simp: ToolChange_StepInner_def case_prod_beta Let_def intro!: tc_inv_other)
next
  case P_FeedingToFinda
  then have d: "tc_plannedSlot d = slot" "active_slot w = slot" using assms(1) by (simp_all add: tc_inv_def)
  obtain r f v where st: "FeedToFinda_Step (tc_feed d, w) = (r, f, v)" by (metis prod_cases3)
  have "active_slot v = active_slot w" using automata_active_slot(2)[of "tc_feed d" w] by (simp only: st snd_conv)
  then have v: "active_slot v = slot" using d by simp
  have "intact tool_ob w v" using automata_intact(2)[OF intact_refl, of tool_ob w "tc_feed d"] by (simp only: st snd_conv)
  then have "state_of tool_ob v \<in> {P_FeedingToFinda, P_ERRInternal}" using P_FeedingToFinda by (auto elim: intact_cases)
  moreover have "tc_inv slot (fst (GoToFeedingToBondtech (d', v))) (snd (GoToFeedingToBondtech (d', v)))"
    if "tc_plannedSlot d' = slot" for d' using that v automata_active_slot(3)[of 3 "tc_james d'" v]
    by (simp add: GoToFeedingToBondtech_def tc_inv_def case_prod_beta Let_def FeedToBondtech_Reset_def)
  ultimately show ?thesis using P_FeedingToFinda d v st
    by (auto simp: ToolChange_StepInner_def Let_def intro!: tc_inv_other tc_inv_error)
next
  case P_FeedingToBondtech
  then have d: "tc_plannedSlot d = slot" "active_slot w = slot" using assms(1) by (simp_all add: tc_inv_def)
  obtain r f v where st: "FeedToBondtech_Step (tc_james d, w) = (r, f, v)" by (metis prod_cases3)
  have "active_slot v = active_slot w" using automata_active_slot(4)[of "tc_james d" w] by (simp only: st snd_conv)
  then have v: "active_slot v = slot" using d by simp
  have "intact tool_ob w v" using automata_intact(4)[OF intact_refl, of tool_ob w "tc_james d"] by (simp only: st snd_conv)
  then have s: "state_of tool_ob v \<in> {P_FeedingToBondtech, P_ERRInternal}" using P_FeedingToBondtech by (auto elim: intact_cases)
  have nozzle: "ftb_state f \<in> {FTB_PartiallyDisengagingIdler, FTB_DisengagingIdler, FTB_OK} \<Longrightarrow> filament_loaded v = InNozzle"
    using FeedToBondtech_Step_nozzle[OF _ st] assms(1) P_FeedingToBondtech by (simp add: tc_inv_def)
  have "r \<Longrightarrow> ftb_final f" using bondtech.finished_final[of "tc_james d" w] by (simp add: st)
  then have "r \<Longrightarrow> ftb_state f \<notin> {FTB_Failed, FTB_FSensorTooEarly} \<Longrightarrow> filament_loaded v = InNozzle"
    using nozzle by (auto simp: ftb_final_def)
  then have finished: "r \<Longrightarrow> ftb_state f \<notin> {FTB_Failed, FTB_FSensorTooEarly} \<Longrightarrow>
      tc_inv slot (d\<lparr>tc_james := f\<rparr>) (ToolChangeFinishedCorrectly v)"
    using v by (simp add: tc_inv_def)
  have going: "tc_inv slot (d\<lparr>tc_james := f\<rparr>) v"
    using s nozzle d(1) v by (auto simp: tc_inv_def)
  have "tc_inv slot (d\<lparr>tc_james := f\<rparr>) (GoToErrDisengagingIdler tool_ob ec v)" for ec
    using d(1) v by (intro tc_inv_error) simp_all
  with finished going P_FeedingToBondtech show ?thesis
    by (simp add: ToolChange_StepInner_def st Let_def)
next
  case P_ERRWaitingForUser
  define v where "v = w\<lparr>m_userInput := snd (ConsumeEvent (m_userInput w))\<rparr>"
  have v: "active_slot v = slot" "state_of tool_ob v = P_ERRWaitingForUser" "tc_plannedSlot d = slot"
    using assms(1) P_ERRWaitingForUser by (simp_all add: v_def state_of_def tc_inv_def)
  then show ?thesis using P_ERRWaitingForUser tc_inv_try_again[OF v(3,1,2) assms(2)] tc_inv_other[of d slot v]
    by (simp add: ToolChange_StepInner_def v_def case_prod_beta Let_def)
next
  case P_ERRDisengagingIdler
  with assms show ?thesis by (simp add: ToolChange_StepInner_def tc_inv_def)
qed (use assms in \<open>simp_all add: ToolChange_StepInner_def tc_inv_def\<close>)

section \<open>Properties\<close>

text \<open>C12: a tool change that finishes has loaded the requested slot. When the firmware is ready for a command and
  a tool change to a slot of the machine is started, then whenever it reports that it is done, by whatever
  unloads, errors and user interventions, that slot is active, its filament is recorded in the nozzle, and no
  error is left.\<close>

theorem tool_change_loads_requested_slot:
  assumes "\<forall>env \<in> set envs. \<forall>v. m_globals (env v) = m_globals v \<and> m_base (env v) = m_base v"
    and "state_of tool_ob w = P_OK"
    and "ToolChange_Reset slot (d, w) = (True, d0, w0)"
    and "run_automaton ToolChange_StepInner envs (d0, w0) = (d', w')"
    and "state_of tool_ob w' = P_OK"
  shows "active_slot w' = slot \<and> filament_loaded w' = InNozzle \<and> error_of tool_ob w' = E_OK"
proof -
  have slot: "slot < toolCount" using ToolChange_Reset_accepted[of slot d w] assms(3) by simp
  have start: "tc_inv slot (fst (d0, w0)) (snd (d0, w0))"
    using tc_inv_Reset[of w slot d] assms(2,3) slot by simp
  have "tc_inv slot (fst (run_automaton ToolChange_StepInner envs (d0, w0)))
      (snd (run_automaton ToolChange_StepInner envs (d0, w0)))"
  proof (rule run_invariant[of "tc_inv slot", OF start])
    show "tc_inv slot (fst (snd (ToolChange_StepInner (s, v)))) (snd (snd (ToolChange_StepInner (s, v))))"
      if "tc_inv slot s v" for s v using tc_inv_step[OF that slot] .
    show "tc_inv slot s (env v)" if "env \<in> set envs" "tc_inv slot s v" for env s v
      using assms(1) that by (simp add: tc_inv_def state_of_def error_of_def)
  qed
  with assms(4,5) show ?thesis by (simp add: tc_inv_def)
qed

theorem tool_change_loads_requested_slot_witness:
  "active_slot (snd (run_automaton ToolChange_StepInner [idler_at 5 disengage]
     (snd (ToolChange_Reset 2 (ToolChange_new, in_nozzle))))) = 2"
proof -
  have w: "state_of tool_ob in_nozzle = P_OK" "active_slot in_nozzle = 2" "filament_loaded in_nozzle = InNozzle"
    by (simp_all add: in_nozzle_def) (simp add: state_of_def mmu_new_def CommandBase_new_def)
  define w0 where "w0 = set_error tool_ob E_OK in_nozzle"
  have s0: "ToolChange_Reset 2 (ToolChange_new, in_nozzle) = (True, ToolChange_new, w0)"
    using w by (simp add: ToolChange_Reset_def CheckToolIndex_def toolCount_def w0_def)
  have env: "\<forall>env \<in> set [idler_at 5 disengage]. \<forall>v. m_globals (env v) = m_globals v \<and> m_base (env v) = m_base v"
    by simp
  have "state_of tool_ob (idler_at 5 disengage w0) = P_OK" using w by (simp add: w0_def)
  then have run: "run_automaton ToolChange_StepInner [idler_at 5 disengage] (ToolChange_new, w0)
      = (ToolChange_new, idler_at 5 disengage w0)"
    by (simp add: tool_cmd.inner_finished)
  from tool_change_loads_requested_slot[OF env w(1) s0 run] show ?thesis
    using w by (simp only: s0 run snd_conv) (simp add: w0_def)
qed

end
