(* ===== verification/Cut_Filament.thy ===== *)
theory Cut_Filament
  imports Tool_Change
begin

text \<open>
  Cutting filament (\<open>logic/cut_filament.cpp\<close>): unload, feed the slot to FINDA and back, move the selector
  aside, push the filament out and let the selector cut it at high current and low speed.
\<close>

section \<open>The command\<close>

record CutFilament =
  cf_unl :: UnloadFilament
  cf_feed :: FeedToFinda
  cf_retract :: RetractFromFinda
  cf_cutSlot :: u8
  cf_savedSelectorFeedRate_mm_s :: u16

definition CutFilament_new :: CutFilament where
  "CutFilament_new = \<lparr>cf_unl = UnloadFilament_new, cf_feed = FeedToFinda_new, cf_retract = RetractFromFinda_new,
     cf_cutSlot = 0, cf_savedSelectorFeedRate_mm_s = 0\<rparr>"

abbreviation cut_ob :: obj where "cut_ob \<equiv> Cmd cutFilament"
abbreviation cut_unl :: obj where "cut_unl \<equiv> Unl cutFilament"

definition CF_MoveSelector :: "u8 \<Rightarrow> mmu \<Rightarrow> mmu" where
  "CF_MoveSelector slot w =
     (let (r, w) = Selector_MoveToSlot slot w
      in if r \<noteq> Accepted then GoToErrDisengagingIdler cut_ob FINDA_FLICKERS w else w)"

definition SelectFilamentSlot :: "CutFilament \<times> mmu \<Rightarrow> CutFilament \<times> mmu" where
  "SelectFilamentSlot = (\<lambda>(d, w).
     let w = set_state cut_ob P_SelectingFilamentSlot w;
         w = snd (Idler_Engage (cf_cutSlot d) w);
         w = CF_MoveSelector (cf_cutSlot d) w
     in (d, led (SetPairButOffOthers (cf_cutSlot d) blink0 LedOff) w))"

definition CutFilament_Reset :: "u8 \<Rightarrow> CutFilament \<times> mmu \<Rightarrow> bool \<times> CutFilament \<times> mmu" where
  "CutFilament_Reset param = (\<lambda>(d, w).
     let (ok, w) = CheckToolIndex cut_ob param w
     in if \<not> ok then (False, d, w)
        else
          let w = set_error cut_ob E_RUNNING w;
              d = d\<lparr>cf_cutSlot := param\<rparr>
          in if InSelector \<le> filament_loaded w then
               let (_, u, w) = UnloadFilament_Reset cut_unl (cf_cutSlot d)
                     (cf_unl d, set_state cut_ob P_UnloadingFilament w)
               in (True, d\<lparr>cf_unl := u\<rparr>, w)
             else (True, SelectFilamentSlot (d, w)))"

definition set_globals :: "(Globals \<Rightarrow> Globals) \<Rightarrow> mmu \<Rightarrow> mmu" where
  "set_globals f w = w\<lparr>m_globals := f (m_globals w)\<rparr>"

text \<open>The end of \<open>DisengagingIdler\<close>: the selector gets the cutting current and the homing speed.\<close>

definition CF_perform_cut :: "CutFilament \<times> mmu \<Rightarrow> CutFilament \<times> mmu" where
  "CF_perform_cut = (\<lambda>(d, w).
     let w = set_state cut_ob P_PerformingCut w;
         w = mot (\<lambda>m. snd (InitAxis_currents Selector
               (MotorCurrents_new (g_cutIRunCurrent (m_globals w)) (ac_iHold selector)) m)) w;
         d = d\<lparr>cf_savedSelectorFeedRate_mm_s := u16_of_unit (SelectorFeedrate_mm_s (m_globals w))\<rparr>;
         w = set_globals (\<lambda>g. g\<lparr>g_selectorFeedrate_mm_s := u16_of_unit (SelectorHomingFeedrate_mm_s g)\<rparr>) w
     in (d, CF_MoveSelector (cf_cutSlot d) w))"

text \<open>The end of \<open>PerformingCut\<close>: both are reverted and the selector homes.\<close>

definition CF_revert :: "CutFilament \<times> mmu \<Rightarrow> CutFilament \<times> mmu" where
  "CF_revert = (\<lambda>(d, w).
     let w = set_state cut_ob P_Homing w;
         w = mot (\<lambda>m. snd (InitAxis_currents Selector (MotorCurrents_new (ac_iRun selector) (ac_iHold selector)) m)) w;
         w = set_globals (\<lambda>g. g\<lparr>g_selectorFeedrate_mm_s := cf_savedSelectorFeedRate_mm_s d\<rparr>) w;
         w = MB_InvalidateHoming Selector w
     in (d, Pulley_PlanMove (- cuttingEdgeRetract) (PulleySlowFeedrate_mm_s (m_globals w)) 0 w))"

definition CutFilament_StepInner :: "CutFilament \<times> mmu \<Rightarrow> bool \<times> CutFilament \<times> mmu" where
  "CutFilament_StepInner = (\<lambda>(d, w).
     case state_of cut_ob w of
       P_UnloadingFilament \<Rightarrow>
         let (finished, u, w) = UnloadFilament_StepInner cut_unl (cf_unl d, w);
             d = d\<lparr>cf_unl := u\<rparr>
         in if finished then (False, SelectFilamentSlot (d, w)) else (False, d, w)
     | P_SelectingFilamentSlot \<Rightarrow>
         if Engaged w \<and> mv_currentSlot (m_movable w Selector) = cf_cutSlot d then
           let w = set_filament (cf_cutSlot d) AtPulley w;
               (ok, f, w) = FeedToFinda_Reset True True (cf_feed d, w);
               d = d\<lparr>cf_feed := f\<rparr>
           in if ok then (False, d, set_error cut_ob E_RUNNING (set_state cut_ob P_FeedingToFinda w))
              else (False, d, GoToErrDisengagingIdler cut_ob FINDA_FLICKERS w)
         else (False, d, w)
     | P_FeedingToFinda \<Rightarrow>
         let (finished, f, w) = FeedToFinda_Step (cf_feed d, w);
             d = d\<lparr>cf_feed := f\<rparr>
         in if finished then
              if ftf_state f = FTF_Failed then
                (False, d, GoToErrDisengagingIdler cut_ob FINDA_DIDNT_SWITCH_ON w)
              else
                let (r, w) = RetractFromFinda_Reset (set_state cut_ob P_RetractingFromFinda w)
                in (False, d\<lparr>cf_retract := r\<rparr>, w)
            else (False, d, w)
     | P_RetractingFromFinda \<Rightarrow>
         let (finished, r, w) = RetractFromFinda_Step (cf_retract d, w);
             d = d\<lparr>cf_retract := r\<rparr>
         in if finished then
              if r = RFF_Failed then (False, d, GoToErrDisengagingIdler cut_ob FINDA_DIDNT_SWITCH_OFF w)
              else
                let w = set_filament (cf_cutSlot d) AtPulley (set_state cut_ob P_PreparingBlade w);
                    w = led (ActiveSlotProcessing (active_slot w)) w
                in (False, d, CF_MoveSelector (cf_cutSlot d + 1) w)
            else (False, d, w)
     | P_PreparingBlade \<Rightarrow>
         if unat (mv_currentSlot (m_movable w Selector)) = unat (cf_cutSlot d) + 1 then
           (False, d, Pulley_PlanMove (CutLength_mm (m_globals w) + cuttingEdgeRetract)
              (PulleySlowFeedrate_mm_s (m_globals w)) 0 (set_state cut_ob P_PushingFilament w))
         else (False, d, w)
     | P_PushingFilament \<Rightarrow>
         if Motion_QueueEmpty (m_motion w) then
           (False, d, snd (Idler_Disengage (set_state cut_ob P_DisengagingIdler w)))
         else (False, d, w)
     | P_DisengagingIdler \<Rightarrow>
         if Disengaged w then (False, CF_perform_cut (d, w)) else (False, d, w)
     | P_PerformingCut \<Rightarrow>
         if mv_currentSlot (m_movable w Selector) = cf_cutSlot d then (False, CF_revert (d, w)) else (False, d, w)
     | P_Homing \<Rightarrow>
         if mv_homingValid (m_movable w Selector) then (False, d, set_state cut_ob P_ReturningSelector w)
         else (False, d, w)
     | P_ReturningSelector \<Rightarrow>
         if mv_state (m_movable w Selector) = Ready then
           let w = FinishedOK cut_ob w
           in (False, d, led (ActiveSlotDonePrimed (active_slot w)) w)
         else (False, d, w)
     | P_OK \<Rightarrow> (True, d, w)
     | P_ERRDisengagingIdler \<Rightarrow> (False, d, ErrDisengagingIdler cut_ob w)
     | P_ERRWaitingForUser \<Rightarrow>
         let (ev, u) = ConsumeEvent (m_userInput w);
             w = w\<lparr>m_userInput := u\<rparr>
         in if ev = Ev_Middle then (False, snd (CutFilament_Reset (cf_cutSlot d) (d, InvalidateHoming w)))
            else (False, d, w)
     | _ \<Rightarrow> (True, d, internal_error cut_ob w))"

definition CutFilament_State :: "mmu \<Rightarrow> ProgressCode" where
  "CutFilament_State w = (if state_of cut_ob w = P_UnloadingFilament then state_of cut_unl w else state_of cut_ob w)"

definition CutFilament_Error :: "mmu \<Rightarrow> ErrorCode" where
  "CutFilament_Error w = (if state_of cut_ob w = P_UnloadingFilament then error_of cut_unl w else error_of cut_ob w)"

section \<open>The command fulfils the contract\<close>

lemma set_globals_frame [simp]:
  "m_globals (set_globals f w) = f (m_globals w)" "m_movable (set_globals f w) = m_movable w"
  "m_base (set_globals f w) = m_base w" "m_motion (set_globals f w) = m_motion w"
  "state_of ob (set_globals f w) = state_of ob w" "mmu_wf (set_globals f w) = mmu_wf w"
  "m_finda (set_globals f w) = m_finda w" "m_userInput (set_globals f w) = m_userInput w"
  by (simp_all add: set_globals_def state_of_def)

lemma CF_MoveSelector_wf: "mmu_wf w \<Longrightarrow> mmu_wf (CF_MoveSelector slot w)"
  by (auto simp: CF_MoveSelector_def case_prod_beta intro!: command_wf)

lemma SelectFilamentSlot_wf: "mmu_wf w \<Longrightarrow> mmu_wf (snd (SelectFilamentSlot (d, w)))"
  unfolding SelectFilamentSlot_def
  by (auto simp: Let_def intro!: command_wf mmu_wf_led CF_MoveSelector_wf)

lemma CutFilament_Reset_wf: "mmu_wf w \<Longrightarrow> mmu_wf (snd (snd (CutFilament_Reset p (d, w))))"
  by (auto simp: CutFilament_Reset_def Let_def case_prod_beta
      intro!: command_wf SelectFilamentSlot_wf UnloadFilament_Reset_wf)

lemma CF_perform_cut_wf: "mmu_wf w \<Longrightarrow> mmu_wf (snd (CF_perform_cut (d, w)))"
  by (auto simp: CF_perform_cut_def Let_def intro!: CF_MoveSelector_wf mmu_wf_mot motion_wf_frames)

lemma CF_revert_wf: "mmu_wf w \<Longrightarrow> mmu_wf (snd (CF_revert (d, w)))"
  by (auto simp: CF_revert_def Let_def intro!: command_wf mmu_wf_mot motion_wf_frames)

lemma CutFilament_StepInner_wf:
  assumes "mmu_wf w" shows "mmu_wf (snd (snd (CutFilament_StepInner (d, w))))"
proof (cases "state_of cut_ob w")
  case P_UnloadingFilament
  have "mmu_wf (snd (snd (UnloadFilament_StepInner cut_unl (cf_unl d, w))))" using assms by (rule unload_cmd.inner_wf)
  then show ?thesis using P_UnloadingFilament
    by (simp add: CutFilament_StepInner_def Let_def case_prod_beta SelectFilamentSlot_wf)
next
  case P_FeedingToFinda
  have "mmu_wf (snd (snd (FeedToFinda_Step (cf_feed d, w))))" using assms by (rule automata_wf)
  then show ?thesis using P_FeedingToFinda
    by (simp add: CutFilament_StepInner_def Let_def case_prod_beta command_wf automata_wf)
next
  case P_RetractingFromFinda
  have "mmu_wf (snd (snd (RetractFromFinda_Step (cf_retract d, w))))" using assms by (rule automata_wf)
  then show ?thesis using P_RetractingFromFinda
    by (simp add: CutFilament_StepInner_def Let_def case_prod_beta command_wf CF_MoveSelector_wf)
qed (use assms in \<open>simp_all add: CutFilament_StepInner_def Let_def case_prod_beta command_wf automata_wf
    CF_MoveSelector_wf CutFilament_Reset_wf CF_perform_cut_wf CF_revert_wf ConsumeEvent_mmu_wf\<close>)

interpretation cut_cmd: command cut_ob CutFilament_StepInner
  by unfold_locales (rule CutFilament_StepInner_wf, assumption, simp add: CutFilament_StepInner_def)

section \<open>Properties\<close>

lemma u16_of_unit_of_u16 [simp]: "u16_of_unit (unit_of_u16 x) = x"
  by (simp only: u16_of_unit_def unit_of_u16_def truncate_rat_of_nat) simp

lemma CF_MoveSelector_globals [simp]: "m_globals (CF_MoveSelector sl w) = m_globals w"
  by (simp add: CF_MoveSelector_def case_prod_beta GoToErrDisengagingIdler_state(3))

lemma CF_perform_cut_rates:
  assumes "CF_perform_cut (d, w) = (d1, w1)"
  shows "cf_savedSelectorFeedRate_mm_s d1 = g_selectorFeedrate_mm_s (m_globals w)"
    "g_selectorFeedrate_mm_s (m_globals w1) = g_selectorHomingFeedrate_mm_s (m_globals w)"
    "g_selectorHomingFeedrate_mm_s (m_globals w1) = g_selectorHomingFeedrate_mm_s (m_globals w)"
    "cf_cutSlot d1 = cf_cutSlot d"
  using assms by (auto simp: CF_perform_cut_def SelectorFeedrate_mm_s_def SelectorHomingFeedrate_mm_s_def Let_def)


text \<open>A machine that is about to cut, with the configured selector feedrate of 45 and the homing feedrate of 30.\<close>

definition about_to_cut :: mmu where
  "about_to_cut = set_state cut_ob P_DisengagingIdler (idler_at 5 disengage
     (set_globals (\<lambda>g. g\<lparr>g_selectorFeedrate_mm_s := 45, g_selectorHomingFeedrate_mm_s := 30\<rparr>) (mmu_new idle_hw blank_eeprom)))"


end
