(* ===== verification/Eject_Filament.thy ===== *)
theory Eject_Filament
  imports Cut_Filament
begin

text \<open>
  Ejecting filament (\<open>logic/eject_filament.cpp\<close>): unload, park the selector away from the slot, push the
  filament out and wait for the user to take it.
\<close>

section \<open>The command\<close>

record EjectFilament =
  ef_unl :: UnloadFilament
  ef_slot :: u8

definition EjectFilament_new :: EjectFilament where
  "EjectFilament_new = \<lparr>ef_unl = UnloadFilament_new, ef_slot = 0\<rparr>"

abbreviation eject_ob :: obj where "eject_ob \<equiv> Cmd ejectFilament"
abbreviation eject_unl :: obj where "eject_unl \<equiv> Unl ejectFilament"

definition MoveSelectorAside :: "EjectFilament \<times> mmu \<Rightarrow> EjectFilament \<times> mmu" where
  "MoveSelectorAside = (\<lambda>(d, w).
     let w = set_error eject_ob E_RUNNING (set_state eject_ob P_ParkingSelector w);
         selectorParkedPos = (if ef_slot d \<le> 2 then 4 else 0);
         (r, w) = Selector_MoveToSlot selectorParkedPos w
     in if r = Refused then (d, GoToErrDisengagingIdler eject_ob FINDA_FLICKERS w) else (d, w))"

definition EjectFilament_Reset :: "u8 \<Rightarrow> EjectFilament \<times> mmu \<Rightarrow> bool \<times> EjectFilament \<times> mmu" where
  "EjectFilament_Reset param = (\<lambda>(d, w).
     let (ok, w) = CheckToolIndex eject_ob param w
     in if \<not> ok then (False, d, w)
        else
          let w = set_error eject_ob E_RUNNING w;
              d = d\<lparr>ef_slot := param\<rparr>
          in if AtPulley \<le> filament_loaded w then
               let (_, u, w) = UnloadFilament_Reset eject_unl param
                     (ef_unl d, set_state eject_ob P_UnloadingFilament w)
               in (True, d\<lparr>ef_unl := u\<rparr>, w)
             else (True, MoveSelectorAside (d, w)))"

text \<open>The middle button while waiting for the user.\<close>

definition EF_confirm :: "EjectFilament \<times> mmu \<Rightarrow> EjectFilament \<times> mmu" where
  "EF_confirm = (\<lambda>(d, w).
     let w = ResumeIdlerSelector w
     in if error_of eject_ob w = FILAMENT_EJECTED then (d, FinishedOK eject_ob (led LEDs_SetAllOff w))
        else if error_of eject_ob w = FINDA_FLICKERS then MoveSelectorAside (d, w)
        else (d, w))"

definition EjectFilament_StepInner :: "EjectFilament \<times> mmu \<Rightarrow> bool \<times> EjectFilament \<times> mmu" where
  "EjectFilament_StepInner = (\<lambda>(d, w).
     case state_of eject_ob w of
       P_UnloadingFilament \<Rightarrow>
         let (finished, u, w) = UnloadFilament_StepInner eject_unl (ef_unl d, w);
             d = d\<lparr>ef_unl := u\<rparr>
         in if finished then (False, MoveSelectorAside (d, w)) else (False, d, w)
     | P_ParkingSelector \<Rightarrow>
         if Motion_QueueEmpty (m_motion w) then
           (False, d, snd (Idler_Engage (ef_slot d) (set_state eject_ob P_EngagingIdler w)))
         else (False, d, w)
     | P_EngagingIdler \<Rightarrow>
         if Engaged w then
           let w = Pulley_InitAxis (set_state eject_ob P_EjectingFilament w)
           in (False, d, Pulley_PlanMove ejectFromCuttingEdge (PulleySlowFeedrate_mm_s (m_globals w)) 0 w)
         else (False, d, w)
     | P_EjectingFilament \<Rightarrow>
         if Motion_QueueEmpty (m_motion w) then (False, d, GoToErrDisengagingIdler eject_ob FILAMENT_EJECTED w)
         else (False, d, w)
     | P_ERRDisengagingIdler \<Rightarrow> (False, d, ErrDisengagingIdler eject_ob w)
     | P_ERRWaitingForUser \<Rightarrow>
         let (ev, u) = ConsumeEvent (m_userInput w);
             w = w\<lparr>m_userInput := u\<rparr>
         in if ev = Ev_Middle then (False, EF_confirm (d, w)) else (False, d, w)
     | P_OK \<Rightarrow> (True, d, w)
     | _ \<Rightarrow> (True, d, internal_error eject_ob w))"

definition EjectFilament_State :: "mmu \<Rightarrow> ProgressCode" where
  "EjectFilament_State w =
     (if state_of eject_ob w = P_UnloadingFilament then state_of eject_unl w else state_of eject_ob w)"

definition EjectFilament_Error :: "mmu \<Rightarrow> ErrorCode" where
  "EjectFilament_Error w =
     (if state_of eject_ob w = P_UnloadingFilament then error_of eject_unl w else error_of eject_ob w)"

section \<open>The command fulfils the contract\<close>

lemma MoveSelectorAside_wf: "mmu_wf w \<Longrightarrow> mmu_wf (snd (MoveSelectorAside (d, w)))"
  by (auto simp: MoveSelectorAside_def Let_def case_prod_beta intro!: command_wf)

lemma EjectFilament_Reset_wf: "mmu_wf w \<Longrightarrow> mmu_wf (snd (snd (EjectFilament_Reset p (d, w))))"
  by (auto simp: EjectFilament_Reset_def Let_def case_prod_beta
      intro!: command_wf MoveSelectorAside_wf UnloadFilament_Reset_wf)

lemma EF_confirm_wf: "mmu_wf w \<Longrightarrow> mmu_wf (snd (EF_confirm (d, w)))"
  by (auto simp: EF_confirm_def Let_def intro!: command_wf MoveSelectorAside_wf)

lemma EjectFilament_StepInner_wf:
  assumes "mmu_wf w" shows "mmu_wf (snd (snd (EjectFilament_StepInner (d, w))))"
proof (cases "state_of eject_ob w")
  case P_UnloadingFilament
  have "mmu_wf (snd (snd (UnloadFilament_StepInner eject_unl (ef_unl d, w))))" using assms by (rule unload_cmd.inner_wf)
  then show ?thesis using P_UnloadingFilament
    by (simp add: EjectFilament_StepInner_def Let_def case_prod_beta MoveSelectorAside_wf)
qed (use assms in \<open>simp_all add: EjectFilament_StepInner_def Let_def case_prod_beta command_wf
    EF_confirm_wf ConsumeEvent_mmu_wf\<close>)

interpretation eject_cmd: command eject_ob EjectFilament_StepInner
  by unfold_locales (rule EjectFilament_StepInner_wf, assumption, simp add: EjectFilament_StepInner_def)

section \<open>The way to the end\<close>

text \<open>The states the machine is in before each step of a run.\<close>

fun run_states :: "('s \<times> mmu \<Rightarrow> bool \<times> 's \<times> mmu) \<Rightarrow> (mmu \<Rightarrow> mmu) list \<Rightarrow> 's \<times> mmu \<Rightarrow> mmu list" where
  "run_states step [] sw = []"
| "run_states step (env # envs) (s, w) = env w # run_states step envs (snd (step (s, env w)))"

lemma run_states_snoc:
  "run_states step (envs @ [env]) sw = run_states step envs sw @ [env (snd (run_automaton step envs sw))]"
  "run_automaton step (envs @ [env]) sw = snd (step (fst (run_automaton step envs sw), env (snd (run_automaton step envs sw))))"
proof -
  have "run_states step (envs @ [env]) sw = run_states step envs sw @ [env (snd (run_automaton step envs sw))]
    \<and> run_automaton step (envs @ [env]) sw = snd (step (fst (run_automaton step envs sw), env (snd (run_automaton step envs sw))))"
  proof (induction envs arbitrary: sw)
    case Nil
    then show ?case by (cases sw) simp
  next
    case (Cons e envs)
    then show ?case by (cases sw) simp
  qed
  then show "run_states step (envs @ [env]) sw = run_states step envs sw @ [env (snd (run_automaton step envs sw))]"
    "run_automaton step (envs @ [env]) sw = snd (step (fst (run_automaton step envs sw), env (snd (run_automaton step envs sw))))"
    by blast+
qed

lemma intact_or_panic: "intact ob u v \<Longrightarrow> state_of ob v = state_of ob u \<or> state_of ob v = P_ERRInternal"
  by (auto elim: intact_cases)

definition deferred :: "mmu \<Rightarrow> ErrorCode" where
  "deferred w = c_deferredErrorCode (m_base w eject_ob)"

definition pushing :: "mmu \<Rightarrow> bool" where
  "pushing w \<longleftrightarrow> state_of eject_ob w = P_EjectingFilament"

definition asks_user :: "mmu \<Rightarrow> bool" where
  "asks_user w \<longleftrightarrow> state_of eject_ob w = P_ERRDisengagingIdler \<and> deferred w = FILAMENT_EJECTED
     \<or> state_of eject_ob w = P_ERRWaitingForUser \<and> error_of eject_ob w = FILAMENT_EJECTED"

lemma MoveSelectorAside_state:
  fixes d w defines "w' \<equiv> snd (MoveSelectorAside (d, w))"
  shows "\<not> pushing w' \<and> \<not> asks_user w' \<and> state_of eject_ob w' \<noteq> P_OK"
proof -
  define u where "u = set_error eject_ob E_RUNNING (set_state eject_ob P_ParkingSelector w)"
  define r where "r = Selector_MoveToSlot (if ef_slot d \<le> 2 then 4 else 0) u"
  have "state_of eject_ob u = P_ParkingSelector" by (simp add: u_def)
  then have "state_of eject_ob (snd r) = P_ParkingSelector \<or> state_of eject_ob (snd r) = P_ERRInternal"
    using intact_or_panic[OF Selector_MoveToSlot_intact] unfolding r_def by metis
  moreover have "w' = (if fst r = Refused then GoToErrDisengagingIdler eject_ob FINDA_FLICKERS (snd r) else snd r)"
    by (simp add: w'_def MoveSelectorAside_def Let_def case_prod_beta flip: u_def r_def)
  ultimately show ?thesis
    using GoToErrDisengagingIdler_state(1,2)[of eject_ob FINDA_FLICKERS "snd r"]
    by (auto simp: pushing_def asks_user_def deferred_def FINDA_FLICKERS_def FILAMENT_EJECTED_def)
qed

text \<open>Each of the stages of the end is only reached from the one before.\<close>

lemma eject_stages:
  fixes d w defines "w' \<equiv> snd (snd (EjectFilament_StepInner (d, w)))"
  shows "pushing w' \<longrightarrow> pushing w \<or> state_of eject_ob w = P_EngagingIdler \<and> Engaged w" (is ?push)
    and "asks_user w' \<longrightarrow> asks_user w \<or> pushing w \<and> Motion_QueueEmpty (m_motion w)" (is ?ask)
    and "state_of eject_ob w' = P_OK \<longrightarrow> state_of eject_ob w = P_OK \<or> state_of eject_ob w = P_ERRWaitingForUser
      \<and> error_of eject_ob w = FILAMENT_EJECTED \<and> fst (ConsumeEvent (m_userInput w)) = Ev_Middle" (is ?ok)
proof -
  note step = w'_def EjectFilament_StepInner_def Let_def case_prod_beta
  define stages where "stages v \<longleftrightarrow> \<not> pushing v \<and> \<not> asks_user v \<and> state_of eject_ob v \<noteq> P_OK" for v
  have other: "stages v" if "state_of eject_ob v \<in> {P_UnloadingFilament, P_EngagingIdler, P_ERRInternal}" for v
    using that by (auto simp: stages_def pushing_def asks_user_def)
  have aside: "stages (snd (MoveSelectorAside (f, v)))" for f v using MoveSelectorAside_state by (simp add: stages_def)
  have quiet: "stages w' \<Longrightarrow> ?push \<and> ?ask \<and> ?ok" by (simp add: stages_def)
  have "?push \<and> ?ask \<and> ?ok"
  proof (cases "state_of eject_ob w")
    case P_UnloadingFilament
    define r where "r = UnloadFilament_StepInner eject_unl (ef_unl d, w)"
    have "intact eject_ob w (snd (snd r))" unfolding r_def by (rule UnloadFilament_intact) auto
    then have "stages (snd (snd r))" using intact_or_panic[of eject_ob w "snd (snd r)"] P_UnloadingFilament by (intro other) auto
    moreover have "w' = (if fst r then snd (MoveSelectorAside (d\<lparr>ef_unl := fst (snd r)\<rparr>, snd (snd r))) else snd (snd r))"
      by (simp add: step P_UnloadingFilament flip: r_def)
    ultimately show ?thesis using aside by (intro quiet) simp
  next
    case P_ParkingSelector
    define v where "v = snd (Idler_Engage (ef_slot d) (set_state eject_ob P_EngagingIdler w))"
    have "state_of eject_ob v = P_EngagingIdler \<or> state_of eject_ob v = P_ERRInternal"
      using intact_or_panic[OF intact_then(1)[OF intact_refl[of eject_ob "set_state eject_ob P_EngagingIdler w"]]]
      by (simp add: v_def)
    moreover have "w' = (if Motion_QueueEmpty (m_motion w) then v else w)" by (simp add: step P_ParkingSelector v_def)
    ultimately show ?thesis using P_ParkingSelector by (auto simp: pushing_def asks_user_def)
  next
    case P_EngagingIdler
    define v where "v = Pulley_PlanMove ejectFromCuttingEdge (PulleySlowFeedrate_mm_s (m_globals w)) 0
      (Pulley_InitAxis (set_state eject_ob P_EjectingFilament w))"
    have "intact eject_ob (set_state eject_ob P_EjectingFilament w) v" unfolding v_def by (intro intact_then intact_refl)
    then have "state_of eject_ob v = P_EjectingFilament \<or> state_of eject_ob v = P_ERRInternal"
      using intact_or_panic by fastforce
    moreover have "w' = (if Engaged w then v else w)" by (simp add: step P_EngagingIdler v_def)
    ultimately show ?thesis using P_EngagingIdler by (auto simp: pushing_def asks_user_def)
  next
    case P_EjectingFilament
    then show ?thesis using GoToErrDisengagingIdler_state(1)[of eject_ob FILAMENT_EJECTED w]
      by (auto simp: step pushing_def asks_user_def)
  next
    case P_ERRDisengagingIdler
    have "w' = ErrDisengagingIdler eject_ob w" by (simp add: step P_ERRDisengagingIdler)
    moreover have "ErrDisengagingIdler eject_ob w = w \<or> Disengaged w"
      by (simp add: ErrDisengagingIdler_def)
    ultimately show ?thesis using P_ERRDisengagingIdler ErrDisengagingIdler_reports[of w eject_ob]
      by (auto simp: pushing_def asks_user_def deferred_def)
  next
    case P_ERRWaitingForUser
    define ev where "ev = ConsumeEvent (m_userInput w)"
    define v where "v = ResumeIdlerSelector (w\<lparr>m_userInput := snd ev\<rparr>)"
    have v: "state_of eject_ob v = state_of eject_ob w" "error_of eject_ob v = error_of eject_ob w"
      by (simp_all add: v_def state_of_def error_of_def)
    have "w' = (if fst ev = Ev_Middle then snd (EF_confirm (d, w\<lparr>m_userInput := snd ev\<rparr>)) else w\<lparr>m_userInput := snd ev\<rparr>)"
      by (simp add: step P_ERRWaitingForUser flip: ev_def)
    moreover have "state_of eject_ob (w\<lparr>m_userInput := snd ev\<rparr>) = P_ERRWaitingForUser"
      "error_of eject_ob (w\<lparr>m_userInput := snd ev\<rparr>) = error_of eject_ob w"
      using P_ERRWaitingForUser by (simp_all add: state_of_def error_of_def)
    moreover have "stages (snd (EF_confirm (d, w\<lparr>m_userInput := snd ev\<rparr>)))" if "error_of eject_ob w \<noteq> FILAMENT_EJECTED"
      using that aside v P_ERRWaitingForUser
      by (auto simp: EF_confirm_def Let_def stages_def pushing_def asks_user_def simp flip: v_def)
    moreover have "state_of eject_ob (snd (EF_confirm (d, w\<lparr>m_userInput := snd ev\<rparr>))) = P_OK" if "error_of eject_ob w = FILAMENT_EJECTED"
      using that v by (simp add: EF_confirm_def Let_def flip: v_def)
    ultimately show ?thesis using P_ERRWaitingForUser unfolding stages_def ev_def pushing_def asks_user_def
      by (cases "error_of eject_ob w = FILAMENT_EJECTED") auto
  qed (simp_all add: step pushing_def asks_user_def)
  then show ?push ?ask ?ok by blast+
qed

lemma eject_keeps_slot: "ef_slot (fst (snd (EjectFilament_StepInner (d, w)))) = ef_slot d"
  by (cases "state_of eject_ob w") (simp_all add: EjectFilament_StepInner_def EF_confirm_def MoveSelectorAside_def Let_def case_prod_beta)

text \<open>A push from an engaged idler to an empty queue, without interruption, among the states a run has been in.\<close>

definition begun :: "mmu list \<Rightarrow> nat \<Rightarrow> nat \<Rightarrow> bool" where
  "begun seen i j \<longleftrightarrow> i < j \<and> state_of eject_ob (seen ! i) = P_EngagingIdler \<and> Engaged (seen ! i)
     \<and> (\<forall>n. i < n \<and> n < j \<longrightarrow> pushing (seen ! n))"

definition pushed :: "mmu list \<Rightarrow> nat \<Rightarrow> bool" where
  "pushed seen j \<longleftrightarrow> (\<exists>i. begun seen i j) \<and> j < length seen \<and> pushing (seen ! j) \<and> Motion_QueueEmpty (m_motion (seen ! j))"

definition confirmed :: "mmu list \<Rightarrow> nat \<Rightarrow> bool" where
  "confirmed seen k \<longleftrightarrow> k < length seen \<and> state_of eject_ob (seen ! k) = P_ERRWaitingForUser
     \<and> error_of eject_ob (seen ! k) = FILAMENT_EJECTED \<and> fst (ConsumeEvent (m_userInput (seen ! k))) = Ev_Middle"

definition eject_inv :: "mmu list \<Rightarrow> mmu \<Rightarrow> bool" where
  "eject_inv seen w \<longleftrightarrow> (pushing w \<longrightarrow> (\<exists>i. begun seen i (length seen))) \<and> (asks_user w \<longrightarrow> (\<exists>j. pushed seen j))
     \<and> (state_of eject_ob w = P_OK \<longrightarrow> (\<exists>j k. pushed seen j \<and> j < k \<and> confirmed seen k))"

lemma seen_more:
  "begun seen i j \<Longrightarrow> j \<le> length seen \<Longrightarrow> begun (seen @ [w]) i j" "pushed seen j \<Longrightarrow> pushed (seen @ [w]) j"
  "confirmed seen k \<Longrightarrow> confirmed (seen @ [w]) k"
  unfolding pushed_def begun_def confirmed_def by (auto simp: nth_append)

lemma eject_inv_step:
  assumes "eject_inv seen w" shows "eject_inv (seen @ [w]) (snd (snd (EjectFilament_StepInner (d, w))))"
proof -
  define w' where "w' = snd (snd (EjectFilament_StepInner (d, w)))"
  note stage = eject_stages[of d w, folded w'_def]
  have go: "\<exists>i. begun (seen @ [w]) i (Suc (length seen))" if p: "pushing w"
  proof -
    obtain i where "begun seen i (length seen)" using assms p by (auto simp: eject_inv_def)
    then have "begun (seen @ [w]) i (Suc (length seen))"
      using p unfolding begun_def by (auto simp: nth_append less_Suc_eq)
    then show ?thesis ..
  qed
  have "\<exists>i. begun (seen @ [w]) i (Suc (length seen))" if "pushing w'"
  proof (cases "pushing w")
    case False
    then have "begun (seen @ [w]) (length seen) (Suc (length seen))" using stage(1) that by (auto simp: begun_def)
    then show ?thesis ..
  qed (rule go)
  moreover have "\<exists>j. pushed (seen @ [w]) j" if "asks_user w'"
  proof (cases "asks_user w")
    case True
    then show ?thesis using assms seen_more(2) unfolding eject_inv_def by blast
  next
    case False
    then have w: "pushing w" "Motion_QueueEmpty (m_motion w)" using stage(2) that by simp_all
    then obtain i where "begun seen i (length seen)" using assms by (auto simp: eject_inv_def)
    then have "pushed (seen @ [w]) (length seen)" using w seen_more(1)[of seen i "length seen" w] by (auto simp: pushed_def)
    then show ?thesis ..
  qed
  moreover have "\<exists>j k. pushed (seen @ [w]) j \<and> j < k \<and> confirmed (seen @ [w]) k" if "state_of eject_ob w' = P_OK"
  proof (cases "state_of eject_ob w = P_OK")
    case True
    then show ?thesis using assms seen_more(2,3) unfolding eject_inv_def by blast
  next
    case False
    then have w: "state_of eject_ob w = P_ERRWaitingForUser" "error_of eject_ob w = FILAMENT_EJECTED"
      "fst (ConsumeEvent (m_userInput w)) = Ev_Middle" using stage(3) that by simp_all
    then obtain j where "pushed seen j" using assms by (auto simp: eject_inv_def asks_user_def)
    moreover have "confirmed (seen @ [w]) (length seen)" using w by (simp add: confirmed_def)
    ultimately show ?thesis using seen_more(2) unfolding pushed_def by blast
  qed
  ultimately show ?thesis by (simp add: eject_inv_def flip: w'_def)
qed

lemma eject_inv_base: "m_base v = m_base w \<Longrightarrow> eject_inv seen v = eject_inv seen w"
  by (simp add: eject_inv_def pushing_def asks_user_def deferred_def state_of_def error_of_def)

lemma eject_inv_run:
  assumes "\<forall>env \<in> set envs. \<forall>v. m_base (env v) = m_base v" "eject_inv [] (snd sw)"
  shows "eject_inv (run_states EjectFilament_StepInner envs sw) (snd (run_automaton EjectFilament_StepInner envs sw))
    \<and> ef_slot (fst (run_automaton EjectFilament_StepInner envs sw)) = ef_slot (fst sw)"
  using assms(1)
proof (induction envs rule: rev_induct)
  case (snoc env envs)
  then show ?case
    using eject_inv_step eject_inv_base[of "env _"] eject_keeps_slot by (simp add: run_states_snoc)
qed (use assms(2) in simp)

lemma eject_inv_Reset:
  assumes "EjectFilament_Reset slot (d, w) = (True, d0, w0)"
  shows "eject_inv [] w0 \<and> ef_slot d0 = slot"
proof -
  define u where "u = set_error eject_ob E_RUNNING (snd (CheckToolIndex eject_ob slot w))"
  define r where "r = UnloadFilament_Reset eject_unl slot (ef_unl (d\<lparr>ef_slot := slot\<rparr>), set_state eject_ob P_UnloadingFilament u)"
  have "intact eject_ob (set_state eject_ob P_UnloadingFilament u) (snd (snd r))"
    unfolding r_def by (rule UnloadFilament_intact) auto
  then have r: "state_of eject_ob (snd (snd r)) \<in> {P_UnloadingFilament, P_ERRInternal}"
    using intact_or_panic[of eject_ob "set_state eject_ob P_UnloadingFilament u"] by fastforce
  have ok: "fst (CheckToolIndex eject_ob slot w)" using assms by (auto simp: EjectFilament_Reset_def case_prod_beta Let_def split: if_splits)
  have "filament_loaded u = filament_loaded w" by (simp add: u_def CheckToolIndex_def)
  then have "EjectFilament_Reset slot (d, w) = (if AtPulley \<le> filament_loaded u
     then (True, d\<lparr>ef_slot := slot, ef_unl := fst (snd r)\<rparr>, snd (snd r)) else (True, MoveSelectorAside (d\<lparr>ef_slot := slot\<rparr>, u)))"
    using ok by (simp add: EjectFilament_Reset_def Let_def case_prod_beta flip: u_def) (simp add: r_def)
  with assms have "(d0, w0) = (if AtPulley \<le> filament_loaded u then (d\<lparr>ef_slot := slot, ef_unl := fst (snd r)\<rparr>, snd (snd r))
      else MoveSelectorAside (d\<lparr>ef_slot := slot\<rparr>, u))" by (auto split: if_splits)
  then have "w0 = snd (snd r) \<or> w0 = snd (MoveSelectorAside (d\<lparr>ef_slot := slot\<rparr>, u))"
    and s: "d0 = d\<lparr>ef_slot := slot, ef_unl := fst (snd r)\<rparr> \<or> d0 = fst (MoveSelectorAside (d\<lparr>ef_slot := slot\<rparr>, u))"
    by (metis fst_conv snd_conv)+
  then have "\<not> pushing w0 \<and> \<not> asks_user w0 \<and> state_of eject_ob w0 \<noteq> P_OK"
    using r MoveSelectorAside_state by (auto simp: pushing_def asks_user_def)
  moreover have "ef_slot d0 = slot" using s by (auto simp: MoveSelectorAside_def Let_def case_prod_beta)
  ultimately show ?thesis by (simp add: eject_inv_def)
qed

section \<open>Properties\<close>

text \<open>C30: an eject only finishes after the filament has been pushed out and the user has confirmed it. When an accepted eject reports that it
  is done, by whatever errors and retries, there was a moment at which the idler was engaged, after which the command did nothing
  but push until the planned move had ended, and a later one at which it waited for the user with the code for an
  ejected filament and the middle button came. The command still is for the slot it was given.\<close>

theorem eject_finishes_after_confirmation:
  assumes "\<forall>env \<in> set envs. \<forall>v. m_base (env v) = m_base v"
    and "EjectFilament_Reset slot (d, w) = (True, d0, w0)"
    and "run_automaton EjectFilament_StepInner envs (d0, w0) = (d', w')"
    and "state_of eject_ob w' = P_OK"
  shows "let seen = run_states EjectFilament_StepInner envs (d0, w0) in ef_slot d' = slot
    \<and> (\<exists>i j k. i < j \<and> j < k \<and> k < length seen
      \<and> state_of eject_ob (seen ! i) = P_EngagingIdler \<and> Engaged (seen ! i)
      \<and> (\<forall>n. i < n \<and> n \<le> j \<longrightarrow> state_of eject_ob (seen ! n) = P_EjectingFilament)
      \<and> Motion_QueueEmpty (m_motion (seen ! j))
      \<and> state_of eject_ob (seen ! k) = P_ERRWaitingForUser \<and> error_of eject_ob (seen ! k) = FILAMENT_EJECTED
      \<and> fst (ConsumeEvent (m_userInput (seen ! k))) = Ev_Middle)"
proof -
  define seen where "seen = run_states EjectFilament_StepInner envs (d0, w0)"
  have "eject_inv seen w' \<and> ef_slot d' = slot"
    using eject_inv_run[OF assms(1), of "(d0, w0)"] eject_inv_Reset[OF assms(2)] assms(3) by (simp add: seen_def)
  then obtain i j k where "begun seen i j" "pushed seen j" "j < k" "confirmed seen k" and s: "ef_slot d' = slot"
    using assms(4) by (auto simp: eject_inv_def pushed_def)
  then show ?thesis
    unfolding Let_def seen_def[symmetric] begun_def pushed_def confirmed_def pushing_def
    by (intro conjI s exI[of _ i] exI[of _ j] exI[of _ k]) (auto simp: order_le_less)
qed

definition at_park :: mmu where
  "at_park = idler_at 5 disengage (set_filament 4 NotLoaded (mmu_new idle_hw blank_eeprom))"

theorem eject_finishes_after_confirmation_witness:
  "\<exists>envs. state_of eject_ob (snd (run_automaton EjectFilament_StepInner envs (snd (EjectFilament_Reset 2 (EjectFilament_new, at_park))))) = P_OK
    \<and> (\<exists>j < length envs. Motion_QueueEmpty (m_motion (run_states EjectFilament_StepInner envs
        (snd (EjectFilament_Reset 2 (EjectFilament_new, at_park))) ! j)))"
proof -
  let ?step = EjectFilament_StepInner and ?d = "EjectFilament_new\<lparr>ef_slot := 2\<rparr>"
  let ?envs = "[idler_at 2 engage, idler_at 2 engage, idler_at 5 disengage, idler_at 5 disengage, pressed_button]"
  have env: "\<forall>env \<in> set ?envs. \<forall>v. m_base (env v) = m_base v" by (simp add: pressed_button_def)
  define u where "u = set_error eject_ob E_RUNNING (set_state eject_ob P_ParkingSelector (set_error eject_ob E_RUNNING (set_error eject_ob E_OK at_park)))"
  define w0 where "w0 = snd (Selector_MoveToSlot 4 u)"
  have in_place: "mv_state (m_movable u Selector) = Ready" "mv_homingValid (m_movable u Selector)" "mv_currentSlot (m_movable u Selector) = 4"
    "\<not> finda_pressed u" "state_of eject_ob u = P_ParkingSelector"
    by (simp_all add: u_def at_park_def)
  have "filament_loaded at_park = NotLoaded" "mv_state (m_movable at_park Selector) = Ready" by (simp_all add: at_park_def)
  then have s0: "EjectFilament_Reset 2 (EjectFilament_new, at_park) = (True, ?d, w0)"
    and w0: "state_of eject_ob w0 = P_ParkingSelector"
    using in_place
    by (simp_all add: EjectFilament_Reset_def MoveSelectorAside_def CheckToolIndex_def toolCount_def fls_order w0_def Let_def
        Selector_MoveToSlot_def movable_states flip: u_def)
  obtain w1 where s1: "?step (?d, idler_at 2 engage w0) = (False, ?d, w1)" and w1: "state_of eject_ob w1 = P_EngagingIdler"
    using w0 by (simp add: EjectFilament_StepInner_def Idler_Engage_def state_of_base[OF request_in_place])
  have "\<not> PG_Full (ctrl (m_motion (Pulley_InitAxis (set_state eject_ob P_EjectingFilament (idler_at 2 engage w1)))) Pulley)"
    using idler_at_sensors(3)[of 2 engage w1 Pulley] by (simp add: Pulley_InitAxis_def)
  then obtain w2 where s2: "?step (?d, idler_at 2 engage w1) = (False, ?d, w2)" and w2: "state_of eject_ob w2 = P_EjectingFilament"
    using w1 by (simp add: EjectFilament_StepInner_def Let_def state_of_base[OF Pulley_PlanMove_room] state_of_base[of "Pulley_InitAxis _"])
  define w3 where "w3 = GoToErrDisengagingIdler eject_ob FILAMENT_EJECTED (idler_at 5 disengage w2)"
  have s3: "?step (?d, idler_at 5 disengage w2) = (False, ?d, w3)" using w2 by (simp add: EjectFilament_StepInner_def w3_def)
  have w3: "state_of eject_ob w3 = P_ERRDisengagingIdler"
    unfolding w3_def GoToErrDisengagingIdler_def Let_def Idler_Disengage_def
    by (subst state_of_base[OF request_in_place]) (simp_all add: state_of_def IdleSlotIndex_def toolCount_def)
  define w4 where "w4 = ErrDisengagingIdler eject_ob (idler_at 5 disengage w3)"
  have s4: "?step (?d, idler_at 5 disengage w3) = (False, ?d, w4)" using w3 by (simp add: EjectFilament_StepInner_def w4_def)
  have w4: "state_of eject_ob w4 = P_ERRWaitingForUser" "error_of eject_ob w4 = FILAMENT_EJECTED"
    using ErrDisengagingIdler_reports[of "idler_at 5 disengage w3" eject_ob]
      GoToErrDisengagingIdler_state(2)[of eject_ob FILAMENT_EJECTED "idler_at 5 disengage w2"] by (simp_all add: w4_def w3_def)
  have "m_userInput (pressed_button w4) = enqueue Ev_Middle UserInput_new"
    by (simp add: pressed_button_def idler_at_def mmu_new_def)
  moreover have "fst (ConsumeEvent (enqueue Ev_Middle UserInput_new)) = Ev_Middle" by code_simp
  ultimately have ev: "fst (ConsumeEvent (m_userInput (pressed_button w4))) = Ev_Middle" by (simp only:)
  have "m_base (pressed_button w4) = m_base w4" by (simp add: pressed_button_def)
  then obtain w5 where s5: "?step (?d, pressed_button w4) = (False, ?d, w5)" and w5: "state_of eject_ob w5 = P_OK"
    using w4 ev by (simp add: EjectFilament_StepInner_def EF_confirm_def Let_def case_prod_beta state_of_def error_of_def)
      (simp flip: state_of_def)
  have run: "run_automaton ?step ?envs (?d, w0) = (?d, w5)" using s1 s2 s3 s4 s5 by simp
  obtain j k where jk: "j < k" "k < length (run_states ?step ?envs (?d, w0))"
    "Motion_QueueEmpty (m_motion (run_states ?step ?envs (?d, w0) ! j))"
    using eject_finishes_after_confirmation[OF env s0 run w5] unfolding Let_def by blast
  have "length (run_states ?step ?envs (?d, w0)) = length ?envs" by (simp add: s1 s2 s3 s4 s5)
  with jk have j: "j < length ?envs" by linarith
  show ?thesis unfolding s0 snd_conv using run w5 j jk(3) by (intro exI[of _ ?envs] conjI exI[of _ j]) simp_all
qed

end
