(* ===== verification/Simple_Commands.thy ===== *)
theory Simple_Commands
  imports Command_Frame
begin

text \<open>
  The commands without data of their own: homing (\<open>logic/home.cpp\<close>), the motor mode (\<open>logic/set_mode.cpp\<close>),
  moving the selector by hand (\<open>logic/move_selector.cpp\<close>), the start-up checks (\<open>logic/start_up.cpp\<close>) and the
  command that does nothing (\<open>logic/no_command.h\<close>).
\<close>

section \<open>Home\<close>

abbreviation home_ob :: obj where "home_ob \<equiv> Cmd home"

definition Home_Reset :: "mmu \<Rightarrow> bool \<times> mmu" where
  "Home_Reset w =
     (True, InvalidateHomingAndFilamentState (set_state home_ob P_Homing (set_error home_ob E_RUNNING w)))"

definition Home_StepInner :: "unit \<times> mmu \<Rightarrow> bool \<times> unit \<times> mmu" where
  "Home_StepInner = (\<lambda>(d, w).
     case state_of home_ob w of
       P_Homing \<Rightarrow>
         if mv_state (m_movable w Idler) = Ready \<and> mv_state (m_movable w Selector) = Ready
         then (False, d, FinishedOK home_ob w) else (False, d, w)
     | P_OK \<Rightarrow> (True, d, w)
     | _ \<Rightarrow> (True, d, internal_error home_ob w))"

section \<open>Motor mode\<close>

abbreviation mode_ob :: obj where "mode_ob \<equiv> Cmd setMode"

definition SetMode_Reset :: "u8 \<Rightarrow> mmu \<Rightarrow> bool \<times> mmu" where
  "SetMode_Reset param w =
     (let w = w\<lparr>m_globals := (m_globals w)\<lparr>g_stealthMode := (param \<noteq> 0)\<rparr>\<rparr>;
          w = mot (Motion_SetMode_all (if param = 0 then Normal else Stealth)) w
      in (True, FinishedOK mode_ob w))"

definition SetMode_StepInner :: "unit \<times> mmu \<Rightarrow> bool \<times> unit \<times> mmu" where
  "SetMode_StepInner = (\<lambda>(d, w). (True, d, w))"

section \<open>Moving the selector\<close>

abbreviation move_ob :: obj where "move_ob \<equiv> Cmd moveSelector"

definition MoveSelector_Reset :: "u8 \<Rightarrow> mmu \<Rightarrow> bool \<times> mmu" where
  "MoveSelector_Reset param w =
     (let (r, w) = Selector_MoveToSlot param (set_state move_ob P_MovingSelector w)
      in if r \<noteq> Refused then (True, set_error move_ob E_RUNNING w)
         else (False, set_error move_ob HOMING_SELECTOR_FAILED w))"

definition MoveSelector_StepInner :: "unit \<times> mmu \<Rightarrow> bool \<times> unit \<times> mmu" where
  "MoveSelector_StepInner = (\<lambda>(d, w).
     case state_of move_ob w of
       P_MovingSelector \<Rightarrow>
         if mv_state (m_movable w Selector) = Ready then
           (False, d, FinishedOK move_ob (set_filament (mv_currentSlot (m_movable w Selector)) AtPulley w))
         else (False, d, w)
     | P_OK \<Rightarrow> (True, d, w)
     | _ \<Rightarrow> (True, d, internal_error move_ob w))"

section \<open>Start-up\<close>

abbreviation start_ob :: obj where "start_ob \<equiv> Cmd startUp"

definition CheckFINDAvsEEPROM :: "mmu \<Rightarrow> bool \<times> mmu" where
  "CheckFINDAvsEEPROM w =
     (if finda_pressed w \<and> filament_loaded w < InFSensor then (False, w)
      else if \<not> finda_pressed w \<and> InSelector \<le> filament_loaded w
      then (True, set_filament toolCount AtPulley w)
      else (True, w))"

definition SetInitError :: "ErrorCode \<Rightarrow> mmu \<Rightarrow> mmu" where
  "SetInitError ec w = set_state start_ob P_ERRWaitingForUser (set_error start_ob ec w)"

definition StartUp_Reset :: "mmu \<Rightarrow> bool \<times> mmu" where
  "StartUp_Reset w =
     (let (ok, w) = CheckFINDAvsEEPROM w
      in (True, if \<not> ok then SetInitError FINDA_VS_EEPROM_DISREPANCY (HoldIdlerSelector w) else w))"

definition StartUp_StepInner :: "unit \<times> mmu \<Rightarrow> bool \<times> unit \<times> mmu" where
  "StartUp_StepInner = (\<lambda>(d, w).
     case state_of start_ob w of
       P_OK \<Rightarrow> (True, d, w)
     | P_ERRWaitingForUser \<Rightarrow>
         let (ev, u) = ConsumeEvent (m_userInput w);
             w = w\<lparr>m_userInput := u\<rparr>
         in if ev = Ev_Middle \<and> error_of start_ob w = FINDA_VS_EEPROM_DISREPANCY then
              let (ok, w) = CheckFINDAvsEEPROM w
              in if \<not> ok then
                   (False, d, set_state start_ob P_ERRWaitingForUser
                      (set_error start_ob FINDA_VS_EEPROM_DISREPANCY w))
                 else
                   (False, d, set_state start_ob P_OK (set_error start_ob E_OK (ResumeIdlerSelector w)))
            else (False, d, w)
     | _ \<Rightarrow> (False, d, w))"

section \<open>No command\<close>

definition NoCommand_Reset :: "mmu \<Rightarrow> bool \<times> mmu" where "NoCommand_Reset w = (True, w)"

definition NoCommand_StepInner :: "unit \<times> mmu \<Rightarrow> bool \<times> unit \<times> mmu" where
  "NoCommand_StepInner = (\<lambda>(d, w). (True, d, w))"

section \<open>The commands fulfil the contract\<close>

lemma Home_Reset_wf: "mmu_wf w \<Longrightarrow> mmu_wf (snd (Home_Reset w))"
  by (simp add: Home_Reset_def command_wf)

lemma SetMode_Reset_wf: "mmu_wf w \<Longrightarrow> mmu_wf (snd (SetMode_Reset p w))"
  by (auto simp: SetMode_Reset_def Let_def intro!: command_wf mmu_wf_mot motion_wf_frames)

lemma MoveSelector_Reset_wf: "mmu_wf w \<Longrightarrow> mmu_wf (snd (MoveSelector_Reset p w))"
  by (auto simp: MoveSelector_Reset_def Let_def case_prod_beta intro!: command_wf)

lemma CheckFINDAvsEEPROM_wf: "mmu_wf w \<Longrightarrow> mmu_wf (snd (CheckFINDAvsEEPROM w))"
  by (simp add: CheckFINDAvsEEPROM_def)

lemma StartUp_Reset_wf: "mmu_wf w \<Longrightarrow> mmu_wf (snd (StartUp_Reset w))"
  by (simp add: StartUp_Reset_def SetInitError_def case_prod_beta Let_def CheckFINDAvsEEPROM_wf command_wf)

interpretation home_cmd: command home_ob Home_StepInner
proof unfold_locales
  show "mmu_wf w \<Longrightarrow> mmu_wf (snd (snd (Home_StepInner (d, w))))" for w d
    by (cases "state_of home_ob w") (simp_all add: Home_StepInner_def command_wf)
qed (simp add: Home_StepInner_def)

interpretation mode_cmd: command mode_ob SetMode_StepInner
  by unfold_locales (simp_all add: SetMode_StepInner_def)

interpretation move_cmd: command move_ob MoveSelector_StepInner
proof unfold_locales
  show "mmu_wf w \<Longrightarrow> mmu_wf (snd (snd (MoveSelector_StepInner (d, w))))" for w d
    by (cases "state_of move_ob w") (simp_all add: MoveSelector_StepInner_def command_wf)
qed (simp add: MoveSelector_StepInner_def)

interpretation start_cmd: command start_ob StartUp_StepInner
proof unfold_locales
  show "mmu_wf w \<Longrightarrow> mmu_wf (snd (snd (StartUp_StepInner (d, w))))" for w d
    by (cases "state_of start_ob w")
      (simp_all add: StartUp_StepInner_def Let_def case_prod_beta command_wf CheckFINDAvsEEPROM_wf ConsumeEvent_mmu_wf)
qed (simp add: StartUp_StepInner_def)

interpretation no_cmd: command "Cmd noCommand" NoCommand_StepInner
  by unfold_locales (simp_all add: NoCommand_StepInner_def)

text \<open>A move of the selector that is refused because FINDA sees filament is reported as an error at once, and in the next step of the
  command as finished, with the slot the selector is at recorded as if its filament had been brought there.\<close>

theorem refused_move_ends_in_success:
  assumes "finda_pressed w" "mv_state (m_movable w Selector) = Ready"
    and "mv_currentSlot (m_movable w Selector) \<noteq> slot \<or> \<not> mv_homingValid (m_movable w Selector)"
  shows "case MoveSelector_Reset slot w of (accepted, w1) \<Rightarrow> \<not> accepted \<and> error_of move_ob w1 = HOMING_SELECTOR_FAILED
    \<and> (case MoveSelector_StepInner ((), w1) of (_, _, w2) \<Rightarrow> state_of move_ob w2 = P_OK \<and> error_of move_ob w2 = E_OK
        \<and> active_slot w2 = mv_currentSlot (m_movable w Selector) \<and> filament_loaded w2 = AtPulley)"
  using assms
  by (simp add: MoveSelector_Reset_def MoveSelector_StepInner_def Selector_MoveToSlot_def movable_states Let_def)

theorem refused_move_ends_in_success_witness:
  "error_of move_ob (snd (MoveSelector_Reset 3 ((mmu_new idle_hw blank_eeprom)\<lparr>m_finda := FINDA_new\<lparr>db_state := WaitForRelease\<rparr>\<rparr>)))
     = HOMING_SELECTOR_FAILED"
proof -
  let ?w = "(mmu_new idle_hw blank_eeprom)\<lparr>m_finda := FINDA_new\<lparr>db_state := WaitForRelease\<rparr>\<rparr>"
  have "finda_pressed ?w" "mv_state (m_movable ?w Selector) = Ready" "\<not> mv_homingValid (m_movable ?w Selector)"
    by (code_simp, code_simp, code_simp)
  then show ?thesis using refused_move_ends_in_success[of ?w 3] by (auto split: prod.splits)
qed

end
