(* ===== verification/Hw_Sanity.thy ===== *)
theory Hw_Sanity
  imports Command_Frame
begin

text \<open>
  The check of the soldering at start-up (\<open>logic/hw_sanity.cpp\<close>): the STEP, DIR and ENABLE lines of each
  driver are driven through all their combinations and read back over SPI.
\<close>

section \<open>The command\<close>

abbreviation LED_WAIT_MS :: u16 where "LED_WAIT_MS \<equiv> 50"
abbreviation TEST_PASSES :: u8 where "TEST_PASSES \<equiv> 3"

abbreviation BIT_STEP :: u8 where "BIT_STEP \<equiv> 1"
abbreviation BIT_DIR :: u8 where "BIT_DIR \<equiv> 2"
abbreviation BIT_ENA :: u8 where "BIT_ENA \<equiv> 4"

record HWSanity =
  hs_test_step :: u8
  hs_axis :: Axis
  hs_fault_masks :: "Axis \<Rightarrow> u8"
  hs_next_state :: ProgressCode
  hs_wait_start :: u16
  hs_das_blinken_state :: LedMode

definition HWSanity_new :: HWSanity where
  "HWSanity_new = \<lparr>hs_test_step = 0, hs_axis = Pulley, hs_fault_masks = (\<lambda>_. 0), hs_next_state = P_HWTestBegin,
     hs_wait_start = 0, hs_das_blinken_state = LedOff\<rparr>"

abbreviation sanity_ob :: obj where "sanity_ob \<equiv> Cmd hwSanity"

definition HWSanity_Reset :: "u8 \<Rightarrow> HWSanity \<times> mmu \<Rightarrow> bool \<times> HWSanity \<times> mmu" where
  "HWSanity_Reset param = (\<lambda>(d, w).
     (True, d\<lparr>hs_axis := Idler, hs_fault_masks := (\<lambda>_. 0)\<rparr>,
      set_error sanity_ob E_RUNNING (set_state sanity_ob P_HWTestBegin w)))"

definition SetFaultDisplay :: "u8 \<Rightarrow> u8 \<Rightarrow> LEDs \<Rightarrow> LEDs" where
  "SetFaultDisplay slot msk l =
     (let green_mode = (if msk AND BIT_STEP \<noteq> 0 then LedOn else LedOff);
          red_mode = (if msk AND BIT_DIR \<noteq> 0 then LedOn else LedOff);
          ena = (\<lambda>m. if msk AND BIT_ENA \<noteq> 0 then (if m \<noteq> LedOff then blink0 else LedOn) else m)
      in LEDs_SetMode slot red (ena red_mode) (LEDs_SetMode slot green (ena green_mode) l))"

text \<open>Operations on the lines of a driver.\<close>

definition on_hw :: "(hw \<Rightarrow> hw) \<Rightarrow> mmu \<Rightarrow> mmu" where
  "on_hw f = mot (\<lambda>m. m\<lparr>mo_hw := f (mo_hw m)\<rparr>)"

definition PrepareAxis :: "Axis \<Rightarrow> mmu \<Rightarrow> mmu" where
  "PrepareAxis a w =
     (let w = mot (\<lambda>m. snd (InitAxis a m)) w;
          w = mot (Motion_SetMode a Normal) w
      in on_hw (SetBridgeOutput (axis_params (m_motion w) a) False) w)"

text \<open>The IOIN register arranged like the bits that were set; ENABLE is read back inverted.\<close>

definition readback :: "u32 \<Rightarrow> u8" where
  "readback drv_ioin = ucast ((drv_ioin AND 3) OR (if drv_ioin AND 16 \<noteq> 0 then 0 else 4))"

text \<open>One combination of the lines of the axis under test: the bits that read back wrong.\<close>

definition drive_lines :: "Axis \<Rightarrow> u8 \<Rightarrow> mmu \<Rightarrow> u8 \<times> mmu" where
  "drive_lines a lines w =
     (let params = axis_params (m_motion w) a;
          w = on_hw (SetRawDir params (lines AND BIT_DIR \<noteq> 0)) w;
          w = on_hw (SetStep params (lines AND BIT_STEP \<noteq> 0)) w;
          w = mot (with_drv a (TMC_SetEnabled params (lines AND BIT_ENA \<noteq> 0))) w;
          (ioin, h) = ReadRegister params IOIN (mo_hw (m_motion w))
      in (readback ioin XOR lines, on_hw (\<lambda>_. h) w))"

text \<open>The red LED has index 0: a line that reads back right is shown in green.\<close>

definition show_bit :: "u8 \<Rightarrow> u8 \<Rightarrow> u8 \<Rightarrow> LEDs \<Rightarrow> LEDs" where
  "show_bit slot bit_errs b = LEDs_SetMode slot (if bit_errs AND b = 0 then green else red) LedOn"

definition HWTestExec :: "HWSanity \<times> mmu \<Rightarrow> HWSanity \<times> mmu" where
  "HWTestExec = (\<lambda>(d, w).
     let a = hs_axis d in
     if hs_test_step d < TEST_PASSES * 8 then
       let (bit_errs, w) = drive_lines a (hs_test_step d mod 8) w;
           w = led (show_bit 2 bit_errs BIT_ENA \<circ> show_bit 1 bit_errs BIT_DIR \<circ> show_bit 0 bit_errs BIT_STEP) w;
           blink = (if hs_das_blinken_state d \<noteq> LedOff then LedOff else LedOn);
           d = d\<lparr>hs_fault_masks := (hs_fault_masks d)(a := hs_fault_masks d a OR bit_errs),
                 hs_wait_start := m_ms w, hs_das_blinken_state := blink\<rparr>;
           w = led (LEDs_SetMode 4 green blink) w
       in (d\<lparr>hs_test_step := hs_test_step d + 1\<rparr>, set_state sanity_ob P_HWTestDisplay w)
     else
       let params = axis_params (m_motion w) a;
           w = mot (with_drv a (TMC_SetEnabled params False)) w;
           w = on_hw (SetBridgeOutput params True) w
       in (d\<lparr>hs_test_step := 0\<rparr>, set_state sanity_ob (hs_next_state d) w))"

text \<open>Going on to the test of an axis.\<close>

definition test_axis :: "Axis \<Rightarrow> LedMode \<Rightarrow> LedMode \<Rightarrow> ProgressCode \<Rightarrow> HWSanity \<times> mmu \<Rightarrow> HWSanity \<times> mmu" where
  "test_axis a green_mode red_mode next_state = (\<lambda>(d, w).
     (d\<lparr>hs_axis := a, hs_next_state := next_state\<rparr>,
      PrepareAxis a (set_state sanity_ob P_HWTestExec (led (SetPairButOffOthers 3 green_mode red_mode) w))))"

text \<open>The result: the faults are shown on the LEDs and the axes with faults marked in the error code.\<close>

definition report_fault :: "(Axis \<Rightarrow> u8) \<Rightarrow> Axis \<Rightarrow> mmu \<Rightarrow> mmu" where
  "report_fault masks a w =
     (if masks a \<noteq> 0 then
        led (SetFaultDisplay (word_of_nat (axis_index a)) (masks a))
          (set_error sanity_ob (AddErrorAxisBit (error_of sanity_ob w) (axis_index a)) w)
      else w)"

definition HWTestFailed :: "(Axis \<Rightarrow> u8) \<Rightarrow> mmu \<Rightarrow> mmu" where
  "HWTestFailed masks w =
     (let w = set_error sanity_ob MMU_SOLDERING_NEEDS_ATTENTION (set_state sanity_ob P_ErrHwTestFailed w);
          w = report_fault masks Idler (report_fault masks Selector (report_fault masks Pulley w))
      in led (LEDs_SetMode 4 green LedOff \<circ> LEDs_SetMode 4 red LedOn
              \<circ> LEDs_SetMode 3 green LedOff \<circ> LEDs_SetMode 3 red LedOff) w)"

definition HWSanity_StepInner :: "HWSanity \<times> mmu \<Rightarrow> bool \<times> HWSanity \<times> mmu" where
  "HWSanity_StepInner = (\<lambda>(d, w).
     case state_of sanity_ob w of
       P_HWTestBegin \<Rightarrow>
         (False, d\<lparr>hs_test_step := 0\<rparr>, set_state sanity_ob P_HWTestIdler (set_error sanity_ob E_RUNNING w))
     | P_HWTestIdler \<Rightarrow> (False, test_axis Idler LedOn LedOff P_HWTestSelector (d, w))
     | P_HWTestSelector \<Rightarrow> (False, test_axis Selector LedOff LedOn P_HWTestPulley (d, w))
     | P_HWTestPulley \<Rightarrow> (False, test_axis Pulley LedOn LedOn P_HWTestCleanup (d, w))
     | P_HWTestDisplay \<Rightarrow>
         if \<not> Elapsed (m_ms w) (hs_wait_start d) LED_WAIT_MS then (False, d, w)
         else (False, HWTestExec (d, led LEDs_SetAllOff (set_state sanity_ob P_HWTestExec w)))
     | P_HWTestExec \<Rightarrow> (False, HWTestExec (d, w))
     | P_HWTestCleanup \<Rightarrow>
         if hs_fault_masks d Pulley \<noteq> 0 \<or> hs_fault_masks d Selector \<noteq> 0 \<or> hs_fault_masks d Idler \<noteq> 0 then
           (True, d, HWTestFailed (hs_fault_masks d) w)
         else (True, d, FinishedOK sanity_ob (led LEDs_SetAllOff w))
     | P_OK \<Rightarrow> (True, d, w)
     | _ \<Rightarrow> (True, d, internal_error sanity_ob w))"

section \<open>The command fulfils the contract\<close>

lemma on_hw_frame [simp]:
  "m_base (on_hw f w) = m_base w" "m_globals (on_hw f w) = m_globals w" "m_ms (on_hw f w) = m_ms w"
  "state_of ob (on_hw f w) = state_of ob w" "error_of ob (on_hw f w) = error_of ob w"
  by (simp_all add: on_hw_def)

lemma on_hw_wf [mmu_inv]: "mmu_wf w \<Longrightarrow> mmu_wf (on_hw f w)"
  unfolding on_hw_def by (erule mmu_wf_mot) (simp add: motion_wf_frames)

lemma enable_wf [mmu_inv]: "mmu_wf w \<Longrightarrow> mmu_wf (mot (with_drv a f) w)"
  by (erule mmu_wf_mot) (simp add: motion_wf_def)

lemma PrepareAxis_wf: "mmu_wf w \<Longrightarrow> mmu_wf (PrepareAxis a w)"
  by (auto simp: PrepareAxis_def Let_def intro!: on_hw_wf mmu_wf_mot motion_wf_frames)

lemma drive_lines_wf: "mmu_wf w \<Longrightarrow> mmu_wf (snd (drive_lines a l w))"
  by (simp add: drive_lines_def Let_def case_prod_beta on_hw_wf enable_wf)

lemma show_bit_length [simp]: "length (leds_leds (show_bit sl e b l)) = length (leds_leds l)"
  by (simp add: show_bit_def)

lemma HWTestExec_wf: "mmu_wf w \<Longrightarrow> mmu_wf (snd (HWTestExec (d, w)))"
  by (simp add: HWTestExec_def Let_def case_prod_beta on_hw_wf enable_wf drive_lines_wf mmu_wf_led)

lemma test_axis_wf: "mmu_wf w \<Longrightarrow> mmu_wf (snd (test_axis a g r n (d, w)))"
  by (simp add: test_axis_def PrepareAxis_wf mmu_wf_led)

lemma HWTestFailed_wf: "mmu_wf w \<Longrightarrow> mmu_wf (HWTestFailed ms w)"
  by (simp add: HWTestFailed_def report_fault_def SetFaultDisplay_def Let_def mmu_wf_led)

lemma HWSanity_StepInner_wf:
  assumes "mmu_wf w" shows "mmu_wf (snd (snd (HWSanity_StepInner (d, w))))"
  using assms by (cases "state_of sanity_ob w")
    (simp_all add: HWSanity_StepInner_def HWTestExec_wf test_axis_wf HWTestFailed_wf mmu_wf_led command_wf)

interpretation sanity_cmd: command sanity_ob HWSanity_StepInner
  by unfold_locales (rule HWSanity_StepInner_wf, assumption, simp add: HWSanity_StepInner_def)

section \<open>The test at start-up\<close>

text \<open>
  The loop of \<open>setup2\<close>: steps of the test until it is finished, with a step of the LEDs after each and
  anything the interrupts and the hardware do before it.
\<close>

definition leds_step :: "mmu \<Rightarrow> mmu" where
  "leds_step w =
     (let (l, s) = LEDs_Step (m_ms w) (m_leds w, hw_shr16 (mo_hw (m_motion w)))
      in on_hw (\<lambda>h. h\<lparr>hw_shr16 := s\<rparr>) (led (\<lambda>_. l) w))"

fun sanity_loop :: "(mmu \<Rightarrow> mmu) list \<Rightarrow> HWSanity \<times> mmu \<Rightarrow> bool \<times> HWSanity \<times> mmu" where
  "sanity_loop [] dw = (False, dw)"
| "sanity_loop (env # envs) (d, w) =
     (let (finished, d, w) = HWSanity_StepInner (d, env w)
      in if finished then (True, d, w) else sanity_loop envs (d, leds_step w))"

text \<open>The iterations that only wait for the LEDs to be seen, and the combinations tried with their results.\<close>

definition waits :: "HWSanity \<Rightarrow> mmu \<Rightarrow> bool" where
  "waits d w \<longleftrightarrow> state_of sanity_ob w = P_HWTestDisplay \<and> \<not> Elapsed (m_ms w) (hs_wait_start d) LED_WAIT_MS"

definition tried :: "HWSanity \<Rightarrow> mmu \<Rightarrow> (Axis \<times> u8 \<times> u8) list" where
  "tried d w =
     (if state_of sanity_ob w \<in> {P_HWTestExec, P_HWTestDisplay} \<and> \<not> waits d w \<and> hs_test_step d < TEST_PASSES * 8 then
        [(hs_axis d, hs_test_step d mod 8,
          fst (drive_lines (hs_axis d) (hs_test_step d mod 8)
            (if state_of sanity_ob w = P_HWTestDisplay
             then led LEDs_SetAllOff (set_state sanity_ob P_HWTestExec w) else w)))]
      else [])"

fun sanity_waits :: "(mmu \<Rightarrow> mmu) list \<Rightarrow> HWSanity \<times> mmu \<Rightarrow> nat" where
  "sanity_waits [] dw = 0"
| "sanity_waits (env # envs) (d, w) =
     (let (finished, d', w') = HWSanity_StepInner (d, env w)
      in (if waits d (env w) then 1 else 0) + (if finished then 0 else sanity_waits envs (d', leds_step w')))"

fun sanity_trace :: "(mmu \<Rightarrow> mmu) list \<Rightarrow> HWSanity \<times> mmu \<Rightarrow> (Axis \<times> u8 \<times> u8) list" where
  "sanity_trace [] dw = []"
| "sanity_trace (env # envs) (d, w) =
     (let (finished, d', w') = HWSanity_StepInner (d, env w)
      in tried d (env w) @ (if finished then [] else sanity_trace envs (d', leds_step w')))"

text \<open>What is left to be tried, and a bound on the iterations left.\<close>

definition combinations :: "Axis \<Rightarrow> (Axis \<times> u8) list" where
  "combinations a = map (\<lambda>n. (a, word_of_nat n mod 8)) [0..<24]"

fun left_from :: "ProgressCode \<Rightarrow> (Axis \<times> u8) list" where
  "left_from P_HWTestBegin = combinations Idler @ combinations Selector @ combinations Pulley"
| "left_from P_HWTestIdler = combinations Idler @ combinations Selector @ combinations Pulley"
| "left_from P_HWTestSelector = combinations Selector @ combinations Pulley"
| "left_from P_HWTestPulley = combinations Pulley"
| "left_from _ = []"

definition left :: "HWSanity \<Rightarrow> ProgressCode \<Rightarrow> (Axis \<times> u8) list" where
  "left d st =
     (if st \<in> {P_HWTestExec, P_HWTestDisplay}
      then drop (unat (hs_test_step d)) (combinations (hs_axis d)) @ left_from (hs_next_state d)
      else left_from st)"

fun rank_from :: "ProgressCode \<Rightarrow> nat" where
  "rank_from P_HWTestBegin = 80" | "rank_from P_HWTestIdler = 79" | "rank_from P_HWTestSelector = 53"
| "rank_from P_HWTestPulley = 27" | "rank_from P_HWTestCleanup = 1" | "rank_from _ = 0"

definition sanity_rank :: "HWSanity \<Rightarrow> ProgressCode \<Rightarrow> nat" where
  "sanity_rank d st =
     (if st \<in> {P_HWTestExec, P_HWTestDisplay} then rank_from (hs_next_state d) + 25 - unat (hs_test_step d)
      else rank_from st)"

definition sanity_inv :: "HWSanity \<Rightarrow> ProgressCode \<Rightarrow> bool" where
  "sanity_inv d st \<longleftrightarrow>
     st = P_HWTestBegin \<or> st = P_HWTestCleanup
     \<or> st \<in> {P_HWTestIdler, P_HWTestSelector, P_HWTestPulley} \<and> hs_test_step d = 0
     \<or> st \<in> {P_HWTestExec, P_HWTestDisplay} \<and> unat (hs_test_step d) \<le> 24
       \<and> hs_next_state d \<in> {P_HWTestSelector, P_HWTestPulley, P_HWTestCleanup}"

lemma PrepareAxis_state [simp]: "m_base (PrepareAxis a w) = m_base w"
  by (simp add: PrepareAxis_def Let_def)

lemma drive_lines_state [simp]: "m_base (snd (drive_lines a l w)) = m_base w" "m_ms (snd (drive_lines a l w)) = m_ms w"
  by (simp_all add: drive_lines_def Let_def case_prod_beta)

lemma leds_step_frame [simp]: "m_base (leds_step w) = m_base w"
  by (simp add: leds_step_def Let_def case_prod_beta)

lemma HWTestExec_drives:
  assumes "unat (hs_test_step d) < 24"
  shows "state_of sanity_ob (snd (HWTestExec (d, w))) = P_HWTestDisplay"
    "unat (hs_test_step (fst (HWTestExec (d, w)))) = Suc (unat (hs_test_step d))"
    "hs_next_state (fst (HWTestExec (d, w))) = hs_next_state d" "hs_axis (fst (HWTestExec (d, w))) = hs_axis d"
    "hs_fault_masks (fst (HWTestExec (d, w))) =
       (hs_fault_masks d)(hs_axis d := hs_fault_masks d (hs_axis d) OR
         fst (drive_lines (hs_axis d) (hs_test_step d mod 8) w))"
proof -
  have "unat (hs_test_step d + 1) = Suc (unat (hs_test_step d))"
    using assms by (simp add: unat_word_ariths(1) take_bit_nat_eq_self_iff)
  moreover have "hs_test_step d < 3 * 8" using assms by (simp add: word_less_nat_alt)
  ultimately show "state_of sanity_ob (snd (HWTestExec (d, w))) = P_HWTestDisplay"
    "unat (hs_test_step (fst (HWTestExec (d, w)))) = Suc (unat (hs_test_step d))"
    "hs_next_state (fst (HWTestExec (d, w))) = hs_next_state d" "hs_axis (fst (HWTestExec (d, w))) = hs_axis d"
    "hs_fault_masks (fst (HWTestExec (d, w))) =
       (hs_fault_masks d)(hs_axis d := hs_fault_masks d (hs_axis d) OR
         fst (drive_lines (hs_axis d) (hs_test_step d mod 8) w))"
    by (simp_all add: HWTestExec_def Let_def case_prod_beta)
qed

lemma HWTestExec_next:
  assumes "unat (hs_test_step d) = 24"
  shows "state_of sanity_ob (snd (HWTestExec (d, w))) = hs_next_state d"
    "fst (HWTestExec (d, w)) = d\<lparr>hs_test_step := 0\<rparr>"
  using assms by (simp_all add: HWTestExec_def Let_def word_less_nat_alt)

text \<open>The faults seen in a trace.\<close>

definition faults :: "(Axis \<times> u8 \<times> u8) list \<Rightarrow> Axis \<Rightarrow> u8" where
  "faults tr a = foldr (\<lambda>(b, _, e) m. if b = a then e OR m else m) tr 0"

lemma faults_append: "faults (xs @ ys) a = faults xs a OR faults ys a"
  by (induction xs) (auto simp: faults_def or.assoc)

lemma combinations_drop:
  "n < 24 \<Longrightarrow> drop n (combinations a) = (a, word_of_nat n mod 8) # drop (Suc n) (combinations a)"
  by (simp add: combinations_def Cons_nth_drop_Suc [symmetric])

lemma sanity_exec_step:
  assumes "sanity_inv d st" "st \<in> {P_HWTestExec, P_HWTestDisplay}"
    and "v = (if st = P_HWTestDisplay then led LEDs_SetAllOff (set_state sanity_ob P_HWTestExec w) else w)"
    and "tr = (if hs_test_step d < 3 * 8 then [(hs_axis d, hs_test_step d mod 8,
          fst (drive_lines (hs_axis d) (hs_test_step d mod 8) v))] else [])"
  defines "d' \<equiv> fst (HWTestExec (d, v))" and "st' \<equiv> state_of sanity_ob (snd (HWTestExec (d, v)))"
  shows "sanity_inv d' st' \<and> map (\<lambda>(a, l, e). (a, l)) tr @ left d' st' = left d st
    \<and> hs_fault_masks d' a = hs_fault_masks d a OR faults tr a \<and> sanity_rank d' st' < sanity_rank d st"
proof -
  have i: "unat (hs_test_step d) \<le> 24" "hs_next_state d \<in> {P_HWTestSelector, P_HWTestPulley, P_HWTestCleanup}"
    using assms(1,2) by (auto simp: sanity_inv_def)
  show ?thesis
  proof (cases "unat (hs_test_step d) < 24")
    case True
    note e = HWTestExec_drives[OF True, of v]
    have "hs_test_step d < 3 * 8" using True by (simp add: word_less_nat_alt)
    then have tr: "tr = [(hs_axis d, hs_test_step d mod 8, fst (drive_lines (hs_axis d) (hs_test_step d mod 8) v))]"
      using assms(4) by simp
    have "sanity_inv d' st'" using True i(2) by (simp add: sanity_inv_def d'_def st'_def e)
    moreover have "map (\<lambda>(a, l, e). (a, l)) tr @ left d' st' = left d st"
      using assms(2) combinations_drop[OF True, of "hs_axis d"] by (simp add: tr left_def d'_def st'_def e)
    moreover have "hs_fault_masks d' a = hs_fault_masks d a OR faults tr a"
      by (simp add: d'_def e tr faults_def)
    moreover have "sanity_rank d' st' < sanity_rank d st"
      using True assms(2) by (simp add: sanity_rank_def d'_def st'_def e)
    ultimately show ?thesis by blast
  next
    case False
    with i(1) have 24: "unat (hs_test_step d) = 24" by simp
    note e = HWTestExec_next[OF this, of v]
    have tr: "tr = []" using assms(4) 24 by (simp add: word_less_nat_alt)
    have "drop 24 (combinations (hs_axis d)) = []" by (simp add: combinations_def)
    then show ?thesis using i(2) assms(2) 24
      by (auto simp: tr sanity_inv_def left_def sanity_rank_def d'_def st'_def e faults_def)
  qed
qed

lemma test_axis_state [simp]:
  "state_of sanity_ob (snd (test_axis a g r n (d, w))) = P_HWTestExec"
  "fst (test_axis a g r n (d, w)) = d\<lparr>hs_axis := a, hs_next_state := n\<rparr>"
  by (simp_all add: test_axis_def state_of_def set_state_def)

lemma sanity_test_axis:
  assumes "(d', w') = test_axis a g r n (d, w)" "hs_test_step d = 0"
    "n \<in> {P_HWTestSelector, P_HWTestPulley, P_HWTestCleanup}"
  shows "state_of sanity_ob w' = P_HWTestExec \<and> sanity_inv d' P_HWTestExec \<and> hs_fault_masks d' = hs_fault_masks d
    \<and> left d' P_HWTestExec = combinations a @ left_from n \<and> sanity_rank d' P_HWTestExec = rank_from n + 25"
proof -
  have "d' = fst (test_axis a g r n (d, w))" "w' = snd (test_axis a g r n (d, w))" using assms(1) by (metis fst_conv snd_conv)+
  then show ?thesis using assms(2,3) by (simp add: sanity_inv_def left_def sanity_rank_def)
qed

lemma sanity_step:
  assumes "sanity_inv d (state_of sanity_ob w)" and st: "HWSanity_StepInner (d, w) = (False, d', w')"
  shows "sanity_inv d' (state_of sanity_ob w')
    \<and> map (\<lambda>(a, l, e). (a, l)) (tried d w) @ left d' (state_of sanity_ob w') = left d (state_of sanity_ob w)
    \<and> hs_fault_masks d' a = hs_fault_masks d a OR faults (tried d w) a
    \<and> sanity_rank d' (state_of sanity_ob w') + (if waits d w then 0 else 1) \<le> sanity_rank d (state_of sanity_ob w)"
proof (cases "state_of sanity_ob w \<in> {P_HWTestExec, P_HWTestDisplay} \<and> \<not> waits d w")
  case True
  define v where "v = (if state_of sanity_ob w = P_HWTestDisplay
    then led LEDs_SetAllOff (set_state sanity_ob P_HWTestExec w) else w)"
  have x: "HWTestExec (d, v) = (d', w')"
    using True st by (auto simp: HWSanity_StepInner_def v_def waits_def split: if_splits)
  have tr: "tried d w = (if hs_test_step d < 3 * 8 then [(hs_axis d, hs_test_step d mod 8,
      fst (drive_lines (hs_axis d) (hs_test_step d mod 8) v))] else [])"
    using True by (simp add: tried_def v_def)
  show ?thesis
    using sanity_exec_step[OF assms(1) conjunct1[OF True] v_def tr, of a] True by (simp add: x Suc_le_eq)
next
  case False
  then have t: "tried d w = []" by (auto simp: tried_def)
  show ?thesis
  proof (cases "waits d w")
    case True
    then show ?thesis using assms t by (auto simp: HWSanity_StepInner_def waits_def faults_def)
  next
    case nw: False
    with False have "state_of sanity_ob w \<notin> {P_HWTestExec, P_HWTestDisplay}" by simp
    then consider "state_of sanity_ob w = P_HWTestBegin" | "state_of sanity_ob w = P_HWTestCleanup"
      | "state_of sanity_ob w = P_HWTestIdler" "hs_test_step d = 0"
      | "state_of sanity_ob w = P_HWTestSelector" "hs_test_step d = 0"
      | "state_of sanity_ob w = P_HWTestPulley" "hs_test_step d = 0"
      using assms(1) by (auto simp: sanity_inv_def)
    then show ?thesis
    proof cases
      case 1
      then show ?thesis using st t nw
        by (auto simp: HWSanity_StepInner_def sanity_inv_def faults_def left_def sanity_rank_def)
    next
      case 2
      then show ?thesis using st by (simp add: HWSanity_StepInner_def split: if_splits)
    next
      case 3
      then have "(d', w') = test_axis Idler LedOn LedOff P_HWTestSelector (d, w)"
        using st by (simp add: HWSanity_StepInner_def)
      with sanity_test_axis[OF this 3(2)] 3 t nw show ?thesis by (simp add: faults_def left_def sanity_rank_def)
    next
      case 4
      then have "(d', w') = test_axis Selector LedOff LedOn P_HWTestPulley (d, w)"
        using st by (simp add: HWSanity_StepInner_def)
      with sanity_test_axis[OF this 4(2)] 4 t nw show ?thesis by (simp add: faults_def left_def sanity_rank_def)
    next
      case 5
      then have "(d', w') = test_axis Pulley LedOn LedOn P_HWTestCleanup (d, w)"
        using st by (simp add: HWSanity_StepInner_def)
      with sanity_test_axis[OF this 5(2)] 5 t nw show ?thesis by (simp add: faults_def left_def sanity_rank_def)
    qed
  qed
qed

lemma sanity_end:
  assumes "sanity_inv d (state_of sanity_ob w)" "HWSanity_StepInner (d, w) = (True, d', w')"
  shows "d' = d" "state_of sanity_ob w = P_HWTestCleanup" "tried d w = []"
    "w' = (if \<forall>a. hs_fault_masks d a = 0 then FinishedOK sanity_ob (led LEDs_SetAllOff w)
           else HWTestFailed (hs_fault_masks d) w)"
proof -
  show c: "state_of sanity_ob w = P_HWTestCleanup"
    using assms by (cases "state_of sanity_ob w") (simp_all add: sanity_inv_def HWSanity_StepInner_def split: if_splits)
  then show "d' = d" "tried d w = []" "w' = (if \<forall>a. hs_fault_masks d a = 0
      then FinishedOK sanity_ob (led LEDs_SetAllOff w) else HWTestFailed (hs_fault_masks d) w)"
    using assms(2) by (auto simp: HWSanity_StepInner_def all_axis tried_def split: if_splits)
qed

text \<open>The environment of the loop leaves the record of the test alone.\<close>

definition apart :: "(mmu \<Rightarrow> mmu) list \<Rightarrow> bool" where
  "apart envs \<longleftrightarrow> (\<forall>env\<in>set envs. \<forall>w. m_base (env w) sanity_ob = m_base w sanity_ob)"

lemma apart_Cons: "apart (env # envs) \<longleftrightarrow> (\<forall>w. m_base (env w) sanity_ob = m_base w sanity_ob) \<and> apart envs"
  by (simp add: apart_def)

lemma sanity_loop_ends:
  assumes "apart envs" "sanity_inv d (state_of sanity_ob w)"
    and "sanity_rank d (state_of sanity_ob w) + sanity_waits envs (d, w) \<le> length envs"
  shows "fst (sanity_loop envs (d, w))"
  using assms
proof (induction envs arbitrary: d w)
  case Nil
  then have "sanity_rank d (state_of sanity_ob w) = 0" by simp
  then show ?case using Nil.prems(2) by (auto simp: sanity_inv_def sanity_rank_def)
next
  case (Cons env envs)
  have st: "state_of sanity_ob (env w) = state_of sanity_ob w"
    using Cons.prems(1) by (simp add: apart_Cons state_of_def)
  obtain f d' w' where e: "HWSanity_StepInner (d, env w) = (f, d', w')" by (metis prod_cases3)
  show ?case
  proof (cases f)
    case False
    with e have e': "HWSanity_StepInner (d, env w) = (False, d', w')" by simp
    have inv: "sanity_inv d (state_of sanity_ob (env w))" using Cons.prems(2) by (simp add: st)
    note step = sanity_step[OF inv e']
    have b: "state_of sanity_ob (leds_step w') = state_of sanity_ob w'" by (rule state_of_base) simp
    have "fst (sanity_loop envs (d', leds_step w'))"
    proof (rule Cons.IH)
      show "apart envs" using Cons.prems(1) by (simp add: apart_Cons)
      show "sanity_inv d' (state_of sanity_ob (leds_step w'))" using step by (simp add: b)
      have "sanity_rank d' (state_of sanity_ob w') + (if waits d (env w) then 0 else 1)
          \<le> sanity_rank d (state_of sanity_ob w)" using step by (simp only: st)
      moreover have "sanity_waits (env # envs) (d, w) = (if waits d (env w) then 1 else 0) + sanity_waits envs (d', leds_step w')"
        by (simp add: e')
      ultimately show "sanity_rank d' (state_of sanity_ob (leds_step w')) + sanity_waits envs (d', leds_step w') \<le> length envs"
        using Cons.prems(3) unfolding b by (simp split: if_splits)
    qed
    then show ?thesis by (simp add: e')
  qed (simp add: e)
qed

definition verdict :: "(Axis \<Rightarrow> u8) \<Rightarrow> mmu \<Rightarrow> bool" where
  "verdict masks w' \<longleftrightarrow>
     (\<exists>v. w' = (if \<forall>a. masks a = 0 then FinishedOK sanity_ob v else HWTestFailed masks v))"

lemma sanity_loop_trace:
  assumes "apart envs" "sanity_inv d (state_of sanity_ob w)" "sanity_loop envs (d, w) = (True, d', w')"
  shows "map (\<lambda>(a, l, e). (a, l)) (sanity_trace envs (d, w)) = left d (state_of sanity_ob w)
    \<and> (\<forall>a. hs_fault_masks d' a = hs_fault_masks d a OR faults (sanity_trace envs (d, w)) a)
    \<and> verdict (hs_fault_masks d') w'"
  using assms
proof (induction envs arbitrary: d w)
  case (Cons env envs)
  have st: "state_of sanity_ob (env w) = state_of sanity_ob w"
    using Cons.prems(1) by (simp add: apart_Cons state_of_def)
  have inv: "sanity_inv d (state_of sanity_ob (env w))" using Cons.prems(2) by (simp add: st)
  obtain f d1 w1 where e: "HWSanity_StepInner (d, env w) = (f, d1, w1)" by (metis prod_cases3)
  show ?case
  proof (cases f)
    case True
    with e Cons.prems(3) have "HWSanity_StepInner (d, env w) = (True, d', w')" by simp
    note fin = sanity_end[OF inv this]
    have "left d (state_of sanity_ob w) = []" using fin(2) by (simp add: st left_def)
    moreover have "sanity_trace (env # envs) (d, w) = []" using True e fin(3) by simp
    moreover have "verdict (hs_fault_masks d') w'"
      unfolding verdict_def fin(1) fin(4) by (cases "\<forall>a. hs_fault_masks d a = 0") auto
    ultimately show ?thesis using fin(1) by (simp add: faults_def)
  next
    case False
    with e have e': "HWSanity_StepInner (d, env w) = (False, d1, w1)" by simp
    note step = sanity_step[OF inv e']
    have b: "state_of sanity_ob (leds_step w1) = state_of sanity_ob w1" by (rule state_of_base) simp
    have l: "sanity_loop envs (d1, leds_step w1) = (True, d', w')" using Cons.prems(3) by (simp add: e')
    have tr: "sanity_trace (env # envs) (d, w) = tried d (env w) @ sanity_trace envs (d1, leds_step w1)"
      by (simp add: e')
    have i: "apart envs" "sanity_inv d1 (state_of sanity_ob (leds_step w1))"
      using Cons.prems(1) step by (simp_all add: apart_Cons b)
    note ih = Cons.IH[OF i l]
    show ?thesis
    proof (intro conjI allI)
      show "map (\<lambda>(a, l, e). (a, l)) (sanity_trace (env # envs) (d, w)) = left d (state_of sanity_ob w)"
        unfolding tr using ih step by (simp add: b st)
      show "hs_fault_masks d' a = hs_fault_masks d a OR faults (sanity_trace (env # envs) (d, w)) a" for a
        unfolding tr using ih step[of a] by (simp add: faults_append or.assoc)
      show "verdict (hs_fault_masks d') w'" using ih by blast
    qed
  qed
qed simp

text \<open>With more than 50 ms between the iterations none of them waits.\<close>

definition slow :: "(mmu \<Rightarrow> mmu) list" where
  "slow = replicate 80 (\<lambda>w. w\<lparr>m_ms := m_ms w + 51\<rparr>)"

lemma test_axis_ms [simp]: "m_ms (snd (test_axis a g r n (d, w))) = m_ms w"
  by (simp add: test_axis_def PrepareAxis_def Let_def)

lemma display_time:
  assumes "HWSanity_StepInner (d, w) = (False, d', w')" "\<not> waits d w"
    "sanity_inv d (state_of sanity_ob w)" "state_of sanity_ob w' = P_HWTestDisplay"
  shows "hs_wait_start d' = m_ms w'"
proof -
  have exec: "HWTestExec (d, v) = (d', w') \<Longrightarrow> sanity_inv d P_HWTestExec \<Longrightarrow> ?thesis" for v
    using assms(4) by (auto simp: HWTestExec_def Let_def case_prod_beta sanity_inv_def split: if_splits)
  have axis: "test_axis a g r n (d, w) = (d', w') \<Longrightarrow> ?thesis" for a g r n
    using test_axis_state(1)[of a g r n d w] assms(4) by simp
  have "sanity_inv d P_HWTestExec" if "state_of sanity_ob w = P_HWTestExec \<or> state_of sanity_ob w = P_HWTestDisplay"
    using assms(3) that by (auto simp: sanity_inv_def)
  then show ?thesis
    using assms(1-4) exec axis
    by (cases "state_of sanity_ob w") (simp_all add: HWSanity_StepInner_def waits_def split: if_splits, force)
qed

lemma no_waits:
  assumes "state_of sanity_ob w = P_HWTestDisplay \<longrightarrow> hs_wait_start d = m_ms w" "sanity_inv d (state_of sanity_ob w)"
  shows "sanity_waits (replicate n (\<lambda>w. w\<lparr>m_ms := m_ms w + 51\<rparr>)) (d, w) = 0"
  using assms
proof (induction n arbitrary: d w)
  case (Suc n)
  define v where "v = w\<lparr>m_ms := m_ms w + 51\<rparr>"
  have v: "state_of sanity_ob v = state_of sanity_ob w" "m_ms v = m_ms w + 51" by (simp_all add: v_def state_of_def)
  have nw: "\<not> waits d v" using Suc.prems(1) by (auto simp: waits_def v Elapsed_def)
  obtain f d' w' where e: "HWSanity_StepInner (d, v) = (f, d', w')" by (metis prod_cases3)
  show ?case
  proof (cases f)
    case False
    with e have e': "HWSanity_StepInner (d, v) = (False, d', w')" by simp
    have b: "state_of sanity_ob (leds_step w') = state_of sanity_ob w'" by (rule state_of_base) simp
    have "m_ms (leds_step w') = m_ms w'" by (simp add: leds_step_def Let_def case_prod_beta)
    moreover have "state_of sanity_ob w' = P_HWTestDisplay \<longrightarrow> hs_wait_start d' = m_ms w'"
      using display_time[OF e' nw] Suc.prems(2) by (simp add: v)
    moreover have "sanity_inv d' (state_of sanity_ob w')"
      using sanity_step[OF _ e'] Suc.prems(2) by (simp add: v)
    ultimately have "sanity_waits (replicate n (\<lambda>w. w\<lparr>m_ms := m_ms w + 51\<rparr>)) (d', leds_step w') = 0"
      by (intro Suc.IH) (simp_all add: b)
    then show ?thesis using nw e' by (simp add: v_def [symmetric])
  qed (use e nw in \<open>simp add: v_def [symmetric]\<close>)
qed simp

lemma slow_finishes:
  assumes "HWSanity_Reset p (d0, w0) = (True, d, w)"
  shows "apart slow" "sanity_waits slow (d, w) = 0" "fst (sanity_loop slow (d, w))"
proof -
  have "state_of sanity_ob w = P_HWTestBegin" using assms by (auto simp: HWSanity_Reset_def)
  then have i: "sanity_inv d (state_of sanity_ob w)" "state_of sanity_ob w \<noteq> P_HWTestDisplay"
    "sanity_rank d (state_of sanity_ob w) = 80"
    by (simp_all add: sanity_inv_def sanity_rank_def)
  show a: "apart slow" by (simp add: slow_def apart_def)
  show z: "sanity_waits slow (d, w) = 0" unfolding slow_def using i by (intro no_waits) simp_all
  have "length slow = 80" by (simp add: slow_def)
  then show "fst (sanity_loop slow (d, w))" using z i by (intro sanity_loop_ends[OF a]) simp_all
qed

section \<open>Properties\<close>

text \<open>C32: the hardware test at start-up ends. Whatever the interrupts and the drivers do, the loop of
  \<open>setup2\<close> leaves the test after at most 80 iterations besides those that wait for the LEDs
  to be seen; each axis takes 24 combinations.\<close>

theorem hardware_test_ends:
  assumes "apart envs" "HWSanity_Reset p (d0, w0) = (True, d, w)"
    and "80 + sanity_waits envs (d, w) \<le> length envs"
  shows "fst (sanity_loop envs (d, w))"
proof -
  have "state_of sanity_ob w = P_HWTestBegin" using assms(2) by (auto simp: HWSanity_Reset_def)
  then show ?thesis using assms(1,3) by (intro sanity_loop_ends) (simp_all add: sanity_inv_def sanity_rank_def)
qed

theorem hardware_test_ends_witness:
  "fst (sanity_loop slow (snd (HWSanity_Reset 0 (HWSanity_new, mmu_new idle_hw blank_eeprom))))"
proof -
  obtain d w where r: "HWSanity_Reset 0 (HWSanity_new, mmu_new idle_hw blank_eeprom) = (True, d, w)"
    by (simp add: HWSanity_Reset_def)
  have "length slow = 80" by (simp add: slow_def)
  with hardware_test_ends[OF slow_finishes(1)[OF r] r] slow_finishes(2)[OF r] show ?thesis by (simp only: r snd_conv)
qed

text \<open>C33: the verdict of the hardware test. When the test is over, every axis has been driven three
  times through all eight combinations of its lines, idler first; the verdict is OK exactly if no line
  ever read back wrong, and otherwise the error names the axes with a fault, and only these.\<close>

theorem hardware_test_verdict:
  assumes "apart envs" "HWSanity_Reset p (d0, w0) = (True, d, w)" "sanity_loop envs (d, w) = (True, d', w')"
  defines "faulty \<equiv> \<lambda>a. faults (sanity_trace envs (d, w)) a \<noteq> 0"
  shows "map (\<lambda>(a, l, e). (a, l)) (sanity_trace envs (d, w)) =
      concat (map (\<lambda>a. map (\<lambda>n. (a, word_of_nat n mod 8)) [0..<24]) [Idler, Selector, Pulley])
    \<and> hs_fault_masks d' = faults (sanity_trace envs (d, w))
    \<and> (if \<exists>a. faulty a
       then state_of sanity_ob w' = P_ErrHwTestFailed
         \<and> error_of sanity_ob w' = MMU_SOLDERING_NEEDS_ATTENTION
             OR (if faulty Pulley then TMC_PULLEY_BIT else 0)
             OR (if faulty Selector then TMC_SELECTOR_BIT else 0)
             OR (if faulty Idler then TMC_IDLER_BIT else 0)
       else state_of sanity_ob w' = P_OK \<and> error_of sanity_ob w' = E_OK)"
proof -
  have b: "state_of sanity_ob w = P_HWTestBegin" and m: "\<And>a. hs_fault_masks d a = 0"
    using assms(2) by (auto simp: HWSanity_Reset_def)
  have "sanity_inv d (state_of sanity_ob w)" by (simp add: b sanity_inv_def)
  note t = sanity_loop_trace[OF assms(1) this assms(3)]
  have masks: "hs_fault_masks d' = faults (sanity_trace envs (d, w))" using t m by (auto intro: ext)
  moreover have "map (\<lambda>(a, l, e). (a, l)) (sanity_trace envs (d, w)) =
      concat (map (\<lambda>a. map (\<lambda>n. (a, word_of_nat n mod 8)) [0..<24]) [Idler, Selector, Pulley])"
    using t by (simp add: b left_def combinations_def del: upt_Suc)
  moreover obtain v where "w' = (if \<forall>a. hs_fault_masks d' a = 0 then FinishedOK sanity_ob v
      else HWTestFailed (hs_fault_masks d') v)" using t unfolding verdict_def by blast
  ultimately show ?thesis
    by (auto simp: faulty_def HWTestFailed_def report_fault_def Let_def AddErrorAxisBit_def error_defs all_axis)
qed

theorem hardware_test_verdict_witness:
  "state_of sanity_ob (snd (snd (sanity_loop slow
     (snd (HWSanity_Reset 0 (HWSanity_new, mmu_new idle_hw blank_eeprom)))))) \<in> {P_OK, P_ErrHwTestFailed}"
proof -
  obtain d w where r: "HWSanity_Reset 0 (HWSanity_new, mmu_new idle_hw blank_eeprom) = (True, d, w)"
    by (simp add: HWSanity_Reset_def)
  obtain d' w' where l: "sanity_loop slow (d, w) = (True, d', w')"
    using slow_finishes(3)[OF r] by (metis prod.collapse)
  from hardware_test_verdict[OF slow_finishes(1)[OF r] r l] show ?thesis
    by (auto simp: r l split: if_splits)
qed

end
