(* ===== verification/Crc8.thy ===== *)
theory Crc8
  imports Prelude
begin

text \<open>
  The CRC-8 of \<open>modules/crc.h\<close> (class \<open>CRC8\<close>): one step of the shift register, the update by
  a byte and by a little-endian 16-bit word. The lemmas show that the update is linear over
  exclusive or and a bijection in each argument, which is what makes the protocol's check
  byte detect every change confined to one byte of a message.
\<close>

text \<open>One turn of the loop of \<open>CCITT_updateCX\<close>.\<close>

definition crc8_bit :: "u8 \<Rightarrow> u8" where
  "crc8_bit data = (if data AND 0x80 \<noteq> 0 then push_bit 1 data XOR 0x07 else push_bit 1 data)"

definition CCITT_updateCX :: "u8 \<Rightarrow> u8 \<Rightarrow> u8" where
  "CCITT_updateCX crc b = (crc8_bit ^^ 8) (crc XOR b)"

text \<open>The union \<open>U\<close> gives the two bytes of \<open>w\<close>, low byte first (AVR is little-endian).\<close>

definition CCITT_updateW :: "u8 \<Rightarrow> u16 \<Rightarrow> u8" where
  "CCITT_updateW crc w =
     CCITT_updateCX (CCITT_updateCX crc (u8_of_u16 w)) (u8_of_u16 (drop_bit 8 w))"

section \<open>Linearity and injectivity\<close>

lemma crc8_msb: "(x :: u8) AND 0x80 \<noteq> 0 \<longleftrightarrow> bit x 7"
  by (simp add: and_exp_eq_0_iff_not_bit[of x 7, simplified])

lemma crc8_bit_xor: "crc8_bit (a XOR b) = crc8_bit a XOR crc8_bit b"
proof -
  have "push_bit 1 (a XOR b) = push_bit 1 a XOR push_bit 1 b" by (rule push_bit_xor)
  then show ?thesis
    by (cases "bit a 7"; cases "bit b 7")
      (simp_all only: crc8_bit_def crc8_msb bit_xor_iff simp_thms if_True if_False ac_simps,
        simp_all add: xor.assoc [symmetric])
qed

lemma crc8_bit_0 [simp]: "crc8_bit 0 = 0"
  by (simp add: crc8_bit_def)

text \<open>The bit that falls out at the top comes back at the bottom, so nothing is lost.\<close>

lemma crc8_bit_eq_0: "crc8_bit a = 0 \<longleftrightarrow> a = 0"
proof
  assume z: "crc8_bit a = 0"
  have "\<not> bit a 7"
  proof
    assume "bit a 7"
    moreover have "\<not> bit (push_bit 1 a) 0" and "bit (7 :: u8) 0"
      by (simp_all add: bit_0)
    ultimately have "bit (crc8_bit a) 0"
      unfolding crc8_bit_def crc8_msb by (simp only: if_True bit_xor_iff) simp
    with z show False by simp
  qed
  then have sh: "push_bit 1 a = 0" and top: "\<not> bit a 7"
    using z by (simp_all add: crc8_bit_def crc8_msb)
  show "a = 0"
  proof (rule bit_word_eqI)
    fix n assume "n < LENGTH(8)"
    then have n: "n < 7 \<or> n = 7" by auto
    have "bit (push_bit 1 a) (Suc n) = bit (0 :: u8) (Suc n)" by (simp only: sh)
    then have "n < 7 \<Longrightarrow> \<not> bit a n"
      by (simp only: bit_push_bit_iff bit_0_eq) (simp add: possible_bit_word)
    with n top show "bit a n = bit (0 :: u8) n" by auto
  qed
qed simp

lemma crc8_pow_xor: "(crc8_bit ^^ n) (a XOR b) = (crc8_bit ^^ n) a XOR (crc8_bit ^^ n) b"
  by (induction n) (simp_all add: crc8_bit_xor)

lemma crc8_pow_eq_0: "(crc8_bit ^^ n) a = 0 \<longleftrightarrow> a = 0"
  by (induction n) (simp_all add: crc8_bit_eq_0)

lemma crc8_pow_inj: "(crc8_bit ^^ n) a = (crc8_bit ^^ n) b \<longleftrightarrow> a = b"
  by (metis crc8_pow_eq_0 crc8_pow_xor word_xor_eq_0_iff)

lemma CCITT_updateCX_xor:
  "CCITT_updateCX (a XOR c) (b XOR d) = CCITT_updateCX a b XOR CCITT_updateCX c d"
proof -
  have "(a XOR c) XOR (b XOR d) = (a XOR b) XOR (c XOR d)"
    by (simp add: ac_simps)
  then show ?thesis by (simp add: CCITT_updateCX_def crc8_pow_xor)
qed

lemma CCITT_updateCX_inj_byte [simp]: "CCITT_updateCX c a = CCITT_updateCX c b \<longleftrightarrow> a = b"
  by (simp add: CCITT_updateCX_def crc8_pow_inj)

lemma CCITT_updateCX_inj_crc [simp]: "CCITT_updateCX a c = CCITT_updateCX b c \<longleftrightarrow> a = b"
  using CCITT_updateCX_inj_byte[of c a b] by (simp add: CCITT_updateCX_def xor.commute)

lemma CCITT_updateW_inj_crc [simp]: "CCITT_updateW a w = CCITT_updateW b w \<longleftrightarrow> a = b"
  by (simp add: CCITT_updateW_def)

end
