(* ===== verification/Protocol.thy ===== *)
theory Protocol
  imports Crc8 "HOL-Library.While_Combinator"
begin

text \<open>
  The text protocol between the printer and the MMU (\<open>modules/protocol.h\<close>,
  \<open>modules/protocol.cpp\<close>): message codes, request and response messages with their check
  byte, the hexadecimal printers, the encoders, and the two decoding automata that take one
  received byte per call. A buffer of \<open>n\<close> bytes written by an encoder is the list of these
  bytes, so the returned count is the length of the list.
\<close>

section \<open>Message codes\<close>

datatype RequestMsgCodes =
    Rq_unknown | Rq_Query | Rq_Tool | Rq_Load | Rq_Mode | Rq_Unload | Rq_Reset | Rq_Finda
  | Rq_Version | Rq_Button | Rq_Eject | Rq_Write | Rq_Cut | Rq_FilamentType
  | Rq_FilamentSensor | Rq_Home | Rq_Read

datatype ResponseMsgParamCodes =
    Rp_unknown | Rp_Processing | Rp_Error | Rp_Finished | Rp_Accepted | Rp_Rejected | Rp_Button

text \<open>The underlying bytes of the enumerators: the letters the protocol sends.\<close>

fun request_byte :: "RequestMsgCodes \<Rightarrow> u8" where
  "request_byte Rq_unknown = 0"
| "request_byte Rq_Query = 0x51"            \<comment> \<open>Q\<close>
| "request_byte Rq_Tool = 0x54"             \<comment> \<open>T\<close>
| "request_byte Rq_Load = 0x4C"             \<comment> \<open>L\<close>
| "request_byte Rq_Mode = 0x4D"             \<comment> \<open>M\<close>
| "request_byte Rq_Unload = 0x55"           \<comment> \<open>U\<close>
| "request_byte Rq_Reset = 0x58"            \<comment> \<open>X\<close>
| "request_byte Rq_Finda = 0x50"            \<comment> \<open>P\<close>
| "request_byte Rq_Version = 0x53"          \<comment> \<open>S\<close>
| "request_byte Rq_Button = 0x42"           \<comment> \<open>B\<close>
| "request_byte Rq_Eject = 0x45"            \<comment> \<open>E\<close>
| "request_byte Rq_Write = 0x57"            \<comment> \<open>W\<close>
| "request_byte Rq_Cut = 0x4B"              \<comment> \<open>K\<close>
| "request_byte Rq_FilamentType = 0x46"     \<comment> \<open>F\<close>
| "request_byte Rq_FilamentSensor = 0x66"   \<comment> \<open>f\<close>
| "request_byte Rq_Home = 0x48"             \<comment> \<open>H\<close>
| "request_byte Rq_Read = 0x52"             \<comment> \<open>R\<close>

fun param_byte :: "ResponseMsgParamCodes \<Rightarrow> u8" where
  "param_byte Rp_unknown = 0"
| "param_byte Rp_Processing = 0x50"         \<comment> \<open>P\<close>
| "param_byte Rp_Error = 0x45"              \<comment> \<open>E\<close>
| "param_byte Rp_Finished = 0x46"           \<comment> \<open>F\<close>
| "param_byte Rp_Accepted = 0x41"           \<comment> \<open>A\<close>
| "param_byte Rp_Rejected = 0x52"           \<comment> \<open>R\<close>
| "param_byte Rp_Button = 0x42"             \<comment> \<open>B\<close>

text \<open>
  The cast \<open>(RequestMsgCodes)c\<close> behind the \<open>switch\<close> over the accepted letters: \<open>None\<close> is
  the \<open>default\<close> branch.
\<close>

definition request_of_byte :: "u8 \<Rightarrow> RequestMsgCodes option" where
  "request_of_byte c = map_of (map (\<lambda>m. (request_byte m, m))
     [Rq_Query, Rq_Tool, Rq_Load, Rq_Mode, Rq_Unload, Rq_Reset, Rq_Finda, Rq_Version,
      Rq_Button, Rq_Eject, Rq_Write, Rq_Cut, Rq_FilamentType, Rq_FilamentSensor, Rq_Home,
      Rq_Read]) c"

definition param_of_byte :: "u8 \<Rightarrow> ResponseMsgParamCodes option" where
  "param_of_byte c = map_of (map (\<lambda>m. (param_byte m, m))
     [Rp_Processing, Rp_Error, Rp_Finished, Rp_Accepted, Rp_Rejected, Rp_Button]) c"

section \<open>Messages and their check byte\<close>

record RequestMsg =
  rq_code :: RequestMsgCodes
  rq_value :: u8
  rq_value2 :: u16
  rq_crc8 :: u8

definition RequestMsg_ComputeCRC8 :: "RequestMsg \<Rightarrow> u8" where
  "RequestMsg_ComputeCRC8 m =
     (let crc = CCITT_updateCX 0 (request_byte (rq_code m));
          crc = CCITT_updateCX crc (rq_value m)
      in CCITT_updateW crc (rq_value2 m))"

text \<open>The two constructors of \<open>RequestMsg\<close>; the second is meant for write requests.\<close>

definition RequestMsg_new :: "RequestMsgCodes \<Rightarrow> u8 \<Rightarrow> RequestMsg" where
  "RequestMsg_new c v =
     (let m = \<lparr>rq_code = c, rq_value = v, rq_value2 = 0, rq_crc8 = 0\<rparr>
      in m\<lparr>rq_crc8 := RequestMsg_ComputeCRC8 m\<rparr>)"

definition RequestMsg_new_write :: "RequestMsgCodes \<Rightarrow> u8 \<Rightarrow> u16 \<Rightarrow> RequestMsg" where
  "RequestMsg_new_write c address v =
     (let m = \<lparr>rq_code = c, rq_value = address, rq_value2 = v, rq_crc8 = 0\<rparr>
      in m\<lparr>rq_crc8 := RequestMsg_ComputeCRC8 m\<rparr>)"

text \<open>As in the source, the check byte of a response lives in its embedded request.\<close>

record ResponseMsg =
  rsp_request :: RequestMsg
  rsp_paramCode :: ResponseMsgParamCodes
  rsp_paramValue :: u16

definition ResponseMsg_ComputeCRC8 :: "ResponseMsg \<Rightarrow> u8" where
  "ResponseMsg_ComputeCRC8 r =
     (let crc = RequestMsg_ComputeCRC8 (rsp_request r);
          crc = CCITT_updateCX crc (param_byte (rsp_paramCode r))
      in CCITT_updateW crc (rsp_paramValue r))"

definition ResponseMsg_CRC :: "ResponseMsg \<Rightarrow> u8" where
  "ResponseMsg_CRC r = rq_crc8 (rsp_request r)"

definition ResponseMsg_new ::
  "RequestMsg \<Rightarrow> ResponseMsgParamCodes \<Rightarrow> u16 \<Rightarrow> ResponseMsg" where
  "ResponseMsg_new rq pc pv =
     (let r = \<lparr>rsp_request = rq, rsp_paramCode = pc, rsp_paramValue = pv\<rparr>
      in r\<lparr>rsp_request := (rsp_request r)\<lparr>rq_crc8 := ResponseMsg_ComputeCRC8 r\<rparr>\<rparr>)"

record ResponseCommandStatus =
  rcs_code :: ResponseMsgParamCodes
  rcs_value :: u16

section \<open>Characters and hexadecimal digits\<close>

definition IsNewLine :: "u8 \<Rightarrow> bool" where
  "IsNewLine c \<longleftrightarrow> c = 0x0A \<or> c = 0x0D"

definition IsDigit :: "u8 \<Rightarrow> bool" where
  "IsDigit c \<longleftrightarrow> 0x30 \<le> c \<and> c \<le> 0x39"

definition IsCRCSeparator :: "u8 \<Rightarrow> bool" where
  "IsCRCSeparator c \<longleftrightarrow> c = 0x2A"

definition IsHexDigit :: "u8 \<Rightarrow> bool" where
  "IsHexDigit c \<longleftrightarrow> (0x30 \<le> c \<and> c \<le> 0x39) \<or> (0x61 \<le> c \<and> c \<le> 0x66)"

definition Char2Nibble :: "u8 \<Rightarrow> u8" where
  "Char2Nibble c =
     (if 0x30 \<le> c \<and> c \<le> 0x39 then c - 0x30
      else if 0x61 \<le> c \<and> c \<le> 0x66 then c - 0x61 + 10
      else 0)"

definition Nibble2Char :: "u8 \<Rightarrow> u8" where
  "Nibble2Char n =
     (if n \<le> 9 then n + 0x30
      else if n \<le> 0xf then n - 10 + 0x61
      else 0)"

definition UInt8ToHex :: "u8 \<Rightarrow> u8 list" where
  "UInt8ToHex v =
     (if v = 0 then [0x30]
      else let hi = drop_bit 4 v; lo = v AND 0xf
           in (if hi \<noteq> 0 then [Nibble2Char hi] else []) @ [Nibble2Char lo])"

text \<open>
  The loop that skips leading zero nibbles. It does not end for 0, which
  \<open>UInt16ToHex\<close> handles before it; \<open>skip_zeros_terminates\<close> below shows it ends otherwise.
\<close>

definition skip_zeros :: "u16 \<times> u8 \<Rightarrow> u16 \<times> u8" where
  "skip_zeros = while (\<lambda>(v, n). v AND 0xf000 = 0) (\<lambda>(v, n). (push_bit 4 v, n - 1))"

definition top_nibble :: "u16 \<Rightarrow> u8" where
  "top_nibble v = u8_of_u16 (drop_bit 12 (v AND 0xf000))"

fun top_nibbles :: "nat \<Rightarrow> u16 \<Rightarrow> u8 list" where
  "top_nibbles 0 v = []"
| "top_nibbles (Suc n) v = Nibble2Char (top_nibble v) # top_nibbles n (push_bit 4 v)"

definition UInt16ToHex :: "u16 \<Rightarrow> u8 list" where
  "UInt16ToHex v =
     (if v = 0 then [0x30]
      else let (v', charsOut) = skip_zeros (v, 4) in top_nibbles (unat charsOut) v')"

section \<open>Encoders\<close>

definition BeginEncodeRequest :: "RequestMsg \<Rightarrow> u8 list" where
  "BeginEncodeRequest m = request_byte (rq_code m) # UInt8ToHex (rq_value m) @ [0x20]"

definition AppendCRC :: "u8 \<Rightarrow> u8 list" where
  "AppendCRC crc = 0x2A # UInt8ToHex crc"

definition EncodeRequest :: "RequestMsg \<Rightarrow> u8 list" where
  "EncodeRequest m =
     request_byte (rq_code m) # UInt8ToHex (rq_value m) @ AppendCRC (rq_crc8 m) @ [0x0A]"

definition EncodeWriteRequest :: "u8 \<Rightarrow> u16 \<Rightarrow> u8 list" where
  "EncodeWriteRequest address v =
     (let m = RequestMsg_new_write Rq_Write address v
      in BeginEncodeRequest m @ UInt16ToHex v @ AppendCRC (rq_crc8 m) @ [0x0A])"

definition EncodeResponseCmdAR :: "RequestMsg \<Rightarrow> ResponseMsgParamCodes \<Rightarrow> u8 list" where
  "EncodeResponseCmdAR m ar =
     (let rsp = ResponseMsg_new (RequestMsg_new (rq_code m) (rq_value m)) ar 0
      in BeginEncodeRequest (rsp_request rsp) @ [param_byte ar] @ AppendCRC (ResponseMsg_CRC rsp)
         @ [0x0A])"

definition EncodeResponseQueryOperation ::
  "RequestMsg \<Rightarrow> ResponseCommandStatus \<Rightarrow> u8 list" where
  "EncodeResponseQueryOperation m rcs =
     (let rsp = ResponseMsg_new m (rcs_code rcs) (rcs_value rcs)
      in BeginEncodeRequest m @ [param_byte (rsp_paramCode rsp)]
         @ UInt16ToHex (rsp_paramValue rsp) @ AppendCRC (ResponseMsg_CRC rsp) @ [0x0A])"

definition EncodeResponseRead :: "RequestMsg \<Rightarrow> bool \<Rightarrow> u16 \<Rightarrow> u8 list" where
  "EncodeResponseRead m accepted value2 =
     (let rsp = ResponseMsg_new m (if accepted then Rp_Accepted else Rp_Rejected)
                  (if accepted then value2 else 0)
      in BeginEncodeRequest m @ [param_byte (rsp_paramCode rsp)]
         @ (if accepted then UInt16ToHex value2 else [])
         @ AppendCRC (ResponseMsg_CRC rsp) @ [0x0A])"

definition EncodeResponseReadFINDA :: "RequestMsg \<Rightarrow> u8 \<Rightarrow> u8 list" where
  "EncodeResponseReadFINDA m findaValue = EncodeResponseRead m True (u16_of_u8 findaValue)"

definition MaxRequestSize :: nat where "MaxRequestSize = 13"

definition MaxResponseSize :: nat where "MaxResponseSize = 14"

section \<open>Facts on codes\<close>

lemma request_of_byte_inv [simp]:
  "c \<noteq> Rq_unknown \<Longrightarrow> request_of_byte (request_byte c) = Some c"
  by (cases c) (simp_all add: request_of_byte_def)

lemma request_of_byteD:
  "request_of_byte b = Some c \<Longrightarrow> request_byte c = b \<and> c \<noteq> Rq_unknown"
  by (auto simp: request_of_byte_def split: if_splits)

lemma param_of_byte_inv [simp]: "c \<noteq> Rp_unknown \<Longrightarrow> param_of_byte (param_byte c) = Some c"
  by (cases c) (simp_all add: param_of_byte_def)

lemma request_byte_inj: "request_byte c = request_byte d \<longleftrightarrow> c = d"
  by (cases c; cases d) simp_all

lemma request_byte_not_newline [simp]: "\<not> IsNewLine (request_byte c)"
  by (cases c) (simp_all add: IsNewLine_def)

lemma param_byte_not_newline [simp]: "\<not> IsNewLine (param_byte c)"
  by (cases c) (simp_all add: IsNewLine_def)

lemma request_byte_write [simp]: "request_byte c = 0x57 \<longleftrightarrow> c = Rq_Write"
  by (cases c) simp_all

section \<open>Facts on hexadecimal digits\<close>

lemma nibble_roundtrip:
  "unat n < 16 \<Longrightarrow> IsHexDigit (Nibble2Char n) \<and> Char2Nibble (Nibble2Char n) = n"
  by (rule all_u8_less[where k = 16
        and P = "\<lambda>n. IsHexDigit (Nibble2Char n) \<and> Char2Nibble (Nibble2Char n) = n"])
    (code_simp, assumption)

lemma nibble_less_16: "unat (drop_bit 4 v :: u8) < 16" "unat (v AND 0xf :: u8) < 16"
proof -
  show "unat (drop_bit 4 v :: u8) < 16"
    unfolding unat_drop_bit using unat_less_256[of v] by (intro less_mult_imp_div_less) simp
  show "unat (v AND 0xf :: u8) < 16"
    by (simp only: unat_u8_and_15)
qed

text \<open>One digit appended at the right of a number of any width, as all decoders do.\<close>

definition hex_acc :: "'w::len word \<Rightarrow> u8 \<Rightarrow> 'w word" where
  "hex_acc v c = push_bit 4 v OR ucast (Char2Nibble c)"

definition hex_value :: "u8 list \<Rightarrow> 'w::len word" where
  "hex_value cs = foldl hex_acc 0 cs"

lemma hex_acc_nibble: "unat n < 16 \<Longrightarrow> hex_acc v (Nibble2Char n) = push_bit 4 v OR ucast n"
  by (simp add: hex_acc_def nibble_roundtrip)

lemma UInt8ToHex_digits: "list_all IsHexDigit (UInt8ToHex v)"
  by (simp add: UInt8ToHex_def Let_def nibble_roundtrip nibble_less_16) (simp add: IsHexDigit_def)

lemma hex_value_UInt8ToHex: "hex_value (UInt8ToHex v) = v"
proof (cases "v = 0")
  case True
  then show ?thesis by (simp add: UInt8ToHex_def hex_value_def hex_acc_def Char2Nibble_def)
next
  case False
  have split: "push_bit 4 (drop_bit 4 v) OR (v AND 0xf) = v"
  proof (rule bit_word_eqI)
    fix n assume "n < LENGTH(8)"
    moreover have "bit (0xf :: u8) n \<longleftrightarrow> n < 4"
      using bit_mask_iff[of 4 n, where ?'a = "8 word"] \<open>n < LENGTH(8)\<close>
      by (simp add: mask_eq_exp_minus_1)
    ultimately show "bit (push_bit 4 (drop_bit 4 v) OR (v AND 0xf)) n = bit v n"
      by (auto simp: bit_simps)
  qed
  show ?thesis
  proof (cases "drop_bit 4 v = 0")
    case True
    with split False nibble_less_16(2)[of v] show ?thesis
      by (simp add: UInt8ToHex_def Let_def hex_value_def hex_acc_nibble)
  next
    case hi: False
    with split False show ?thesis
      by (simp add: UInt8ToHex_def Let_def hex_value_def hex_acc_nibble nibble_less_16)
  qed
qed

lemma UInt8ToHex_length: "length (UInt8ToHex v) \<le> 2"
  by (simp add: UInt8ToHex_def Let_def)

text \<open>Sixteen bits: the leading-zero loop and the digits it leaves.\<close>

lemma skip_zeros_unfold:
  "skip_zeros (v, n) = (if v AND 0xf000 = 0 then skip_zeros (push_bit 4 v, n - 1) else (v, n))"
  by (simp add: skip_zeros_def while_unfold [where s = "(v, n)"])

lemma top_nibble_bits: "v AND 0xf000 = 0 \<longleftrightarrow> (\<forall>i. 12 \<le> i \<and> i < 16 \<longrightarrow> \<not> bit (v :: u16) i)"
proof -
  have m: "(0xf000 :: u16) = push_bit 12 (mask 4)"
    by (simp add: mask_eq_exp_minus_1)
  have "bit (v AND 0xf000) i \<longleftrightarrow> 12 \<le> i \<and> i < 16 \<and> bit v i" for i
    unfolding m by (auto simp: bit_simps)
  then show ?thesis by (auto simp: bit_eq_iff)
qed

lemma push_top_nibble_bits:
  "j < 4 \<Longrightarrow> push_bit (4 * j) v AND 0xf000 = 0 \<longleftrightarrow>
     (\<forall>i. 12 - 4 * j \<le> i \<and> i < 16 - 4 * j \<longrightarrow> \<not> bit (v :: u16) i)"
  unfolding top_nibble_bits
proof (intro iffI allI impI)
  fix i :: nat
  assume j: "j < 4" and a: "\<forall>i. 12 \<le> i \<and> i < 16 \<longrightarrow> \<not> bit (push_bit (4 * j) v) i"
    and i: "12 - 4 * j \<le> i \<and> i < 16 - 4 * j"
  from i j have r: "12 \<le> i + 4 * j" "i + 4 * j < 16" by linarith+
  with a have "\<not> bit (push_bit (4 * j) v) (i + 4 * j)" by blast
  with r show "\<not> bit v i" by (simp add: bit_push_bit_iff)
next
  fix i :: nat
  assume j: "j < 4" and a: "\<forall>i. 12 - 4 * j \<le> i \<and> i < 16 - 4 * j \<longrightarrow> \<not> bit v i"
    and i: "12 \<le> i \<and> i < 16"
  then have "12 - 4 * j \<le> i - 4 * j" and "i - 4 * j < 16 - 4 * j" using j by linarith+
  with a have "\<not> bit v (i - 4 * j)" by blast
  then show "\<not> bit (push_bit (4 * j) v) i" by (simp add: bit_push_bit_iff)
qed

lemma skip_zeros_result:
  assumes "v \<noteq> 0"
  shows "\<exists>j < 4. skip_zeros (v, 4) = (push_bit (4 * j) v, word_of_nat (4 - j)) \<and>
           (\<forall>i. 16 - 4 * j \<le> i \<longrightarrow> \<not> bit v i)"
proof -
  let ?z = "\<lambda>j. push_bit (4 * j) v AND 0xf000 = 0"
  have high: "16 \<le> i \<Longrightarrow> \<not> bit v i" for i
    using bit_imp_le_length[of v i] by auto
  have nz: "\<not> (?z 0 \<and> ?z 1 \<and> ?z 2 \<and> ?z 3)"
  proof
    assume "?z 0 \<and> ?z 1 \<and> ?z 2 \<and> ?z 3"
    then have "\<not> bit v i" for i
      using push_top_nibble_bits[of 0 v] push_top_nibble_bits[of 1 v]
        push_top_nibble_bits[of 2 v] push_top_nibble_bits[of 3 v] high[of i]
      by (cases "i < 4"; cases "i < 8"; cases "i < 12"; cases "i < 16") auto
    then have "v = 0" by (simp add: bit_eq_iff)
    with assms show False by simp
  qed
  have step: "skip_zeros (push_bit (4 * j) v, n) =
      (if ?z j then skip_zeros (push_bit (4 * Suc j) v, n - 1) else (push_bit (4 * j) v, n))" for j n
    by (subst skip_zeros_unfold) (simp add: add.commute)
  have n: "\<not> bit v i" if "16 - 4 * j \<le> i" and "\<forall>k < j. ?z k" and "j < 4" for i j
  proof (cases "16 \<le> i")
    case False
    define k where "k = 3 - i div 4"
    have "k < j" and "k < 4" and "12 - 4 * k \<le> i" and "i < 16 - 4 * k"
      using that(1,3) False unfolding k_def by linarith+
    with that(2) push_top_nibble_bits[of k v] show ?thesis by blast
  qed (rule high)
  consider (z0) "\<not> ?z 0" | (z1) "?z 0" "\<not> ?z 1" | (z2) "?z 0" "?z 1" "\<not> ?z 2"
    | (z3) "?z 0" "?z 1" "?z 2" "\<not> ?z 3"
    using nz by blast
  then show ?thesis
  proof cases
    case z0
    with step[of 0 4] n[of 0] show ?thesis by (intro exI[of _ 0]) auto
  next
    case z1
    with step[of 0 4] step[of 1 3] n[of 1] show ?thesis
      by (intro exI[of _ 1]) (auto simp: less_Suc_eq)
  next
    case z2
    with step[of 0 4] step[of 1 3] step[of 2 2] n[of 2] show ?thesis
      by (intro exI[of _ 2]) (auto simp: less_Suc_eq numeral_2_eq_2)
  next
    case z3
    with step[of 0 4] step[of 1 3] step[of 2 2] step[of 3 1] n[of 3] show ?thesis
      by (intro exI[of _ 3]) (auto simp: less_Suc_eq numeral_3_eq_3 numeral_2_eq_2)
  qed
qed

text \<open>The loop of \<open>UInt16ToHex\<close> ends for every value it is entered with.\<close>

lemma top_nibble_less: "v AND 0xf000 = 0 \<Longrightarrow> unat (v :: u16) < 4096"
proof -
  assume "v AND 0xf000 = 0"
  then have "take_bit 12 v = v"
    using bit_imp_le_length[of v] unfolding top_nibble_bits
    by (auto simp: bit_simps intro!: bit_word_eqI) (meson linorder_not_less)
  then have "unat v = take_bit 12 (unat v)" by (metis unsigned_take_bit_eq)
  also have "\<dots> < 4096" using take_bit_nat_less_exp[of 12 "unat v"] by simp
  finally show ?thesis .
qed

lemma skip_zeros_terminates:
  assumes "v \<noteq> 0"
  shows "\<exists>r. while_option (\<lambda>(v :: u16, n :: u8). v AND 0xf000 = 0)
               (\<lambda>(v, n). (push_bit 4 v, n - 1)) (v, 4) = Some r"
proof (rule measure_while_option_Some[where P = "\<lambda>(v, n). v \<noteq> 0"
        and f = "\<lambda>(v, n). 65536 - unat v"])
  fix s :: "u16 \<times> u8"
  assume s: "case s of (v, n) \<Rightarrow> v \<noteq> 0" "case s of (v, n) \<Rightarrow> v AND 0xf000 = 0"
  obtain w n where [simp]: "s = (w, n)" by (cases s)
  from s have w: "w \<noteq> 0" "w AND 0xf000 = 0" by auto
  then have "unat w < 4096" by (simp add: top_nibble_less)
  moreover have "unat (push_bit 4 w) = take_bit LENGTH(16) (push_bit 4 (unat w))"
    by (rule unsigned_push_bit_eq)
  ultimately have p: "unat (push_bit 4 w) = 16 * unat w"
    by (simp only: push_bit_eq_mult take_bit_eq_mod) simp
  moreover have "0 < unat w" using w(1) by (simp add: unat_gt_0)
  ultimately have "push_bit 4 w \<noteq> 0" by (metis mult_is_0 numeral_neq_zero unat_0 less_irrefl)
  with p \<open>unat w < 4096\<close> \<open>0 < unat w\<close>
  show "(case case s of (v, n) \<Rightarrow> (push_bit 4 v, n - 1) of (v, n) \<Rightarrow> v \<noteq> 0) \<and>
      (case case s of (v, n) \<Rightarrow> (push_bit 4 v, n - 1) of (v, n) \<Rightarrow> 65536 - unat v)
        < (case s of (v, n) \<Rightarrow> 65536 - unat v)"
    by (simp del: push_bit_eq_mult)
qed (use assms in simp)

lemma top_nibble_less_16: "unat (top_nibble v) < 16"
  and top_nibble_value: "u16_of_u8 (top_nibble v) = drop_bit 12 v"
proof -
  have m: "(0xf000 :: u16) = push_bit 12 (mask 4)" by (simp add: mask_eq_exp_minus_1)
  have d: "drop_bit 12 (v AND 0xf000) = drop_bit 12 v"
  proof (rule bit_word_eqI)
    fix n
    have "bit v (12 + n) \<Longrightarrow> n < 4" using bit_imp_le_length[of v "12 + n"] by simp
    then show "bit (drop_bit 12 (v AND 0xf000)) n = bit (drop_bit 12 v) n"
      unfolding m using bit_imp_le_length[of v "12 + n"] by (auto simp: bit_simps)
  qed
  have u: "unat (drop_bit 12 v) < 16"
    unfolding unat_drop_bit using unat_less_65536[of v] by (intro less_mult_imp_div_less) simp
  then show "unat (top_nibble v) < 16"
    unfolding top_nibble_def d unat_u8_of_u16 by simp
  show "u16_of_u8 (top_nibble v) = drop_bit 12 v"
    unfolding top_nibble_def d
    using u by (intro unsigned_word_eqI[where ?'a = nat]) (simp add: unat_u8_of_u16)
qed

lemma top_nibbles_digits: "list_all IsHexDigit (top_nibbles k v)"
  by (induction k arbitrary: v) (simp_all add: nibble_roundtrip top_nibble_less_16)

lemma top_nibbles_value:
  "k \<le> 4 \<Longrightarrow>
     foldl hex_acc a (top_nibbles k v) = push_bit (4 * k) a OR drop_bit (16 - 4 * k) (v :: u16)"
proof (induction k arbitrary: a v)
  case (Suc k)
  have "foldl hex_acc a (top_nibbles (Suc k) v) =
      push_bit (4 * k) (push_bit 4 a OR drop_bit 12 v) OR drop_bit (16 - 4 * k) (push_bit 4 v)"
    using Suc by (simp add: hex_acc_nibble top_nibble_less_16 top_nibble_value)
  also have "\<dots> = push_bit (4 * Suc k) a OR drop_bit (16 - 4 * Suc k) v"
  proof (rule bit_word_eqI)
    fix n assume n: "n < LENGTH(16)"
    have hi: "16 - 4 * k + n < 16 \<longleftrightarrow> n < 4 * k" "4 * k \<le> n \<Longrightarrow> 12 + (n - 4 * k) = 16 - 4 * Suc k + n"
      "16 - 4 * k + n - 4 = 16 - 4 * Suc k + n" "n - 4 * k - 4 = n - 4 * Suc k" "4 \<le> 16 - 4 * k + n"
      using Suc.prems n by simp_all arith+
    have "\<not> bit v (16 - 4 * Suc k + n)" if "4 * Suc k \<le> n"
      using that Suc.prems bit_imp_le_length[of v "16 - 4 * Suc k + n"] by auto
    with n show "bit (push_bit (4 * k) (push_bit 4 a OR drop_bit 12 v)
          OR drop_bit (16 - 4 * k) (push_bit 4 v)) n
        = bit (push_bit (4 * Suc k) a OR drop_bit (16 - 4 * Suc k) v) n"
      by (cases "n < 4 * k"; cases "4 * Suc k \<le> n")
        (simp_all only: bit_or_iff bit_push_bit_iff bit_drop_bit_eq comp_def possible_bit_word hi, auto)
  qed
  finally show ?case .
qed simp

lemma top_nibbles_length [simp]: "length (top_nibbles k v) = k"
  by (induction k arbitrary: v) simp_all

lemma UInt16ToHex_nonzero:
  assumes "v \<noteq> 0"
  obtains j where "j < 4" "UInt16ToHex v = top_nibbles (4 - j) (push_bit (4 * j) v)"
    "\<And>i. 16 - 4 * j \<le> i \<Longrightarrow> \<not> bit v i"
proof -
  obtain j where j: "j < 4" "skip_zeros (v, 4) = (push_bit (4 * j) v, word_of_nat (4 - j))"
    "\<And>i. 16 - 4 * j \<le> i \<Longrightarrow> \<not> bit v i"
    using skip_zeros_result[OF assms] by blast
  moreover have "unat (word_of_nat (4 - j) :: u8) = 4 - j"
    by (simp add: unat_of_nat)
  ultimately show ?thesis
    using assms by (intro that[of j]) (simp_all add: UInt16ToHex_def)
qed

lemma UInt16ToHex_digits: "list_all IsHexDigit (UInt16ToHex v)"
proof (cases "v = 0")
  case False
  then show ?thesis by (metis UInt16ToHex_nonzero top_nibbles_digits)
qed (simp add: UInt16ToHex_def IsHexDigit_def)

lemma UInt16ToHex_length: "length (UInt16ToHex v) \<le> 4"
proof (cases "v = 0")
  case False
  then obtain j where "UInt16ToHex v = top_nibbles (4 - j) (push_bit (4 * j) v)"
    by (rule UInt16ToHex_nonzero)
  then show ?thesis by simp
qed (simp add: UInt16ToHex_def)

lemma hex_value_UInt16ToHex: "hex_value (UInt16ToHex v) = v"
proof (cases "v = 0")
  case True
  then show ?thesis by (simp add: UInt16ToHex_def hex_value_def hex_acc_def Char2Nibble_def)
next
  case False
  then obtain j where j: "j < 4" "UInt16ToHex v = top_nibbles (4 - j) (push_bit (4 * j) v)"
    "\<And>i. 16 - 4 * j \<le> i \<Longrightarrow> \<not> bit v i"
    by (rule UInt16ToHex_nonzero) blast
  then have "hex_value (UInt16ToHex v) = drop_bit (16 - 4 * (4 - j)) (push_bit (4 * j) v)"
    by (simp add: hex_value_def top_nibbles_value)
  also have "16 - 4 * (4 - j) = 4 * j" using j(1) by simp
  also have "drop_bit (4 * j) (push_bit (4 * j) v) = v"
  proof (rule bit_word_eqI)
    fix n assume "n < LENGTH(16)"
    show "bit (drop_bit (4 * j) (push_bit (4 * j) v)) n = bit v n"
    proof (cases "4 * j + n < 16")
      case False
      with j(3)[of n] show ?thesis by (auto simp: bit_simps)
    qed (simp add: bit_simps)
  qed
  finally show ?thesis .
qed

lemma hex_not_newline: "IsHexDigit c \<Longrightarrow> \<not> IsNewLine c"
  by (auto simp: IsHexDigit_def IsNewLine_def)

section \<open>What the check byte detects\<close>

lemma RequestMsg_crc_code_inj:
  "RequestMsg_ComputeCRC8 (m\<lparr>rq_code := c\<rparr>) = RequestMsg_ComputeCRC8 (m\<lparr>rq_code := d\<rparr>) \<longleftrightarrow> c = d"
  by (simp add: RequestMsg_ComputeCRC8_def request_byte_inj)

lemma RequestMsg_crc_value_inj:
  "RequestMsg_ComputeCRC8 (m\<lparr>rq_value := v\<rparr>) = RequestMsg_ComputeCRC8 (m\<lparr>rq_value := w\<rparr>) \<longleftrightarrow> v = w"
  by (simp add: RequestMsg_ComputeCRC8_def)

end
