(* ===== verification/Serial.thy ===== *)
theory Serial
  imports Circular_Buffer Protocol
begin

text \<open>
  The serial line to the printer (\<open>hal/usart.h\<close>, \<open>hal/avr/usart.cpp\<close>, \<open>modules/serial.cpp\<close>). The hardware is
  the flag of an empty data register and the list of the bytes put into that register so far;
  the receive and transmit interrupts are operations.
\<close>

section \<open>The USART\<close>

definition uart_buffer_size :: u8 where "uart_buffer_size = 32"

record USART =
  us_written :: bool
  us_tx_buf :: "u8 CircularBuffer"
  us_rx_buf :: "u8 CircularBuffer"
  us_data_empty :: bool \<comment> \<open>UDRE1 of UCSR1A\<close>
  us_udrie :: bool \<comment> \<open>UDRIE1 of UCSR1B, the enable bit of the transmit interrupt\<close>
  us_wire :: "u8 list"

definition USART_new :: USART where
  "USART_new = \<lparr>us_written = False, us_tx_buf = CB_new uart_buffer_size 0, us_rx_buf = CB_new uart_buffer_size 0,
     us_data_empty = True, us_udrie = False, us_wire = []\<rparr>"

definition ReadEmpty :: "USART \<Rightarrow> bool" where "ReadEmpty u = CB_empty (us_rx_buf u)"

definition CanWrite :: "USART \<Rightarrow> bool" where "CanWrite u \<longleftrightarrow> \<not> CB_full uart_buffer_size (us_tx_buf u)"

definition USART_Read :: "USART \<Rightarrow> u8 \<times> USART" where
  "USART_Read u =
     (let (c, b) = CB_pop uart_buffer_size (us_rx_buf u)
      in ((case c of None \<Rightarrow> 0 | Some x \<Rightarrow> x), u\<lparr>us_rx_buf := b\<rparr>))"

definition put_data :: "u8 \<Rightarrow> USART \<Rightarrow> USART" where
  "put_data c u = u\<lparr>us_wire := us_wire u @ [c], us_data_empty := False\<rparr>"

definition ISR_RX :: "bool \<Rightarrow> u8 \<Rightarrow> USART \<Rightarrow> USART" where
  "ISR_RX framing_error c u =
     (if framing_error then u else u\<lparr>us_rx_buf := snd (CB_push uart_buffer_size c (us_rx_buf u))\<rparr>)"

definition ISR_UDRE :: "USART \<Rightarrow> USART" where
  "ISR_UDRE u =
     (let (c, b) = CB_pop uart_buffer_size (us_tx_buf u);
          u = put_data (case c of None \<Rightarrow> 0 | Some x \<Rightarrow> x) (u\<lparr>us_tx_buf := b\<rparr>)
      in if CB_empty (us_tx_buf u) then u\<lparr>us_udrie := False\<rparr> else u)"

text \<open>The data register empties; the transmit interrupt follows if it is enabled.\<close>

definition data_register_empty :: "USART \<Rightarrow> USART" where
  "data_register_empty u = (let u = u\<lparr>us_data_empty := True\<rparr> in if us_udrie u then ISR_UDRE u else u)"

text \<open>
  Writing to a full buffer waits until the interrupt, or the code itself when interrupts are disabled,
  has moved one byte out.
\<close>

definition USART_Write :: "u8 \<Rightarrow> USART \<Rightarrow> USART" where
  "USART_Write c u =
     (let u = u\<lparr>us_written := True\<rparr> in
      if CB_empty (us_tx_buf u) \<and> us_data_empty u then put_data c u
      else
        let u = (if CB_full uart_buffer_size (us_tx_buf u) then ISR_UDRE u else u)
        in u\<lparr>us_tx_buf := snd (CB_push uart_buffer_size c (us_tx_buf u)), us_udrie := True\<rparr>)"

section \<open>The serial module\<close>

fun WriteToUSART :: "u8 list \<Rightarrow> USART \<Rightarrow> bool \<times> USART" where
  "WriteToUSART [] u = (True, u)"
| "WriteToUSART (c # src) u =
     (if CanWrite u then WriteToUSART src (USART_Write c u) else (False, u))"

definition Available :: "USART \<Rightarrow> bool" where "Available u \<longleftrightarrow> \<not> ReadEmpty u"

definition ConsumeByte :: "USART \<Rightarrow> u8 \<times> USART" where "ConsumeByte = USART_Read"

section \<open>The line as a channel\<close>

text \<open>The interrupt is enabled exactly as long as bytes wait for it.\<close>

definition usart_wf :: "USART \<Rightarrow> bool" where
  "usart_wf u \<longleftrightarrow> CB_wf uart_buffer_size (us_tx_buf u) \<and> CB_wf uart_buffer_size (us_rx_buf u)
     \<and> us_udrie u = (CB_contents uart_buffer_size (us_tx_buf u) \<noteq> [])"

definition waiting :: "USART \<Rightarrow> u8 list" where "waiting u = CB_contents uart_buffer_size (us_tx_buf u)"

definition sent :: "USART \<Rightarrow> u8 list" where "sent u = us_wire u @ waiting u"

definition received :: "USART \<Rightarrow> u8 list" where "received u = CB_contents uart_buffer_size (us_rx_buf u)"

lemma unat_uart_buffer_size [simp]: "unat uart_buffer_size = 32"
  by (simp add: uart_buffer_size_def)

lemma USART_new_wf: "usart_wf USART_new \<and> sent USART_new = [] \<and> received USART_new = []"
proof -
  have "CB_wf uart_buffer_size (CB_new uart_buffer_size (0::u8)) \<and> CB_contents uart_buffer_size (CB_new uart_buffer_size (0::u8)) = []"
    by (rule CB_new_wf) (simp add: valid_size_def)
  then show ?thesis by (simp add: USART_new_def usart_wf_def sent_def waiting_def received_def)
qed

lemma empty_contents: "CB_wf sz b \<Longrightarrow> CB_empty b \<longleftrightarrow> CB_contents sz b = []"
  using CI_empty_iff[of sz "cb_index b"]
  by (simp add: CB_empty_def CB_wf_def CB_contents_length CB_count_def flip: length_0_conv)

lemma tx_facts:
  assumes "usart_wf u"
  shows "CB_empty (us_tx_buf u) \<longleftrightarrow> waiting u = []" "CanWrite u \<longleftrightarrow> length (waiting u) < 32"
    "length (waiting u) \<le> 32"
proof -
  have w: "CB_wf uart_buffer_size (us_tx_buf u)" using assms by (simp add: usart_wf_def)
  have i: "CI_wf uart_buffer_size (cb_index (us_tx_buf u))" using w by (simp add: CB_wf_def)
  show "CB_empty (us_tx_buf u) \<longleftrightarrow> waiting u = []"
    using empty_contents[OF w] by (simp add: waiting_def)
  show l: "length (waiting u) \<le> 32" using circular.size_bound[OF w] by (simp add: waiting_def)
  show "CanWrite u \<longleftrightarrow> length (waiting u) < 32"
    using CI_full_iff[OF i] l by (auto simp: CanWrite_def CB_full_def waiting_def CB_contents_length CB_count_def)
qed

lemma ISR_UDRE_facts:
  assumes "usart_wf u" "waiting u \<noteq> []"
  shows "usart_wf (ISR_UDRE u) \<and> sent (ISR_UDRE u) = sent u \<and> us_wire (ISR_UDRE u) = us_wire u @ [hd (waiting u)]
    \<and> waiting (ISR_UDRE u) = tl (waiting u) \<and> received (ISR_UDRE u) = received u"
proof -
  obtain x xs where c: "CB_contents uart_buffer_size (us_tx_buf u) = x # xs"
    using assms(2) by (cases "waiting u") (auto simp: waiting_def)
  have w: "CB_wf uart_buffer_size (us_tx_buf u)" using assms by (simp add: usart_wf_def)
  obtain b where p: "CB_pop uart_buffer_size (us_tx_buf u) = (Some x, b)" and b: "CB_wf uart_buffer_size b"
    "CB_contents uart_buffer_size b = xs"
    using circular.pop_head[OF w c] by (metis prod.collapse)
  have "CB_empty b \<longleftrightarrow> xs = []" using b by (simp add: empty_contents)
  then show ?thesis
    using assms(1) b c
    by (simp add: ISR_UDRE_def p put_data_def Let_def usart_wf_def sent_def waiting_def received_def)
qed

text \<open>The bytes that can be written at once: the free cells, and the data register if everything is sent.\<close>

definition room :: "USART \<Rightarrow> nat" where
  "room u = 32 - length (waiting u) + (if waiting u = [] \<and> us_data_empty u then 1 else 0)"

lemma USART_Write_facts:
  assumes "usart_wf u" "CanWrite u"
  shows "usart_wf (USART_Write c u) \<and> sent (USART_Write c u) = sent u @ [c] \<and> room (USART_Write c u) = room u - 1
    \<and> received (USART_Write c u) = received u"
proof (cases "waiting u = [] \<and> us_data_empty u")
  case True
  then show ?thesis
    using assms(1) tx_facts(1)[OF assms(1)]
    by (simp add: USART_Write_def put_data_def usart_wf_def sent_def waiting_def room_def received_def Let_def)
next
  case False
  have w: "CB_wf uart_buffer_size (us_tx_buf u)" using assms by (simp add: usart_wf_def)
  have l: "length (CB_contents uart_buffer_size (us_tx_buf u)) < 32"
    using assms(2) tx_facts(2)[OF assms(1)] by (simp add: waiting_def)
  note p = circular.push_room[OF w, of c]
  have "\<not> CB_full uart_buffer_size (us_tx_buf u)" using assms(2) by (simp add: CanWrite_def)
  then show ?thesis
    using assms(1) False l p tx_facts(1)[OF assms(1)]
    by (auto simp: USART_Write_def usart_wf_def sent_def waiting_def room_def received_def Let_def)
qed

lemma room_CanWrite: "usart_wf u \<Longrightarrow> room u > 0 \<longleftrightarrow> CanWrite u"
  using tx_facts(2,3)[of u] by (auto simp: room_def)

lemma WriteToUSART_facts:
  assumes "usart_wf u" "WriteToUSART msg u = (ok, u')"
  shows "usart_wf u' \<and> sent u' = sent u @ take (room u) msg \<and> ok = (length msg \<le> room u) \<and> received u' = received u"
  using assms
proof (induction msg arbitrary: u)
  case (Cons c msg)
  show ?case
  proof (cases "CanWrite u")
    case True
    have e: "WriteToUSART msg (USART_Write c u) = (ok, u')" using Cons.prems(2) True by simp
    have "room u > 0" using room_CanWrite[OF Cons.prems(1)] True by simp
    then have "take (room u) (c # msg) = c # take (room u - 1) msg" by (cases "room u") simp_all
    with Cons.IH[OF _ e] USART_Write_facts[OF Cons.prems(1) True, of c] \<open>room u > 0\<close> show ?thesis by auto
  next
    case False
    then have "room u = 0" using room_CanWrite[OF Cons.prems(1)] by simp
    with False Cons.prems show ?thesis by auto
  qed
qed simp

lemma data_register_facts:
  assumes "usart_wf u"
  shows "usart_wf (data_register_empty u) \<and> sent (data_register_empty u) = sent u
    \<and> us_wire (data_register_empty u) = us_wire u @ take 1 (waiting u) \<and> received (data_register_empty u) = received u"
proof -
  define v where "v = u\<lparr>us_data_empty := True\<rparr>"
  have v: "usart_wf v" "sent v = sent u" "waiting v = waiting u" "us_wire v = us_wire u" "received v = received u"
    "us_udrie v = (waiting u \<noteq> [])"
    using assms by (simp_all add: v_def usart_wf_def sent_def waiting_def received_def)
  show ?thesis
  proof (cases "waiting u = []")
    case True
    with v show ?thesis by (simp add: data_register_empty_def v_def)
  next
    case False
    then have "take 1 (waiting u) = [hd (waiting u)]" by (cases "waiting u") simp_all
    with False v ISR_UDRE_facts[of v] show ?thesis by (simp add: data_register_empty_def Let_def flip: v_def)
  qed
qed

text \<open>Receiving appends to the buffer while it has room; reading takes the oldest byte.\<close>

lemma ISR_RX_facts:
  assumes "usart_wf u"
  shows "usart_wf (ISR_RX e c u) \<and> sent (ISR_RX e c u) = sent u \<and> room (ISR_RX e c u) = room u
    \<and> received (ISR_RX e c u) = (if e \<or> length (received u) \<ge> 32 then received u else received u @ [c])"
proof -
  have w: "CB_wf uart_buffer_size (us_rx_buf u)" using assms by (simp add: usart_wf_def)
  show ?thesis
    using assms circular.push_room[OF w, of c] circular.push_full[OF w, of c]
    by (cases "length (received u) < 32")
      (auto simp: ISR_RX_def usart_wf_def sent_def waiting_def received_def room_def)
qed

lemma ConsumeByte_facts:
  assumes "usart_wf u" "received u = c # cs"
  shows "fst (ConsumeByte u) = c \<and> usart_wf (snd (ConsumeByte u)) \<and> received (snd (ConsumeByte u)) = cs
    \<and> sent (snd (ConsumeByte u)) = sent u \<and> room (snd (ConsumeByte u)) = room u"
proof -
  have w: "CB_wf uart_buffer_size (us_rx_buf u)" using assms by (simp add: usart_wf_def)
  have c: "CB_contents uart_buffer_size (us_rx_buf u) = c # cs" using assms(2) by (simp add: received_def)
  obtain b where b: "CB_pop uart_buffer_size (us_rx_buf u) = (Some c, b)" "CB_wf uart_buffer_size b"
    "CB_contents uart_buffer_size b = cs"
    using circular.pop_head[OF w c] by (metis prod.collapse)
  then show ?thesis using assms(1)
    by (simp add: ConsumeByte_def USART_Read_def usart_wf_def received_def sent_def waiting_def room_def)
qed

lemma Available_iff: "usart_wf u \<Longrightarrow> Available u \<longleftrightarrow> received u \<noteq> []"
  using empty_contents[of uart_buffer_size "us_rx_buf u"]
  by (simp add: Available_def ReadEmpty_def received_def usart_wf_def)

section \<open>Properties\<close>

text \<open>C34: the line to the printer loses nothing on the way out as long as there is room. Writing a message
  appends to what has been sent as much of it as fits and reports success exactly if all of it
  did; emptying the buffer through the transmit interrupt moves the oldest waiting byte to the
  wire, never sends a byte that was not written, and neither touches what was received.\<close>

theorem responses_are_sent_in_order:
  assumes "usart_wf u" "WriteToUSART msg u = (ok, u')"
  shows "usart_wf u' \<and> sent u' = sent u @ take (room u) msg \<and> ok = (length msg \<le> room u)
    \<and> received u' = received u
    \<and> usart_wf (data_register_empty u') \<and> sent (data_register_empty u') = sent u'
    \<and> us_wire (data_register_empty u') = us_wire u' @ take 1 (waiting u')
    \<and> received (data_register_empty u') = received u'"
  using WriteToUSART_facts[OF assms] data_register_facts[of u'] by simp

theorem responses_are_sent_in_order_witness:
  "sent (snd (WriteToUSART [0x50, 0x0a] USART_new)) = [0x50, 0x0a]"
proof -
  obtain ok u' where w: "WriteToUSART [0x50, 0x0a] USART_new = (ok, u')" by fastforce
  have "room USART_new = 33" using USART_new_wf by (simp add: room_def sent_def) (simp add: USART_new_def)
  with responses_are_sent_in_order[OF _ w] USART_new_wf show ?thesis by (simp only: w) simp
qed

end
