(* ===== verification/Decoder.thy ===== *)
theory Decoder
  imports Protocol
begin

text \<open>
  The decoding automata \<open>Protocol::DecodeRequest\<close> and \<open>Protocol::DecodeResponse\<close>
  (\<open>modules/protocol.cpp\<close>). Each call takes one byte and returns the decode status with the
  new decoder. What the two automata share, resynchronisation at a line end after an error,
  is the locale \<open>line_automaton\<close>, interpreted on both.
\<close>

datatype DecodeStatus = MessageCompleted | NeedMoreData | DecodeError

datatype RequestStates = Rqs_Code | Rqs_Value | Rqs_Address | Rqs_WriteValue | Rqs_CRC | Rqs_Error

datatype ResponseStates =
  Rss_RequestCode | Rss_RequestValue | Rss_ParamCode | Rss_ParamValue | Rss_CRC | Rss_Error

record Protocol =
  rqState :: RequestStates
  requestMsg :: RequestMsg
  rspState :: ResponseStates
  responseMsg :: ResponseMsg

definition Protocol_new :: Protocol where
  "Protocol_new =
     \<lparr>rqState = Rqs_Code, requestMsg = RequestMsg_new Rq_unknown 0,
      rspState = Rss_RequestCode,
      responseMsg = ResponseMsg_new (RequestMsg_new Rq_unknown 0) Rp_unknown 0\<rparr>"

definition ResetRequestDecoder :: "Protocol \<Rightarrow> Protocol" where
  "ResetRequestDecoder p = p\<lparr>rqState := Rqs_Code\<rparr>"

definition ResetResponseDecoder :: "Protocol \<Rightarrow> Protocol" where
  "ResetResponseDecoder p = p\<lparr>rspState := Rss_RequestCode\<rparr>"

text \<open>The branch every state of the request automaton takes on an unexpected byte.\<close>

definition rq_fail :: "Protocol \<Rightarrow> DecodeStatus \<times> Protocol" where
  "rq_fail p = (DecodeError, p\<lparr>requestMsg := (requestMsg p)\<lparr>rq_code := Rq_unknown\<rparr>,
                              rqState := Rqs_Error\<rparr>)"

text \<open>
  The \<open>default\<close> label; the \<open>CRC\<close> state falls through to it on a byte that is neither a
  hexadecimal digit nor a newline.
\<close>

definition rq_default :: "Protocol \<Rightarrow> u8 \<Rightarrow> DecodeStatus \<times> Protocol" where
  "rq_default p c =
     (if IsNewLine c then (MessageCompleted, p\<lparr>rqState := Rqs_Code\<rparr>) else rq_fail p)"

fun DecodeRequest :: "Protocol \<Rightarrow> u8 \<Rightarrow> DecodeStatus \<times> Protocol" where
  "DecodeRequest p c = (let m = requestMsg p in
     case rqState p of
       Rqs_Code \<Rightarrow>
         (case request_of_byte c of
            Some code \<Rightarrow>
              (NeedMoreData,
               p\<lparr>requestMsg := \<lparr>rq_code = code, rq_value = 0, rq_value2 = 0, rq_crc8 = 0\<rparr>,
                 rqState := if c = 0x57 then Rqs_Address else Rqs_Value\<rparr>)
          | None \<Rightarrow> rq_fail p)
     | Rqs_Value \<Rightarrow>
         if IsHexDigit c then
           (NeedMoreData,
            p\<lparr>requestMsg := m\<lparr>rq_value := push_bit 4 (rq_value m) OR Char2Nibble c\<rparr>\<rparr>)
         else if IsCRCSeparator c then (NeedMoreData, p\<lparr>rqState := Rqs_CRC\<rparr>)
         else rq_fail p
     | Rqs_Address \<Rightarrow>
         if IsHexDigit c then
           (NeedMoreData,
            p\<lparr>requestMsg := m\<lparr>rq_value := push_bit 4 (rq_value m) OR Char2Nibble c\<rparr>\<rparr>)
         else if c = 0x20 then (NeedMoreData, p\<lparr>rqState := Rqs_WriteValue\<rparr>)
         else rq_fail p
     | Rqs_WriteValue \<Rightarrow>
         if IsHexDigit c then
           (NeedMoreData,
            p\<lparr>requestMsg :=
               m\<lparr>rq_value2 := push_bit 4 (rq_value2 m) OR u16_of_u8 (Char2Nibble c)\<rparr>\<rparr>)
         else if IsCRCSeparator c then (NeedMoreData, p\<lparr>rqState := Rqs_CRC\<rparr>)
         else rq_fail p
     | Rqs_CRC \<Rightarrow>
         if IsHexDigit c then
           (NeedMoreData,
            p\<lparr>requestMsg := m\<lparr>rq_crc8 := push_bit 4 (rq_crc8 m) OR Char2Nibble c\<rparr>\<rparr>)
         else if IsNewLine c then
           (if rq_crc8 m \<noteq> RequestMsg_ComputeCRC8 m then rq_fail p
            else (MessageCompleted, p\<lparr>rqState := Rqs_Code\<rparr>))
         else rq_default p c
     | Rqs_Error \<Rightarrow> rq_default p c)"

definition rsp_fail :: "Protocol \<Rightarrow> DecodeStatus \<times> Protocol" where
  "rsp_fail p = (DecodeError, p\<lparr>responseMsg := (responseMsg p)\<lparr>rsp_paramCode := Rp_unknown\<rparr>,
                               rspState := Rss_Error\<rparr>)"

fun DecodeResponse :: "Protocol \<Rightarrow> u8 \<Rightarrow> DecodeStatus \<times> Protocol" where
  "DecodeResponse p c = (let r = responseMsg p; m = rsp_request r in
     case rspState p of
       Rss_RequestCode \<Rightarrow>
         (case request_of_byte c of
            Some code \<Rightarrow>
              (NeedMoreData,
               p\<lparr>responseMsg := r\<lparr>rsp_request :=
                    \<lparr>rq_code = code, rq_value = 0, rq_value2 = 0, rq_crc8 = 0\<rparr>\<rparr>,
                 rspState := Rss_RequestValue\<rparr>)
          | None \<Rightarrow>
              if IsNewLine c then (NeedMoreData, p)
              else (DecodeError, p\<lparr>rspState := Rss_Error\<rparr>))
     | Rss_RequestValue \<Rightarrow>
         if IsHexDigit c then
           (NeedMoreData,
            p\<lparr>responseMsg := r\<lparr>rsp_request :=
                 m\<lparr>rq_value := push_bit 4 (rq_value m) + Char2Nibble c\<rparr>\<rparr>\<rparr>)
         else if c = 0x20 then (NeedMoreData, p\<lparr>rspState := Rss_ParamCode\<rparr>)
         else (DecodeError, p\<lparr>rspState := Rss_Error\<rparr>)
     | Rss_ParamCode \<Rightarrow>
         (case param_of_byte c of
            Some pc \<Rightarrow>
              (NeedMoreData,
               p\<lparr>rspState := Rss_ParamValue,
                 responseMsg := r\<lparr>rsp_paramCode := pc, rsp_paramValue := 0\<rparr>\<rparr>)
          | None \<Rightarrow> rsp_fail p)
     | Rss_ParamValue \<Rightarrow>
         if IsHexDigit c then
           (NeedMoreData,
            p\<lparr>responseMsg := r\<lparr>rsp_paramValue :=
                 push_bit 4 (rsp_paramValue r) + u16_of_u8 (Char2Nibble c)\<rparr>\<rparr>)
         else if IsCRCSeparator c then (NeedMoreData, p\<lparr>rspState := Rss_CRC\<rparr>)
         else rsp_fail p
     | Rss_CRC \<Rightarrow>
         if IsHexDigit c then
           (NeedMoreData,
            p\<lparr>responseMsg := r\<lparr>rsp_request :=
                 m\<lparr>rq_crc8 := push_bit 4 (rq_crc8 m) + Char2Nibble c\<rparr>\<rparr>\<rparr>)
         else if IsNewLine c then
           (if rq_crc8 m \<noteq> ResponseMsg_ComputeCRC8 r then rsp_fail p
            else (MessageCompleted, p\<lparr>rspState := Rss_RequestCode\<rparr>))
         else rsp_fail p
     | Rss_Error \<Rightarrow>
         if IsNewLine c then (MessageCompleted, p\<lparr>rspState := Rss_RequestCode\<rparr>)
         else (DecodeError, p\<lparr>responseMsg := r\<lparr>rsp_paramCode := Rp_unknown\<rparr>\<rparr>))"

declare DecodeRequest.simps [simp del] DecodeResponse.simps [simp del]

text \<open>Feeding a sequence of bytes: the statuses in order and the final decoder.\<close>

fun run_decoder ::
  "('p \<Rightarrow> u8 \<Rightarrow> DecodeStatus \<times> 'p) \<Rightarrow> 'p \<Rightarrow> u8 list \<Rightarrow> DecodeStatus list \<times> 'p" where
  "run_decoder step p [] = ([], p)"
| "run_decoder step p (c # cs) =
     (let (s, p') = step p c; (ss, q) = run_decoder step p' cs in (s # ss, q))"

abbreviation decode_requests :: "Protocol \<Rightarrow> u8 list \<Rightarrow> DecodeStatus list \<times> Protocol" where
  "decode_requests \<equiv> run_decoder DecodeRequest"

abbreviation decode_responses :: "Protocol \<Rightarrow> u8 list \<Rightarrow> DecodeStatus list \<times> Protocol" where
  "decode_responses \<equiv> run_decoder DecodeResponse"

lemma run_decoder_append:
  "run_decoder step p (xs @ ys) =
     (let (s, p') = run_decoder step p xs; (t, q) = run_decoder step p' ys in (s @ t, q))"
  by (induction xs arbitrary: p) (auto simp: Let_def split: prod.splits)

lemma run_decoder_Cons:
  "run_decoder step p (c # cs) =
     (fst (step p c) # fst (run_decoder step (snd (step p c)) cs),
      snd (run_decoder step (snd (step p c)) cs))"
  by (simp add: Let_def case_prod_beta)

lemma length_run_decoder [simp]: "length (fst (run_decoder step p xs)) = length xs"
  by (induction xs arbitrary: p) (simp_all add: run_decoder_Cons del: run_decoder.simps(2))

section \<open>Hexadecimal fields\<close>

text \<open>
  Every numeric field of both messages is filled the same way while its automaton is in the
  field's state: digit by digit, from the left. A field is given by the states in which it is
  active and by reading and writing it in the decoder.
\<close>

locale hex_field =
  fixes step :: "'p \<Rightarrow> u8 \<Rightarrow> DecodeStatus \<times> 'p"
    and active :: "'p \<Rightarrow> bool"
    and get :: "'p \<Rightarrow> 'w::len word"
    and put :: "'w word \<Rightarrow> 'p \<Rightarrow> 'p"
  assumes digit: "active p \<Longrightarrow> IsHexDigit c \<Longrightarrow> step p c = (NeedMoreData, put (hex_acc (get p) c) p)"
    and active_put: "active p \<Longrightarrow> active (put v p)"
    and get_put: "get (put v p) = v"
    and put_put: "put v (put w p) = put v p"
    and put_get: "put (get p) p = p"
begin

lemma run_digits:
  "active p \<Longrightarrow> list_all IsHexDigit cs \<Longrightarrow>
     run_decoder step p cs = (replicate (length cs) NeedMoreData, put (foldl hex_acc (get p) cs) p)"
proof (induction cs arbitrary: p)
  case (Cons c cs)
  then show ?case by (simp add: digit active_put get_put put_put)
qed (simp add: put_get)

lemma run_number:
  assumes "active p" "get p = 0" "list_all IsHexDigit cs"
  shows "run_decoder step p cs = (replicate (length cs) NeedMoreData, put (hex_value cs) p)"
  using run_digits[OF assms(1,3)] assms(2) by (simp add: hex_value_def)

end

lemma hex_acc_u8: "hex_acc v c = push_bit 4 v OR Char2Nibble c" for v :: u8
  by (simp add: hex_acc_def)

lemma Char2Nibble_less_16: "unat (Char2Nibble c) < 16"
proof -
  have "0x30 \<le> c \<and> c \<le> 0x39 \<Longrightarrow> unat (c - 0x30) < 16"
    and "0x61 \<le> c \<and> c \<le> 0x66 \<Longrightarrow> unat (c - 0x61 + 10) < 16"
    by unat_arith+
  then show ?thesis by (auto simp: Char2Nibble_def)
qed

text \<open>The response automaton adds the digit where the request automaton ors it in.\<close>

lemma hex_acc_plus: "push_bit 4 v + ucast (Char2Nibble c) = hex_acc v c"
proof -
  have "\<not> bit (Char2Nibble c) n" if "4 \<le> n" for n
  proof -
    have "unat (Char2Nibble c) < 2 ^ n"
      using Char2Nibble_less_16[of c] power_increasing[OF that, of "2::nat"] by simp
    then show ?thesis by (rule not_bit_above)
  qed
  then show ?thesis
    unfolding hex_acc_def by (intro disjunctive_add_eq_or bit_eqI) (auto simp: bit_simps)
qed

interpretation rq_value_field: hex_field DecodeRequest "\<lambda>p. rqState p \<in> {Rqs_Value, Rqs_Address}"
  "\<lambda>p. rq_value (requestMsg p)" "\<lambda>v p. p\<lparr>requestMsg := (requestMsg p)\<lparr>rq_value := v\<rparr>\<rparr>"
  by unfold_locales (auto simp: DecodeRequest.simps Let_def hex_acc_def)

interpretation rq_value2_field: hex_field DecodeRequest "\<lambda>p. rqState p = Rqs_WriteValue"
  "\<lambda>p. rq_value2 (requestMsg p)" "\<lambda>v p. p\<lparr>requestMsg := (requestMsg p)\<lparr>rq_value2 := v\<rparr>\<rparr>"
  by unfold_locales (auto simp: DecodeRequest.simps Let_def hex_acc_def)

interpretation rq_crc_field: hex_field DecodeRequest "\<lambda>p. rqState p = Rqs_CRC"
  "\<lambda>p. rq_crc8 (requestMsg p)" "\<lambda>v p. p\<lparr>requestMsg := (requestMsg p)\<lparr>rq_crc8 := v\<rparr>\<rparr>"
  by unfold_locales (auto simp: DecodeRequest.simps Let_def hex_acc_def)

interpretation rsp_value_field: hex_field DecodeResponse "\<lambda>p. rspState p = Rss_RequestValue"
  "\<lambda>p. rq_value (rsp_request (responseMsg p))"
  "\<lambda>v p. p\<lparr>responseMsg := (responseMsg p)\<lparr>rsp_request := (rsp_request (responseMsg p))\<lparr>rq_value := v\<rparr>\<rparr>\<rparr>"
  by unfold_locales (auto simp: DecodeResponse.simps Let_def hex_acc_plus [symmetric])

interpretation rsp_param_field: hex_field DecodeResponse "\<lambda>p. rspState p = Rss_ParamValue"
  "\<lambda>p. rsp_paramValue (responseMsg p)"
  "\<lambda>v p. p\<lparr>responseMsg := (responseMsg p)\<lparr>rsp_paramValue := v\<rparr>\<rparr>"
  by unfold_locales (auto simp: DecodeResponse.simps Let_def hex_acc_plus [symmetric])

interpretation rsp_crc_field: hex_field DecodeResponse "\<lambda>p. rspState p = Rss_CRC"
  "\<lambda>p. rq_crc8 (rsp_request (responseMsg p))"
  "\<lambda>v p. p\<lparr>responseMsg := (responseMsg p)\<lparr>rsp_request := (rsp_request (responseMsg p))\<lparr>rq_crc8 := v\<rparr>\<rparr>\<rparr>"
  by unfold_locales (auto simp: DecodeResponse.simps Let_def hex_acc_plus [symmetric])

section \<open>Request lines\<close>

lemma run_decoder_appendI:
  "run_decoder step p xs = (s, q) \<Longrightarrow> run_decoder step q ys = (t, r) \<Longrightarrow>
     run_decoder step p (xs @ ys) = (s @ t, r)"
  by (simp add: run_decoder_append)

lemma run_decoder_ConsI:
  "step p c = (s, q) \<Longrightarrow> run_decoder step q cs = (t, r) \<Longrightarrow> run_decoder step p (c # cs) = (s # t, r)"
  by simp

lemma decode_request_code:
  "rqState p = Rqs_Code \<Longrightarrow> c \<noteq> Rq_unknown \<Longrightarrow>
     DecodeRequest p (request_byte c) =
       (NeedMoreData,
        p\<lparr>requestMsg := \<lparr>rq_code = c, rq_value = 0, rq_value2 = 0, rq_crc8 = 0\<rparr>,
          rqState := if c = Rq_Write then Rqs_Address else Rqs_Value\<rparr>)"
  by (simp add: DecodeRequest.simps)

lemma decode_request_value:
  "rqState p \<in> {Rqs_Value, Rqs_Address} \<Longrightarrow> rq_value (requestMsg p) = 0 \<Longrightarrow>
     decode_requests p (UInt8ToHex v) =
       (replicate (length (UInt8ToHex v)) NeedMoreData,
        p\<lparr>requestMsg := (requestMsg p)\<lparr>rq_value := v\<rparr>\<rparr>)"
  by (simp only: rq_value_field.run_number UInt8ToHex_digits hex_value_UInt8ToHex)

lemma decode_request_value2:
  "rqState p = Rqs_WriteValue \<Longrightarrow> rq_value2 (requestMsg p) = 0 \<Longrightarrow>
     decode_requests p (UInt16ToHex v) =
       (replicate (length (UInt16ToHex v)) NeedMoreData,
        p\<lparr>requestMsg := (requestMsg p)\<lparr>rq_value2 := v\<rparr>\<rparr>)"
  by (simp only: rq_value2_field.run_number UInt16ToHex_digits hex_value_UInt16ToHex)

text \<open>
  The end of every request line: the separator, the check byte and the newline. The line is
  accepted exactly if the check byte is the one of the message read so far.
\<close>

lemma decode_request_crc:
  assumes "rqState p \<in> {Rqs_Value, Rqs_WriteValue}" "rq_crc8 (requestMsg p) = 0" "IsNewLine nl"
    and m_def: "m = (requestMsg p)\<lparr>rq_crc8 := crc\<rparr>"
  shows "decode_requests p (AppendCRC crc @ [nl]) =
    (if crc = RequestMsg_ComputeCRC8 m
     then (replicate (length (AppendCRC crc)) NeedMoreData @ [MessageCompleted],
           p\<lparr>requestMsg := m, rqState := Rqs_Code\<rparr>)
     else (replicate (length (AppendCRC crc)) NeedMoreData @ [DecodeError],
           p\<lparr>requestMsg := m\<lparr>rq_code := Rq_unknown\<rparr>, rqState := Rqs_Error\<rparr>))"
proof -
  have sep: "DecodeRequest p 0x2A = (NeedMoreData, p\<lparr>rqState := Rqs_CRC\<rparr>)"
    using assms(1) by (auto simp: DecodeRequest.simps Let_def IsHexDigit_def IsCRCSeparator_def)
  have hex: "decode_requests (p\<lparr>rqState := Rqs_CRC\<rparr>) (UInt8ToHex crc) =
      (replicate (length (UInt8ToHex crc)) NeedMoreData, p\<lparr>rqState := Rqs_CRC, requestMsg := m\<rparr>)"
    using rq_crc_field.run_number[OF _ _ UInt8ToHex_digits, of "p\<lparr>rqState := Rqs_CRC\<rparr>" crc] assms(2)
    by (simp add: hex_value_UInt8ToHex m_def)
  have "\<not> IsHexDigit nl" using assms(3) hex_not_newline by blast
  then have nl: "DecodeRequest (p\<lparr>rqState := Rqs_CRC, requestMsg := m\<rparr>) nl =
     (if crc = RequestMsg_ComputeCRC8 m then (MessageCompleted, p\<lparr>requestMsg := m, rqState := Rqs_Code\<rparr>)
      else (DecodeError, p\<lparr>requestMsg := m\<lparr>rq_code := Rq_unknown\<rparr>, rqState := Rqs_Error\<rparr>))"
    using assms(3) by (simp add: DecodeRequest.simps Let_def rq_fail_def m_def)
  show ?thesis
    by (simp add: AppendCRC_def sep hex nl run_decoder_append)
qed

text \<open>What the decoder makes of the line of any request that is not a write.\<close>

lemma decode_EncodeRequest:
  assumes "rqState p = Rqs_Code" "rq_code m \<notin> {Rq_unknown, Rq_Write}"
    and m0: "m0 = m\<lparr>rq_value2 := 0\<rparr>"
  shows "decode_requests p (EncodeRequest m) =
    (if rq_crc8 m = RequestMsg_ComputeCRC8 m0
     then (replicate (length (EncodeRequest m) - 1) NeedMoreData @ [MessageCompleted],
           p\<lparr>requestMsg := m0, rqState := Rqs_Code\<rparr>)
     else (replicate (length (EncodeRequest m) - 1) NeedMoreData @ [DecodeError],
           p\<lparr>requestMsg := m0\<lparr>rq_code := Rq_unknown\<rparr>, rqState := Rqs_Error\<rparr>))"
proof -
  define p1 where "p1 = p\<lparr>requestMsg := \<lparr>rq_code = rq_code m, rq_value = rq_value m,
                            rq_value2 = 0, rq_crc8 = 0\<rparr>, rqState := Rqs_Value\<rparr>"
  have v: "decode_requests p (request_byte (rq_code m) # UInt8ToHex (rq_value m)) =
      (replicate (Suc (length (UInt8ToHex (rq_value m)))) NeedMoreData, p1)"
    using assms(1,2) by (simp add: decode_request_code decode_request_value p1_def)
  have m: "(requestMsg p1)\<lparr>rq_crc8 := rq_crc8 m\<rparr> = m0" by (simp add: p1_def m0)
  have c: "RequestMsg_ComputeCRC8 m0 = RequestMsg_ComputeCRC8 (m0\<lparr>rq_crc8 := x\<rparr>)" for x
    by (simp add: RequestMsg_ComputeCRC8_def)
  have nl: "IsNewLine 0x0A" by (simp add: IsNewLine_def)
  show ?thesis
    using run_decoder_append[of DecodeRequest p "request_byte (rq_code m) # UInt8ToHex (rq_value m)"
        "AppendCRC (rq_crc8 m) @ [0x0A]"]
      decode_request_crc[of p1 "0x0A" m0 "rq_crc8 m"] v m nl
    by (simp add: EncodeRequest_def p1_def replicate_add [symmetric] del: run_decoder.simps)
qed

lemma decode_EncodeWriteRequest:
  assumes "rqState p = Rqs_Code"
  shows "decode_requests p (EncodeWriteRequest a v) =
    (replicate (length (EncodeWriteRequest a v) - 1) NeedMoreData @ [MessageCompleted],
     p\<lparr>requestMsg := RequestMsg_new_write Rq_Write a v, rqState := Rqs_Code\<rparr>)"
proof -
  define m where "m = RequestMsg_new_write Rq_Write a v"
  define p1 where "p1 = p\<lparr>requestMsg := \<lparr>rq_code = Rq_Write, rq_value = a,
                            rq_value2 = 0, rq_crc8 = 0\<rparr>, rqState := Rqs_WriteValue\<rparr>"
  define p2 where "p2 = p1\<lparr>requestMsg := (requestMsg p1)\<lparr>rq_value2 := v\<rparr>\<rparr>"
  have m: "rq_code m = Rq_Write" "rq_value m = a" "(requestMsg p2)\<lparr>rq_crc8 := rq_crc8 m\<rparr> = m"
    "rq_crc8 m = RequestMsg_ComputeCRC8 m"
    by (simp_all add: m_def p2_def p1_def RequestMsg_new_write_def RequestMsg_ComputeCRC8_def)
  have code: "request_byte (rq_code m) = request_byte Rq_Write" by (simp add: m)
  have b: "decode_requests p (BeginEncodeRequest m) =
      (replicate (length (BeginEncodeRequest m)) NeedMoreData, p1)"
    using assms
    unfolding BeginEncodeRequest_def code append_Cons [symmetric] run_decoder_append
    by (simp add: decode_request_code decode_request_value m p1_def run_decoder_append
        DecodeRequest.simps IsHexDigit_def replicate_append_same del: request_byte.simps)
  have v: "decode_requests p1 (UInt16ToHex v) = (replicate (length (UInt16ToHex v)) NeedMoreData, p2)"
    by (simp add: decode_request_value2 p1_def p2_def)
  have nl: "IsNewLine 0x0A" by (simp add: IsNewLine_def)
  have c: "decode_requests p2 (AppendCRC (rq_crc8 m) @ [0x0A]) =
     (replicate (length (AppendCRC (rq_crc8 m))) NeedMoreData @ [MessageCompleted],
      p2\<lparr>requestMsg := m, rqState := Rqs_Code\<rparr>)"
    using decode_request_crc[of p2 "0x0A" m "rq_crc8 m"] m(3,4) nl by (simp add: p2_def p1_def)
  have "decode_requests p (EncodeWriteRequest a v) =
     (replicate (length (BeginEncodeRequest m)) NeedMoreData @
       replicate (length (UInt16ToHex v)) NeedMoreData @
       replicate (length (AppendCRC (rq_crc8 m))) NeedMoreData @ [MessageCompleted],
      p2\<lparr>requestMsg := m, rqState := Rqs_Code\<rparr>)"
    unfolding EncodeWriteRequest_def Let_def m_def [symmetric]
    by (intro run_decoder_appendI[OF b] run_decoder_appendI[OF v] c)
  then show ?thesis
    by (simp add: EncodeWriteRequest_def Let_def m_def [symmetric] replicate_add p2_def p1_def)
qed

section \<open>Response lines\<close>

text \<open>The five parts of a response line, as read by the response automaton from its start state.\<close>

definition response_line ::
  "RequestMsgCodes \<Rightarrow> u8 \<Rightarrow> ResponseMsgParamCodes \<Rightarrow> u8 list \<Rightarrow> u8 \<Rightarrow> u8 list" where
  "response_line c v pc ds crc =
     request_byte c # UInt8ToHex v @ [0x20, param_byte pc] @ ds @ AppendCRC crc @ [0x0A]"

lemma decode_response_crc:
  assumes "rspState p = Rss_ParamValue" "rq_crc8 (rsp_request (responseMsg p)) = 0"
    and r_def: "r = (responseMsg p)\<lparr>rsp_request := (rsp_request (responseMsg p))\<lparr>rq_crc8 := crc\<rparr>\<rparr>"
    and crc: "crc = ResponseMsg_ComputeCRC8 r"
  shows "decode_responses p (AppendCRC crc @ [0x0A]) =
     (replicate (length (AppendCRC crc)) NeedMoreData @ [MessageCompleted],
      p\<lparr>responseMsg := r, rspState := Rss_RequestCode\<rparr>)"
proof -
  have sep: "DecodeResponse p 0x2A = (NeedMoreData, p\<lparr>rspState := Rss_CRC\<rparr>)"
    using assms(1) by (simp add: DecodeResponse.simps Let_def IsHexDigit_def IsCRCSeparator_def)
  have hex: "decode_responses (p\<lparr>rspState := Rss_CRC\<rparr>) (UInt8ToHex crc) =
      (replicate (length (UInt8ToHex crc)) NeedMoreData, p\<lparr>rspState := Rss_CRC, responseMsg := r\<rparr>)"
    using rsp_crc_field.run_number[OF _ _ UInt8ToHex_digits, of "p\<lparr>rspState := Rss_CRC\<rparr>" crc] assms(2)
    by (simp add: hex_value_UInt8ToHex r_def)
  have nl: "DecodeResponse (p\<lparr>rspState := Rss_CRC, responseMsg := r\<rparr>) 0x0A =
      (MessageCompleted, p\<lparr>responseMsg := r, rspState := Rss_RequestCode\<rparr>)"
    using crc by (simp add: DecodeResponse.simps Let_def IsHexDigit_def IsNewLine_def r_def)
  show ?thesis
    by (simp add: AppendCRC_def sep hex nl run_decoder_append)
qed

lemma decode_response_line:
  assumes "rspState p = Rss_RequestCode" "c \<noteq> Rq_unknown" "pc \<noteq> Rp_unknown"
    and ds: "list_all IsHexDigit ds"
    and r: "r = \<lparr>rsp_request = \<lparr>rq_code = c, rq_value = v, rq_value2 = 0, rq_crc8 = crc\<rparr>,
                 rsp_paramCode = pc, rsp_paramValue = hex_value ds\<rparr>"
    and crc: "crc = ResponseMsg_ComputeCRC8 r"
  shows "decode_responses p (response_line c v pc ds crc) =
     (replicate (length (response_line c v pc ds crc) - 1) NeedMoreData @ [MessageCompleted],
      p\<lparr>responseMsg := r, rspState := Rss_RequestCode\<rparr>)"
proof -
  define p1 where "p1 = p\<lparr>responseMsg := (responseMsg p)\<lparr>rsp_request :=
     \<lparr>rq_code = c, rq_value = v, rq_value2 = 0, rq_crc8 = 0\<rparr>\<rparr>, rspState := Rss_RequestValue\<rparr>"
  define p2 where "p2 = p1\<lparr>responseMsg := (responseMsg p1)\<lparr>rsp_paramCode := pc,
     rsp_paramValue := 0\<rparr>, rspState := Rss_ParamValue\<rparr>"
  define p3 where "p3 = p2\<lparr>responseMsg := (responseMsg p2)\<lparr>rsp_paramValue := hex_value ds\<rparr>\<rparr>"
  have a: "decode_responses p (request_byte c # UInt8ToHex v) =
      (replicate (Suc (length (UInt8ToHex v))) NeedMoreData, p1)"
    using assms(1,2)
    by (simp add: DecodeResponse.simps[of p] Let_def UInt8ToHex_digits hex_value_UInt8ToHex
        rsp_value_field.run_number p1_def)
  have "\<not> IsHexDigit 0x20" by (simp add: IsHexDigit_def)
  then have b: "decode_responses p1 [0x20, param_byte pc] = ([NeedMoreData, NeedMoreData], p2)"
    using assms(3) by (simp add: DecodeResponse.simps Let_def p1_def p2_def)
  have d: "decode_responses p2 ds = (replicate (length ds) NeedMoreData, p3)"
    using ds by (simp add: rsp_param_field.run_number p2_def p3_def)
  have e: "decode_responses p3 (AppendCRC crc @ [0x0A]) =
     (replicate (length (AppendCRC crc)) NeedMoreData @ [MessageCompleted],
      p3\<lparr>responseMsg := r, rspState := Rss_RequestCode\<rparr>)"
    using crc by (intro decode_response_crc) (simp_all add: p3_def p2_def p1_def r)
  have "decode_responses p ((request_byte c # UInt8ToHex v) @ [0x20, param_byte pc] @ ds
            @ AppendCRC crc @ [0x0A]) =
     (replicate (Suc (length (UInt8ToHex v))) NeedMoreData @ [NeedMoreData, NeedMoreData]
       @ replicate (length ds) NeedMoreData
       @ replicate (length (AppendCRC crc)) NeedMoreData @ [MessageCompleted],
      p3\<lparr>responseMsg := r, rspState := Rss_RequestCode\<rparr>)"
    by (intro run_decoder_appendI[OF a] run_decoder_appendI[OF b] run_decoder_appendI[OF d] e)
  moreover have "p3\<lparr>responseMsg := r, rspState := Rss_RequestCode\<rparr>
      = p\<lparr>responseMsg := r, rspState := Rss_RequestCode\<rparr>"
    by (simp add: p3_def p2_def p1_def)
  ultimately show ?thesis
    by (simp add: response_line_def replicate_add replicate_app_Cons_same del: run_decoder.simps)
qed

lemma EncodeResponseQueryOperation_line:
  "EncodeResponseQueryOperation m rcs =
     response_line (rq_code m) (rq_value m) (rcs_code rcs) (UInt16ToHex (rcs_value rcs))
       (ResponseMsg_CRC (ResponseMsg_new m (rcs_code rcs) (rcs_value rcs)))"
  by (simp add: EncodeResponseQueryOperation_def response_line_def BeginEncodeRequest_def
      ResponseMsg_new_def Let_def)

lemma EncodeResponseRead_line:
  "EncodeResponseRead m accepted v =
     response_line (rq_code m) (rq_value m) (if accepted then Rp_Accepted else Rp_Rejected)
       (if accepted then UInt16ToHex v else [])
       (ResponseMsg_CRC (ResponseMsg_new m (if accepted then Rp_Accepted else Rp_Rejected)
          (if accepted then v else 0)))"
  by (simp add: EncodeResponseRead_def response_line_def BeginEncodeRequest_def
      ResponseMsg_new_def Let_def)

lemma EncodeResponseCmdAR_line:
  "EncodeResponseCmdAR m ar =
     response_line (rq_code m) (rq_value m) ar []
       (ResponseMsg_CRC (ResponseMsg_new (RequestMsg_new (rq_code m) (rq_value m)) ar 0))"
  by (simp add: EncodeResponseCmdAR_def response_line_def BeginEncodeRequest_def
      ResponseMsg_new_def RequestMsg_new_def Let_def)

lemma ResponseMsg_new_CRC:
  "ResponseMsg_ComputeCRC8 (ResponseMsg_new m pc v) = ResponseMsg_CRC (ResponseMsg_new m pc v)"
  by (simp add: ResponseMsg_new_def ResponseMsg_CRC_def ResponseMsg_ComputeCRC8_def
      RequestMsg_ComputeCRC8_def Let_def)

lemma decode_response_new:
  assumes "rspState p = Rss_RequestCode" "rq_code m \<noteq> Rq_unknown" "pc \<noteq> Rp_unknown"
    and "rq_value2 m = 0" "list_all IsHexDigit ds" "hex_value ds = v"
  defines "r \<equiv> ResponseMsg_new m pc v"
  shows "decode_responses p (response_line (rq_code m) (rq_value m) pc ds (ResponseMsg_CRC r)) =
     (replicate (length (response_line (rq_code m) (rq_value m) pc ds (ResponseMsg_CRC r)) - 1)
        NeedMoreData @ [MessageCompleted],
      p\<lparr>responseMsg := r, rspState := Rss_RequestCode\<rparr>)"
proof (rule decode_response_line[OF assms(1-3,5)])
  show "r = \<lparr>rsp_request = \<lparr>rq_code = rq_code m, rq_value = rq_value m, rq_value2 = 0,
      rq_crc8 = ResponseMsg_CRC r\<rparr>, rsp_paramCode = pc, rsp_paramValue = hex_value ds\<rparr>"
    using assms(4,6) by (simp add: r_def ResponseMsg_new_def ResponseMsg_CRC_def Let_def)
  show "ResponseMsg_CRC r = ResponseMsg_ComputeCRC8 r"
    by (simp add: r_def ResponseMsg_new_CRC)
qed

section \<open>What an accepted request satisfies\<close>

text \<open>
  The contents of the message buffer in each state of the request automaton: an error always
  carries the unknown code, and the second value stays 0 outside write requests.
\<close>

definition request_wf :: "Protocol \<Rightarrow> bool" where
  "request_wf p = (let m = requestMsg p in
     case rqState p of
       Rqs_Code \<Rightarrow> True
     | Rqs_Value \<Rightarrow> rq_code m \<notin> {Rq_unknown, Rq_Write} \<and> rq_value2 m = 0
     | Rqs_Address \<Rightarrow> rq_code m = Rq_Write \<and> rq_value2 m = 0
     | Rqs_WriteValue \<Rightarrow> rq_code m = Rq_Write
     | Rqs_CRC \<Rightarrow> rq_code m \<noteq> Rq_unknown \<and> (rq_code m \<noteq> Rq_Write \<longrightarrow> rq_value2 m = 0)
     | Rqs_Error \<Rightarrow> rq_code m = Rq_unknown)"

definition request_accepted :: "RequestMsg \<Rightarrow> bool" where
  "request_accepted m \<longleftrightarrow> rq_code m \<noteq> Rq_unknown \<and> rq_crc8 m = RequestMsg_ComputeCRC8 m
     \<and> (rq_code m \<noteq> Rq_Write \<longrightarrow> rq_value2 m = 0)"

lemma request_wf_new [simp]: "request_wf Protocol_new"
  by (simp add: request_wf_def Protocol_new_def Let_def)

lemma request_wf_step: "request_wf p \<Longrightarrow> request_wf (snd (DecodeRequest p c))"
  by (cases "rqState p")
    (auto simp: request_wf_def DecodeRequest.simps Let_def rq_fail_def rq_default_def
      dest: request_of_byteD split: option.splits)

lemma request_wf_completed:
  assumes "request_wf p" "fst (DecodeRequest p c) = MessageCompleted"
  shows "IsNewLine c" "rqState (snd (DecodeRequest p c)) = Rqs_Code"
    "requestMsg (snd (DecodeRequest p c)) = requestMsg p"
    "rq_code (requestMsg p) = Rq_unknown \<or> request_accepted (requestMsg p)"
  using assms
  by (cases "rqState p";
      auto simp: request_wf_def request_accepted_def DecodeRequest.simps Let_def rq_fail_def
        rq_default_def dest: hex_not_newline split: option.splits if_splits)+

lemma run_decoder_invariant:
  "I p \<Longrightarrow> (\<And>p c. I p \<Longrightarrow> I (snd (step p c))) \<Longrightarrow> I (snd (run_decoder step p cs))"
  by (induction cs arbitrary: p) (simp_all add: run_decoder_Cons del: run_decoder.simps(2))

lemma run_decoder_snoc:
  "run_decoder step p (xs @ [c]) =
     (fst (run_decoder step p xs) @ [fst (step (snd (run_decoder step p xs)) c)],
      snd (step (snd (run_decoder step p xs)) c))"
  by (simp add: run_decoder_append case_prod_beta Let_def)

section \<open>Resynchronisation\<close>

text \<open>
  What both automata promise about line ends, whatever they are fed: after a newline they
  are at the start of a line or in the error state, and the error state is left by the next
  newline only.
\<close>

locale line_automaton =
  fixes step :: "'p \<Rightarrow> u8 \<Rightarrow> DecodeStatus \<times> 'p"
    and ready :: "'p \<Rightarrow> bool"
    and in_error :: "'p \<Rightarrow> bool"
  assumes newline: "IsNewLine c \<Longrightarrow> ready (snd (step p c)) \<or> in_error (snd (step p c))"
    and error_leaves: "in_error p \<Longrightarrow> IsNewLine c \<Longrightarrow>
          ready (snd (step p c)) \<and> fst (step p c) = MessageCompleted"
    and error_stays: "in_error p \<Longrightarrow> \<not> IsNewLine c \<Longrightarrow>
          in_error (snd (step p c)) \<and> fst (step p c) = DecodeError"
begin

lemma after_newline:
  "IsNewLine nl \<Longrightarrow>
     ready (snd (run_decoder step p (xs @ [nl]))) \<or> in_error (snd (run_decoder step p (xs @ [nl])))"
  by (simp add: run_decoder_snoc newline)

lemma error_run:
  "in_error p \<Longrightarrow> list_all (\<lambda>c. \<not> IsNewLine c) xs \<Longrightarrow>
     in_error (snd (run_decoder step p xs))
     \<and> fst (run_decoder step p xs) = replicate (length xs) DecodeError"
  by (induction xs arbitrary: p)
    (simp_all add: run_decoder_Cons error_stays del: run_decoder.simps(2))

lemma error_line:
  assumes "in_error p" "list_all (\<lambda>c. \<not> IsNewLine c) xs" "IsNewLine nl"
  shows "ready (snd (run_decoder step p (xs @ [nl])))"
    and "fst (run_decoder step p (xs @ [nl])) = replicate (length xs) DecodeError @ [MessageCompleted]"
  using error_run[OF assms(1,2)] error_leaves[OF _ assms(3)] by (simp_all add: run_decoder_snoc)

text \<open>
  Any bytes up to a newline followed by one line that the automaton reads correctly when it
  is ready leave it ready.
\<close>

lemma resync:
  assumes "IsNewLine nl" "IsNewLine nl'" "list_all (\<lambda>c. \<not> IsNewLine c) ys"
    and good: "\<And>q. ready q \<Longrightarrow> ready (snd (run_decoder step q (ys @ [nl'])))"
  shows "ready (snd (run_decoder step p ((xs @ [nl]) @ ys @ [nl'])))"
  using after_newline[OF assms(1), of p xs] error_line(1)[OF _ assms(3,2)] good
  by (auto simp only: run_decoder_append[of step p "xs @ [nl]"] case_prod_beta Let_def snd_conv)

end

interpretation rq_lines: line_automaton DecodeRequest "\<lambda>p. rqState p = Rqs_Code"
  "\<lambda>p. rqState p = Rqs_Error"
proof unfold_locales
  fix c and p :: Protocol
  assume nl: "IsNewLine c"
  then have h: "\<not> IsHexDigit c" using hex_not_newline by blast
  from nl have r: "request_of_byte c = None"
    by (cases "request_of_byte c") (auto dest: request_of_byteD)
  from nl have s: "c \<noteq> 0x2A" "c \<noteq> 0x20" by (auto simp: IsNewLine_def)
  from nl h r s show "rqState (snd (DecodeRequest p c)) = Rqs_Code \<or>
      rqState (snd (DecodeRequest p c)) = Rqs_Error"
    by (cases "rqState p")
      (auto simp: DecodeRequest.simps Let_def rq_fail_def rq_default_def IsCRCSeparator_def)
qed (auto simp: DecodeRequest.simps Let_def rq_fail_def rq_default_def)

interpretation rsp_lines: line_automaton DecodeResponse "\<lambda>p. rspState p = Rss_RequestCode"
  "\<lambda>p. rspState p = Rss_Error"
proof unfold_locales
  fix c and p :: Protocol
  assume nl: "IsNewLine c"
  then have h: "\<not> IsHexDigit c" using hex_not_newline by blast
  from nl have r: "request_of_byte c = None"
    by (cases "request_of_byte c") (auto dest: request_of_byteD)
  from nl have q: "param_of_byte c = None"
    by (auto simp: IsNewLine_def param_of_byte_def)
  from nl have s: "c \<noteq> 0x2A" "c \<noteq> 0x20" by (auto simp: IsNewLine_def)
  from nl h r q s show "rspState (snd (DecodeResponse p c)) = Rss_RequestCode \<or>
      rspState (snd (DecodeResponse p c)) = Rss_Error"
    by (cases "rspState p")
      (auto simp: DecodeResponse.simps Let_def rsp_fail_def IsCRCSeparator_def)
qed (auto simp: DecodeResponse.simps Let_def rsp_fail_def)

section \<open>Line lengths\<close>

lemma line_lengths:
  "length (BeginEncodeRequest m) \<le> 4" "length (AppendCRC crc) \<le> 3"
  using UInt8ToHex_length[of "rq_value m"] UInt8ToHex_length[of crc]
  by (simp_all add: BeginEncodeRequest_def AppendCRC_def)

lemma response_line_length:
  "length (response_line c v pc ds crc) \<le> length ds + 9"
  using UInt8ToHex_length[of v] line_lengths(2)[of crc] by (simp add: response_line_def)

lemma request_lines_no_newline:
  obtains xs where "EncodeRequest m = xs @ [0x0A]" "list_all (\<lambda>c. \<not> IsNewLine c) xs"
proof
  show "EncodeRequest m = (request_byte (rq_code m) # UInt8ToHex (rq_value m)
      @ AppendCRC (rq_crc8 m)) @ [0x0A]"
    by (simp add: EncodeRequest_def)
  have hex: "list_all (\<lambda>c. \<not> IsNewLine c) (UInt8ToHex v)" for v
    using UInt8ToHex_digits[of v] hex_not_newline by (auto simp: list_all_iff)
  show "list_all (\<lambda>c. \<not> IsNewLine c) (request_byte (rq_code m) # UInt8ToHex (rq_value m)
      @ AppendCRC (rq_crc8 m))"
    by (simp add: AppendCRC_def hex) (simp add: IsNewLine_def)
qed

text \<open>A response line read in full by a decoder that was just reset.\<close>

definition response_decoded :: "Protocol \<Rightarrow> u8 list \<Rightarrow> ResponseMsg \<Rightarrow> bool" where
  "response_decoded p bytes rsp \<longleftrightarrow>
     decode_responses (ResetResponseDecoder p) bytes =
       (replicate (length bytes - 1) NeedMoreData @ [MessageCompleted],
        p\<lparr>responseMsg := rsp, rspState := Rss_RequestCode\<rparr>)"

text \<open>The responses are lines that the decoder of the printer reads back.\<close>

lemma responses_decoded:
  assumes "rq_code m \<noteq> Rq_unknown" "rq_value2 m = 0" "ar \<noteq> Rp_unknown" "rcs_code rcs \<noteq> Rp_unknown"
  shows "response_decoded p (EncodeResponseCmdAR m ar)
           (ResponseMsg_new (RequestMsg_new (rq_code m) (rq_value m)) ar 0)
    \<and> response_decoded p (EncodeResponseQueryOperation m rcs)
           (ResponseMsg_new m (rcs_code rcs) (rcs_value rcs))
    \<and> response_decoded p (EncodeResponseRead m accepted v)
           (ResponseMsg_new m (if accepted then Rp_Accepted else Rp_Rejected)
              (if accepted then v else 0))"
proof -
  have cmd: "rq_code (RequestMsg_new (rq_code m) (rq_value m)) = rq_code m"
    "rq_value (RequestMsg_new (rq_code m) (rq_value m)) = rq_value m"
    "rq_value2 (RequestMsg_new (rq_code m) (rq_value m)) = 0"
    by (simp_all add: RequestMsg_new_def Let_def)
  have empty: "hex_value [] = (0 :: u16)" by (simp add: hex_value_def)
  show ?thesis
    unfolding response_decoded_def EncodeResponseCmdAR_line EncodeResponseQueryOperation_line
      EncodeResponseRead_line
    using decode_response_new[of "ResetResponseDecoder p" "RequestMsg_new (rq_code m) (rq_value m)"
        ar "[]" 0] assms(1-4)
    by (simp add: cmd empty decode_response_new ResetResponseDecoder_def UInt16ToHex_digits
        hex_value_UInt16ToHex)
qed

section \<open>Properties\<close>

text \<open>C5: a request that is not a write, encoded with any check byte and fed to a freshly reset
  decoder whatever it held before, needs every byte but the last; at the newline it is
  completed, and equals the request that was sent with the second value 0, exactly if the
  check byte is the CRC of that message. Otherwise the decoder reports an error and marks the
  message unknown.\<close>

theorem request_roundtrip:
  assumes "rq_code m \<notin> {Rq_unknown, Rq_Write}"
  shows "decode_requests (ResetRequestDecoder p) (EncodeRequest m) =
    (let m0 = m\<lparr>rq_value2 := 0\<rparr>; n = length (EncodeRequest m) - 1 in
     if rq_crc8 m = RequestMsg_ComputeCRC8 m0
     then (replicate n NeedMoreData @ [MessageCompleted], p\<lparr>requestMsg := m0, rqState := Rqs_Code\<rparr>)
     else (replicate n NeedMoreData @ [DecodeError],
           p\<lparr>requestMsg := m0\<lparr>rq_code := Rq_unknown\<rparr>, rqState := Rqs_Error\<rparr>))"
  using assms by (simp add: decode_EncodeRequest ResetRequestDecoder_def Let_def)

theorem request_roundtrip_witness:
  "decode_requests (ResetRequestDecoder Protocol_new) (EncodeRequest (RequestMsg_new Rq_Tool 3)) =
     (replicate (length (EncodeRequest (RequestMsg_new Rq_Tool 3)) - 1) NeedMoreData
        @ [MessageCompleted],
      Protocol_new\<lparr>requestMsg := RequestMsg_new Rq_Tool 3, rqState := Rqs_Code\<rparr>)"
  using request_roundtrip[of "RequestMsg_new Rq_Tool 3" Protocol_new]
  by (simp add: RequestMsg_new_def Let_def RequestMsg_ComputeCRC8_def)

text \<open>A write request for any address and 16-bit value is decoded, byte for byte, to the
  message it was built from.\<close>

theorem write_request_roundtrip:
  "decode_requests (ResetRequestDecoder p) (EncodeWriteRequest a v) =
    (replicate (length (EncodeWriteRequest a v) - 1) NeedMoreData @ [MessageCompleted],
     p\<lparr>requestMsg := RequestMsg_new_write Rq_Write a v, rqState := Rqs_Code\<rparr>)"
  by (simp add: decode_EncodeWriteRequest ResetRequestDecoder_def)

text \<open>C15: the printer's side decodes every response the MMU encodes for a request without a
  second value: the plain reply, the status of an operation and the answer to a read come back
  as the request, the parameter code and the parameter value that were sent.\<close>

theorem response_roundtrip:
  assumes "rq_code m \<noteq> Rq_unknown" "rq_value2 m = 0" "ar \<noteq> Rp_unknown" "rcs_code rcs \<noteq> Rp_unknown"
  shows "response_decoded p (EncodeResponseCmdAR m ar)
           (ResponseMsg_new (RequestMsg_new (rq_code m) (rq_value m)) ar 0)
    \<and> response_decoded p (EncodeResponseQueryOperation m rcs)
           (ResponseMsg_new m (rcs_code rcs) (rcs_value rcs))
    \<and> response_decoded p (EncodeResponseRead m accepted v)
           (ResponseMsg_new m (if accepted then Rp_Accepted else Rp_Rejected)
              (if accepted then v else 0))"
  using responses_decoded[OF assms] .

theorem response_roundtrip_witness:
  "response_decoded Protocol_new (EncodeResponseRead (RequestMsg_new Rq_Read 2) True 0x1234)
     (ResponseMsg_new (RequestMsg_new Rq_Read 2) Rp_Accepted 0x1234)"
  using response_roundtrip[of "RequestMsg_new Rq_Read 2" Rp_Accepted
      "\<lparr>rcs_code = Rp_Finished, rcs_value = 0\<rparr>" Protocol_new True "0x1234"]
  by (simp add: RequestMsg_new_def[of Rq_Read] Let_def)

text \<open>Whatever bytes arrive from power-up, a message is reported complete only on a newline,
  and it is then either marked unknown (the end of a line in error) or carries a known code, the
  right check byte and, unless it is a write, a second value of 0.\<close>

theorem completed_requests_are_valid:
  assumes "fst (decode_requests Protocol_new (cs @ [c])) = ss @ [MessageCompleted]"
    and "m = requestMsg (snd (decode_requests Protocol_new (cs @ [c])))"
  shows "IsNewLine c \<and> (rq_code m = Rq_unknown \<or> request_accepted m)"
proof -
  let ?p = "snd (decode_requests Protocol_new cs)"
  have "request_wf ?p"
    by (rule run_decoder_invariant) (simp_all add: request_wf_step)
  moreover have "fst (DecodeRequest ?p c) = MessageCompleted"
    using assms(1) by (simp add: run_decoder_snoc)
  ultimately show ?thesis
    using request_wf_completed[of ?p c] assms(2) by (simp add: run_decoder_snoc)
qed

theorem completed_requests_are_valid_witness:
  "IsNewLine 0x0A \<and> (rq_code (RequestMsg_new Rq_Query 0) = Rq_unknown
      \<or> request_accepted (RequestMsg_new Rq_Query 0))"
proof (rule completed_requests_are_valid)
  let ?m = "RequestMsg_new Rq_Query 0"
  have run: "decode_requests Protocol_new (EncodeRequest ?m) =
      (replicate (length (EncodeRequest ?m) - 1) NeedMoreData @ [MessageCompleted],
       Protocol_new\<lparr>requestMsg := ?m, rqState := Rqs_Code\<rparr>)"
    by (simp add: decode_EncodeRequest Protocol_new_def RequestMsg_new_def Let_def
        RequestMsg_ComputeCRC8_def)
  have line: "EncodeRequest ?m = butlast (EncodeRequest ?m) @ [0x0A]"
    by (simp add: EncodeRequest_def flip: append_assoc)
  show "fst (decode_requests Protocol_new (butlast (EncodeRequest ?m) @ [0x0A])) =
      replicate (length (EncodeRequest ?m) - 1) NeedMoreData @ [MessageCompleted]"
    using run by (simp only: line [symmetric] fst_conv)
  show "?m = requestMsg (snd (decode_requests Protocol_new (butlast (EncodeRequest ?m) @ [0x0A])))"
    using run by (simp only: line [symmetric] snd_conv) simp
qed

text \<open>C16: resynchronisation. From any state of the decoder, after any bytes up to a newline, the
  next well-formed request line may be lost with the garbage but the one after it is decoded.\<close>

theorem request_resync:
  assumes "rq_code m1 \<notin> {Rq_unknown, Rq_Write}" "rq_code m2 \<notin> {Rq_unknown, Rq_Write}"
    and "rq_value2 m1 = 0" "rq_crc8 m1 = RequestMsg_ComputeCRC8 m1"
    and "rq_value2 m2 = 0" "rq_crc8 m2 = RequestMsg_ComputeCRC8 m2"
  shows "requestMsg (snd (decode_requests p (garbage @ [0x0A] @ EncodeRequest m1 @ EncodeRequest m2)))
           = m2
    \<and> last (fst (decode_requests p (garbage @ [0x0A] @ EncodeRequest m1 @ EncodeRequest m2)))
           = MessageCompleted"
proof -
  let ?q = "snd (decode_requests p ((garbage @ [0x0A]) @ EncodeRequest m1))"
  obtain xs where xs: "EncodeRequest m1 = xs @ [0x0A]" "list_all (\<lambda>c. \<not> IsNewLine c) xs"
    by (rule request_lines_no_newline)
  have good: "rqState (snd (decode_requests q (xs @ [0x0A]))) = Rqs_Code" if "rqState q = Rqs_Code" for q
    using decode_EncodeRequest[OF that assms(1), of m1] assms(3,4) xs(1) by simp
  have nl: "IsNewLine 0x0A" by (simp add: IsNewLine_def)
  have ready: "rqState ?q = Rqs_Code"
    unfolding xs(1) by (rule rq_lines.resync[OF nl nl xs(2) good])
  have "decode_requests ?q (EncodeRequest m2) =
      (replicate (length (EncodeRequest m2) - 1) NeedMoreData @ [MessageCompleted],
       ?q\<lparr>requestMsg := m2, rqState := Rqs_Code\<rparr>)"
    using decode_EncodeRequest[OF ready assms(2), of m2] assms(5,6) by simp
  then have "snd (decode_requests p (((garbage @ [0x0A]) @ EncodeRequest m1) @ EncodeRequest m2))
        = ?q\<lparr>requestMsg := m2, rqState := Rqs_Code\<rparr>"
    and "last (fst (decode_requests p (((garbage @ [0x0A]) @ EncodeRequest m1) @ EncodeRequest m2)))
        = MessageCompleted"
    by (simp_all only: run_decoder_append[of _ _ "_ @ EncodeRequest m1"] case_prod_beta Let_def)
      simp_all
  then show ?thesis by (simp only: append_assoc) simp
qed

theorem request_resync_witness:
  "requestMsg (snd (decode_requests Protocol_new
     ([0x51, 0x78] @ [0x0A] @ EncodeRequest (RequestMsg_new Rq_Query 0)
        @ EncodeRequest (RequestMsg_new Rq_Load 4)))) = RequestMsg_new Rq_Load 4"
  using request_resync[of "RequestMsg_new Rq_Query 0" "RequestMsg_new Rq_Load 4" Protocol_new
      "[0x51, 0x78]"]
  by (simp only: RequestMsg_new_def Let_def RequestMsg_ComputeCRC8_def) simp



text \<open>No encoder writes past the buffers its callers provide: a request fits in
  \<open>MaxRequestSize\<close> bytes and a response in \<open>MaxResponseSize\<close>.\<close>

theorem encoded_sizes:
  "length (EncodeRequest m) \<le> MaxRequestSize
   \<and> length (EncodeWriteRequest a v) \<le> MaxRequestSize
   \<and> length (EncodeResponseCmdAR m ar) \<le> MaxResponseSize
   \<and> length (EncodeResponseQueryOperation m rcs) \<le> MaxResponseSize
   \<and> length (EncodeResponseRead m accepted v) \<le> MaxResponseSize
   \<and> length (EncodeResponseReadFINDA m f) \<le> MaxResponseSize"
proof -
  note bounds = UInt8ToHex_length UInt16ToHex_length line_lengths response_line_length
  have "length (EncodeRequest m) \<le> MaxRequestSize"
    using bounds(1)[of "rq_value m"] bounds(4)[of "rq_crc8 m"]
    by (simp add: EncodeRequest_def MaxRequestSize_def)
  moreover have "length (EncodeWriteRequest a v) \<le> MaxRequestSize"
    using bounds(2)[of v] bounds(3)[of "RequestMsg_new_write Rq_Write a v"]
      bounds(4)[of "rq_crc8 (RequestMsg_new_write Rq_Write a v)"]
    by (simp add: EncodeWriteRequest_def MaxRequestSize_def Let_def)
  moreover have resp: "length (response_line c v pc ds crc) \<le> MaxResponseSize" if "length ds \<le> 4" for c v pc ds crc
    using order_trans[OF bounds(5)[of c v pc ds crc]] that by (simp add: MaxResponseSize_def)
  moreover have "length (EncodeResponseCmdAR m ar) \<le> MaxResponseSize"
    and "length (EncodeResponseQueryOperation m rcs) \<le> MaxResponseSize"
    and read: "length (EncodeResponseRead m accepted v) \<le> MaxResponseSize" for accepted v
    unfolding EncodeResponseCmdAR_line EncodeResponseQueryOperation_line EncodeResponseRead_line
    by (rule resp, simp add: bounds)+
  moreover have "length (EncodeResponseReadFINDA m f) \<le> MaxResponseSize"
    unfolding EncodeResponseReadFINDA_def by (rule read)
  ultimately show ?thesis using read by blast
qed

end
