(* ===== verification/App.thy ===== *)
theory App
  imports Tool_Change Eject_Filament Simple_Commands Hw_Sanity Serial Decoder
begin

text \<open>
  All objects of the firmware together, and the virtual functions of the command objects, which are
  called through the pointer \<open>currentCommand\<close>.
\<close>

section \<open>State\<close>

text \<open>
  The machine, the data of the commands that have any, the request of the current command, the decoder of
  the protocol, the serial line, the buttons and the voltage. \<open>a_resetting\<close> says that the
  processor waits for the watchdog to restart it.
\<close>

record App =
  a_mmu :: mmu
  a_unload :: UnloadFilament
  a_load :: LoadFilament
  a_tool :: ToolChange
  a_cut :: CutFilament
  a_eject :: EjectFilament
  a_sanity :: HWSanity
  a_currentCommandRq :: RequestMsg
  a_protocol :: Protocol
  a_usart :: USART
  a_buttons :: Buttons
  a_vcc :: u16
  a_resetting :: bool

definition App_new :: "hw \<Rightarrow> eeprom \<Rightarrow> App" where
  "App_new h e = \<lparr>a_mmu = mmu_new h e, a_unload = UnloadFilament_new, a_load = LoadFilament_new,
     a_tool = ToolChange_new, a_cut = CutFilament_new, a_eject = EjectFilament_new, a_sanity = HWSanity_new,
     a_currentCommandRq = RequestMsg_new Rq_Reset 0, a_protocol = Protocol_new, a_usart = USART_new,
     a_buttons = Buttons_new, a_vcc = 0, a_resetting = False\<rparr>"

abbreviation current :: "App \<Rightarrow> command" where "current a \<equiv> m_currentCommand (a_mmu a)"

definition on_mmu :: "(mmu \<Rightarrow> mmu) \<Rightarrow> App \<Rightarrow> App" where
  "on_mmu f a = a\<lparr>a_mmu := f (a_mmu a)\<rparr>"

definition set_current :: "command \<Rightarrow> App \<Rightarrow> App" where
  "set_current c = on_mmu (\<lambda>w. w\<lparr>m_currentCommand := c\<rparr>)"

section \<open>Virtual functions\<close>

definition State :: "command \<Rightarrow> App \<Rightarrow> ProgressCode" where
  "State c a =
     (case c of
        toolChange \<Rightarrow> ToolChange_State (a_tool a) (a_mmu a)
      | cutFilament \<Rightarrow> CutFilament_State (a_mmu a)
      | ejectFilament \<Rightarrow> EjectFilament_State (a_mmu a)
      | _ \<Rightarrow> state_of (Cmd c) (a_mmu a))"

definition Error :: "command \<Rightarrow> App \<Rightarrow> ErrorCode" where
  "Error c a =
     (case c of
        toolChange \<Rightarrow> ToolChange_Error (a_mmu a)
      | cutFilament \<Rightarrow> CutFilament_Error (a_mmu a)
      | ejectFilament \<Rightarrow> EjectFilament_Error (a_mmu a)
      | _ \<Rightarrow> error_of (Cmd c) (a_mmu a))"

definition Result :: "command \<Rightarrow> App \<Rightarrow> ResultCode" where
  "Result c a = (if c = loadFilament then LoadFilament_Result (a_load a) else Result_OK)"

text \<open>An operation of a command with data of its own, and of one without.\<close>

definition with_data ::
  "(App \<Rightarrow> 'd) \<Rightarrow> ('d \<Rightarrow> App \<Rightarrow> App) \<Rightarrow> ('d \<times> mmu \<Rightarrow> bool \<times> 'd \<times> mmu) \<Rightarrow> App \<Rightarrow> bool \<times> App" where
  "with_data get put f a = (let (r, d, w) = f (get a, a_mmu a) in (r, put d (a\<lparr>a_mmu := w\<rparr>)))"

definition without_data :: "(mmu \<Rightarrow> bool \<times> mmu) \<Rightarrow> App \<Rightarrow> bool \<times> App" where
  "without_data f a = (let (r, w) = f (a_mmu a) in (r, a\<lparr>a_mmu := w\<rparr>))"

definition on_unload :: "(UnloadFilament \<times> mmu \<Rightarrow> bool \<times> UnloadFilament \<times> mmu) \<Rightarrow> App \<Rightarrow> bool \<times> App" where
  "on_unload = with_data a_unload (\<lambda>d a. a\<lparr>a_unload := d\<rparr>)"
definition on_load :: "(LoadFilament \<times> mmu \<Rightarrow> bool \<times> LoadFilament \<times> mmu) \<Rightarrow> App \<Rightarrow> bool \<times> App" where
  "on_load = with_data a_load (\<lambda>d a. a\<lparr>a_load := d\<rparr>)"
definition on_tool :: "(ToolChange \<times> mmu \<Rightarrow> bool \<times> ToolChange \<times> mmu) \<Rightarrow> App \<Rightarrow> bool \<times> App" where
  "on_tool = with_data a_tool (\<lambda>d a. a\<lparr>a_tool := d\<rparr>)"
definition on_cut :: "(CutFilament \<times> mmu \<Rightarrow> bool \<times> CutFilament \<times> mmu) \<Rightarrow> App \<Rightarrow> bool \<times> App" where
  "on_cut = with_data a_cut (\<lambda>d a. a\<lparr>a_cut := d\<rparr>)"
definition on_eject :: "(EjectFilament \<times> mmu \<Rightarrow> bool \<times> EjectFilament \<times> mmu) \<Rightarrow> App \<Rightarrow> bool \<times> App" where
  "on_eject = with_data a_eject (\<lambda>d a. a\<lparr>a_eject := d\<rparr>)"
definition on_sanity :: "(HWSanity \<times> mmu \<Rightarrow> bool \<times> HWSanity \<times> mmu) \<Rightarrow> App \<Rightarrow> bool \<times> App" where
  "on_sanity = with_data a_sanity (\<lambda>d a. a\<lparr>a_sanity := d\<rparr>)"

lemmas on_cmd_defs = on_unload_def on_load_def on_tool_def on_cut_def on_eject_def on_sanity_def

definition Reset :: "command \<Rightarrow> u8 \<Rightarrow> App \<Rightarrow> bool \<times> App" where
  "Reset c param =
     (case c of
        noCommand \<Rightarrow> without_data NoCommand_Reset
      | startUp \<Rightarrow> without_data StartUp_Reset
      | cutFilament \<Rightarrow> on_cut (CutFilament_Reset param)
      | ejectFilament \<Rightarrow> on_eject (EjectFilament_Reset param)
      | home \<Rightarrow> without_data Home_Reset
      | hwSanity \<Rightarrow> on_sanity (HWSanity_Reset param)
      | loadFilament \<Rightarrow> on_load (LoadFilament_Reset param)
      | moveSelector \<Rightarrow> without_data (MoveSelector_Reset param)
      | setMode \<Rightarrow> without_data (SetMode_Reset param)
      | toolChange \<Rightarrow> on_tool (ToolChange_Reset param)
      | unloadFilament \<Rightarrow> on_unload (UnloadFilament_Reset (Cmd unloadFilament) param))"

definition plain_step :: "command \<Rightarrow> (unit \<times> mmu \<Rightarrow> bool \<times> unit \<times> mmu) \<Rightarrow> App \<Rightarrow> bool \<times> App" where
  "plain_step c inner = with_data (\<lambda>_. ()) (\<lambda>_ a. a) (CommandBase_Step (Cmd c) inner)"

definition Command_Step :: "command \<Rightarrow> App \<Rightarrow> bool \<times> App" where
  "Command_Step c =
     (case c of
        noCommand \<Rightarrow> plain_step noCommand NoCommand_StepInner
      | startUp \<Rightarrow> plain_step startUp StartUp_StepInner
      | cutFilament \<Rightarrow> on_cut (CommandBase_Step cut_ob CutFilament_StepInner)
      | ejectFilament \<Rightarrow> on_eject (CommandBase_Step eject_ob EjectFilament_StepInner)
      | home \<Rightarrow> plain_step home Home_StepInner
      | hwSanity \<Rightarrow> on_sanity (CommandBase_Step sanity_ob HWSanity_StepInner)
      | loadFilament \<Rightarrow> on_load (CommandBase_Step load_ob LoadFilament_StepInner)
      | moveSelector \<Rightarrow> plain_step moveSelector MoveSelector_StepInner
      | setMode \<Rightarrow> plain_step setMode SetMode_StepInner
      | toolChange \<Rightarrow> on_tool (CommandBase_Step tool_ob ToolChange_StepInner)
      | unloadFilament \<Rightarrow>
          on_unload (CommandBase_Step (Cmd unloadFilament) (UnloadFilament_StepInner (Cmd unloadFilament))))"

section \<open>What the virtual functions leave alone\<close>

lemma on_mmu_frame [simp]:
  "a_mmu (on_mmu f a) = f (a_mmu a)" "a_usart (on_mmu f a) = a_usart a" "a_protocol (on_mmu f a) = a_protocol a"
  "a_currentCommandRq (on_mmu f a) = a_currentCommandRq a" "a_resetting (on_mmu f a) = a_resetting a"
  "a_load (on_mmu f a) = a_load a" "a_tool (on_mmu f a) = a_tool a" "a_buttons (on_mmu f a) = a_buttons a"
  "a_unload (on_mmu f a) = a_unload a" "a_cut (on_mmu f a) = a_cut a" "a_eject (on_mmu f a) = a_eject a"
  by (simp_all add: on_mmu_def)

lemma set_current_frame [simp]:
  "a_mmu (set_current c a) = (a_mmu a)\<lparr>m_currentCommand := c\<rparr>" "a_usart (set_current c a) = a_usart a"
  "a_protocol (set_current c a) = a_protocol a" "a_currentCommandRq (set_current c a) = a_currentCommandRq a"
  "a_resetting (set_current c a) = a_resetting a" "a_load (set_current c a) = a_load a" "a_tool (set_current c a) = a_tool a"
  "a_buttons (set_current c a) = a_buttons a"
  by (simp_all add: set_current_def)

lemma State_base:
  assumes "m_base (a_mmu b) = m_base (a_mmu a)"
  shows "a_tool b = a_tool a \<Longrightarrow> State c b = State c a" "Error c b = Error c a"
proof -
  have "state_of ob (a_mmu b) = state_of ob (a_mmu a)" "error_of ob (a_mmu b) = error_of ob (a_mmu a)" for ob
    using assms by (simp_all add: state_of_def error_of_def)
  then show "a_tool b = a_tool a \<Longrightarrow> State c b = State c a" "Error c b = Error c a"
    by (simp_all add: State_def Error_def ToolChange_State_def ToolChange_Error_def
        CutFilament_State_def CutFilament_Error_def EjectFilament_State_def EjectFilament_Error_def
        cong: ProgressCode.case_cong split: command.splits)
qed

lemma Reset_frame [simp]:
  "a_usart (snd (Reset c p a)) = a_usart a" "a_protocol (snd (Reset c p a)) = a_protocol a"
  "a_currentCommandRq (snd (Reset c p a)) = a_currentCommandRq a" "a_resetting (snd (Reset c p a)) = a_resetting a"
  "a_buttons (snd (Reset c p a)) = a_buttons a"
  by (cases c; simp add: Reset_def on_cmd_defs with_data_def without_data_def Let_def case_prod_beta)+

lemma Command_Step_frame [simp]:
  "a_usart (snd (Command_Step c a)) = a_usart a" "a_protocol (snd (Command_Step c a)) = a_protocol a"
  "a_currentCommandRq (snd (Command_Step c a)) = a_currentCommandRq a"
  "a_resetting (snd (Command_Step c a)) = a_resetting a" "a_buttons (snd (Command_Step c a)) = a_buttons a"
  by (cases c; simp add: Command_Step_def plain_step_def on_cmd_defs with_data_def Let_def case_prod_beta)+

lemma Reset_wf: "mmu_wf (a_mmu a) \<Longrightarrow> mmu_wf (a_mmu (snd (Reset c p a)))"
  by (cases c)
    (simp_all add: Reset_def on_cmd_defs with_data_def without_data_def Let_def case_prod_beta NoCommand_Reset_def
      StartUp_Reset_wf Home_Reset_wf MoveSelector_Reset_wf SetMode_Reset_wf CutFilament_Reset_wf EjectFilament_Reset_wf
      LoadFilament_Reset_wf ToolChange_Reset_wf UnloadFilament_Reset_wf HWSanity_Reset_def)

lemma Command_Step_wf: "mmu_wf (a_mmu a) \<Longrightarrow> mmu_wf (a_mmu (snd (Command_Step c a)))"
  by (cases c)
    (simp_all add: Command_Step_def plain_step_def on_cmd_defs with_data_def Let_def case_prod_beta
      no_cmd.Step_wf start_cmd.Step_wf cut_cmd.Step_wf eject_cmd.Step_wf home_cmd.Step_wf sanity_cmd.Step_wf
      load_cmd.Step_wf move_cmd.Step_wf mode_cmd.Step_wf tool_cmd.Step_wf unload_cmd.Step_wf)

end
