(* ===== verification/Registers.thy ===== *)
theory Registers
  imports App
begin

text \<open>
  The registers the printer reads and writes (\<open>registers.cpp\<close>): the table of read and write functions and the
  access to it. The version numbers are defined by the build and are an argument.
\<close>

section \<open>The table\<close>

record version =
  v_major :: u8
  v_minor :: u8
  v_revision :: u16
  v_build_number :: u16

type_synonym RegisterRec = "(App \<Rightarrow> u16) \<times> (u16 \<Rightarrow> App \<Rightarrow> App) option"

definition read_only :: "(App \<Rightarrow> u16) \<Rightarrow> RegisterRec" where "read_only r = (r, None)"

definition read_write :: "(App \<Rightarrow> u16) \<Rightarrow> (u16 \<Rightarrow> App \<Rightarrow> App) \<Rightarrow> RegisterRec" where
  "read_write r f = (r, Some f)"

abbreviation globals_of :: "App \<Rightarrow> Globals" where "globals_of a \<equiv> m_globals (a_mmu a)"

definition bool_value :: "bool \<Rightarrow> u16" where "bool_value b = (if b then 1 else 0)"

definition on_globals :: "(Globals \<Rightarrow> Globals) \<Rightarrow> App \<Rightarrow> App" where "on_globals f = on_mmu (set_globals f)"

definition CurrentProgressCode :: "App \<Rightarrow> u8" where
  "CurrentProgressCode a = progress_byte (State (current a) a)"

definition CurrentErrorCode :: "App \<Rightarrow> u16" where "CurrentErrorCode a = Error (current a) a"

definition acceleration_register :: "Axis \<Rightarrow> RegisterRec" where
  "acceleration_register x = read_write
     (\<lambda>a. ucast (axisUnitToTruncatedUnit x (Motion_Acceleration x (m_motion (a_mmu a))) 1))
     (\<lambda>d. on_mmu (mot (Motion_SetAcceleration x (unitToAxisUnit x (unit_of_u16 d)))))"

definition sg_thrs_register :: "Axis \<Rightarrow> RegisterRec" where
  "sg_thrs_register x = read_write
     (\<lambda>a. ucast (StallGuardThreshold (m_eeprom (a_mmu a)) x))
     (\<lambda>d. on_mmu (\<lambda>w. w\<lparr>m_eeprom := SetStallGuardThreshold x (ucast d) (m_eeprom w)\<rparr>))"

definition irun_register :: "Axis \<Rightarrow> RegisterRec" where
  "irun_register x = read_write
     (\<lambda>a. ucast (mc_iRun (ad_currents (mo_data (m_motion (a_mmu a)) x))))
     (\<lambda>d. on_mmu (mot (SetIRunForAxis x (ucast d))))"

definition registers :: "version \<Rightarrow> RegisterRec list" where
  "registers v =
    [\<comment> \<open>0x00\<close> read_only (\<lambda>_. ucast (v_major v)),
     \<comment> \<open>0x01\<close> read_only (\<lambda>_. ucast (v_minor v)),
     \<comment> \<open>0x02\<close> read_only (\<lambda>_. v_revision v),
     \<comment> \<open>0x03\<close> read_only (\<lambda>_. v_build_number v),
     \<comment> \<open>0x04\<close> read_only (\<lambda>a. DriveError_get (m_eeprom (a_mmu a))),
     \<comment> \<open>0x05\<close> read_only (\<lambda>a. ucast (CurrentProgressCode a)),
     \<comment> \<open>0x06\<close> read_only CurrentErrorCode,
     \<comment> \<open>0x07\<close> read_write (\<lambda>a. ucast (fls_byte (g_filamentLoaded (globals_of a))))
       (\<lambda>d. on_mmu (\<lambda>w. set_filament (active_slot w) (FLS (ucast d)) w)),
     \<comment> \<open>0x08\<close> read_only (\<lambda>a. bool_value (finda_pressed (a_mmu a))),
     \<comment> \<open>0x09\<close> read_write (\<lambda>a. bool_value (fsensor_pressed (a_mmu a)))
       (\<lambda>d. on_mmu (\<lambda>w. w\<lparr>m_fsensor := FSensor_ProcessMessage (d \<noteq> 0) (m_fsensor w)\<rparr>)),
     \<comment> \<open>0x0a\<close> read_only (\<lambda>a. bool_value (g_stealthMode (globals_of a))),
     \<comment> \<open>0x0b\<close> read_write (\<lambda>a. u16_of_unit (FSensorToNozzle_mm (globals_of a)))
       (\<lambda>d. on_globals (\<lambda>g. g\<lparr>g_fsensorToNozzle_mm := ucast d\<rparr>)),
     \<comment> \<open>0x0c\<close> read_write (\<lambda>a. u16_of_unit (FSensorUnloadCheck_mm (globals_of a)))
       (\<lambda>d. on_globals (\<lambda>g. g\<lparr>g_fsensorUnloadCheck_mm := ucast d\<rparr>)),
     \<comment> \<open>0x0d\<close> read_write (\<lambda>a. u16_of_unit (PulleyUnloadFeedrate_mm_s (globals_of a)))
       (\<lambda>d. on_globals (\<lambda>g. g\<lparr>g_pulleyUnloadFeedrate_mm_s := d\<rparr>)),
     \<comment> \<open>0x0e\<close> acceleration_register Pulley,
     \<comment> \<open>0x0f\<close> acceleration_register Selector,
     \<comment> \<open>0x10\<close> acceleration_register Idler,
     \<comment> \<open>0x11\<close> read_write (\<lambda>a. u16_of_unit (PulleyLoadFeedrate_mm_s (globals_of a)))
       (\<lambda>d. on_globals (\<lambda>g. g\<lparr>g_pulleyLoadFeedrate_mm_s := d\<rparr>)),
     \<comment> \<open>0x12\<close> read_write (\<lambda>a. u16_of_unit (SelectorFeedrate_mm_s (globals_of a)))
       (\<lambda>d. on_globals (\<lambda>g. g\<lparr>g_selectorFeedrate_mm_s := d\<rparr>)),
     \<comment> \<open>0x13\<close> read_write (\<lambda>a. u16_of_unit (IdlerFeedrate_deg_s (globals_of a)))
       (\<lambda>d. on_globals (\<lambda>g. g\<lparr>g_idlerFeedrate_deg_s := d\<rparr>)),
     \<comment> \<open>0x14\<close> read_write (\<lambda>a. u16_of_unit (PulleySlowFeedrate_mm_s (globals_of a)))
       (\<lambda>d. on_globals (\<lambda>g. g\<lparr>g_pulleySlowFeedrate_mm_s := d\<rparr>)),
     \<comment> \<open>0x15\<close> read_write (\<lambda>a. u16_of_unit (SelectorHomingFeedrate_mm_s (globals_of a)))
       (\<lambda>d. on_globals (\<lambda>g. g\<lparr>g_selectorHomingFeedrate_mm_s := d\<rparr>)),
     \<comment> \<open>0x16\<close> read_write (\<lambda>a. u16_of_unit (IdlerHomingFeedrate_deg_s (globals_of a)))
       (\<lambda>d. on_globals (\<lambda>g. g\<lparr>g_idlerHomingFeedrate_deg_s := d\<rparr>)),
     \<comment> \<open>0x17\<close> sg_thrs_register Pulley,
     \<comment> \<open>0x18\<close> sg_thrs_register Selector,
     \<comment> \<open>0x19\<close> sg_thrs_register Idler,
     \<comment> \<open>0x1a\<close> read_only (\<lambda>a. ucast (Pulley_CurrentPosition_mm (a_mmu a))),
     \<comment> \<open>0x1b\<close> read_write (\<lambda>a. ucast (mv_currentSlot (m_movable (a_mmu a) Selector)))
       (\<lambda>d. on_mmu (\<lambda>w. snd (Selector_MoveToSlot (ucast d) w))),
     \<comment> \<open>0x1c\<close> read_write (\<lambda>a. ucast (mv_currentSlot (m_movable (a_mmu a) Idler)))
       (\<lambda>d. on_mmu (\<lambda>w. snd (if d \<ge> ucast toolCount then Idler_Disengage w else Idler_Engage (ucast d) w))),
     \<comment> \<open>0x1d\<close> read_write (\<lambda>a. ucast (g_cutIRunCurrent (globals_of a)))
       (\<lambda>d. on_globals (\<lambda>g. g\<lparr>g_cutIRunCurrent := ucast d\<rparr>)),
     \<comment> \<open>0x1e\<close> irun_register Pulley,
     \<comment> \<open>0x1f\<close> irun_register Selector,
     \<comment> \<open>0x20\<close> irun_register Idler,
     \<comment> \<open>0x21\<close> read_only (\<lambda>_. 225),
     \<comment> \<open>0x22\<close> read_write (\<lambda>a. BowdenLength_Get (m_eeprom (a_mmu a)))
       (\<lambda>d. on_mmu (\<lambda>w. w\<lparr>m_eeprom := BowdenLength_Set d (m_eeprom w)\<rparr>)),
     \<comment> \<open>0x23\<close> read_write (\<lambda>a. u16_of_unit (CutLength_mm (globals_of a)))
       (\<lambda>d. on_globals (\<lambda>g. g\<lparr>g_cutLength_mm := ucast d\<rparr>))]"

definition registersSize :: u8 where "registersSize = 36"

section \<open>Access\<close>

definition ReadRegister_at :: "version \<Rightarrow> u8 \<Rightarrow> App \<Rightarrow> u16 option" where
  "ReadRegister_at v address a =
     (if address \<ge> registersSize then None else Some (fst (registers v ! unat address) a))"

definition WriteRegister_at :: "version \<Rightarrow> u8 \<Rightarrow> u16 \<Rightarrow> App \<Rightarrow> bool \<times> App" where
  "WriteRegister_at v address value a =
     (if address \<ge> registersSize then (False, a)
      else case snd (registers v ! unat address) of
             None \<Rightarrow> (False, a)
           | Some writeFunc \<Rightarrow> (True, writeFunc value a))"

section \<open>The invariant\<close>

lemma registers_length [simp]: "length (registers v) = 36"
  by (simp add: registers_def)

lemma motion_wf_register_ops [mmu_inv]:
  "motion_wf m \<Longrightarrow> motion_wf (Motion_SetAcceleration x n m)"
proof -
  have "pg_wf (c\<lparr>pg_acceleration := n\<rparr>) = pg_wf c" for c
    by (simp add: pg_wf_def queued_def cong: option.case_cong)
  then show "motion_wf m \<Longrightarrow> motion_wf (Motion_SetAcceleration x n m)"
    by (simp add: motion_wf_def Motion_SetAcceleration_def ctrl_def with_ctrl_def)
qed

lemma register_write_wf:
  assumes "r \<in> set (registers v)" "snd r = Some f" "mmu_wf (a_mmu a)"
  shows "mmu_wf (a_mmu (f d a))"
proof -
  have "\<forall>r\<in>set (registers v). \<forall>f. snd r = Some f \<longrightarrow> mmu_wf (a_mmu (f d a))"
    using assms(3)
    by (simp add: registers_def read_only_def read_write_def acceleration_register_def sg_thrs_register_def
        irun_register_def on_globals_def set_globals_def command_wf mmu_wf_mot motion_wf_register_ops motion_wf_frames)
  with assms(1,2) show ?thesis by blast
qed

lemma WriteRegister_at_wf:
  assumes "mmu_wf (a_mmu a)" shows "mmu_wf (a_mmu (snd (WriteRegister_at v n d a)))"
proof -
  have "unat n < 36" if "\<not> n \<ge> registersSize" using that by (simp add: registersSize_def word_le_nat_alt)
  then have "\<not> n \<ge> registersSize \<Longrightarrow> registers v ! unat n \<in> set (registers v)" by simp
  with assms show ?thesis
    by (auto simp: WriteRegister_at_def register_write_wf split: option.split)
qed

lemma WriteRegister_at_frame:
  fixes a :: App
  shows "a_usart (snd (WriteRegister_at v n d a)) = a_usart a"
  "a_currentCommandRq (snd (WriteRegister_at v n d a)) = a_currentCommandRq a"
  "a_resetting (snd (WriteRegister_at v n d a)) = a_resetting a"
  "a_protocol (snd (WriteRegister_at v n d a)) = a_protocol a" "a_buttons (snd (WriteRegister_at v n d a)) = a_buttons a"
proof -
  define same where "same b \<longleftrightarrow> a_usart b = a_usart a \<and> a_currentCommandRq b = a_currentCommandRq a
    \<and> a_resetting b = a_resetting a \<and> a_protocol b = a_protocol a \<and> a_buttons b = a_buttons a" for b :: App
  have "\<forall>r\<in>set (registers v). \<forall>f. snd r = Some f \<longrightarrow> same (f d a)"
    by (simp add: registers_def read_only_def read_write_def acceleration_register_def sg_thrs_register_def
        irun_register_def on_globals_def same_def)
  moreover have "\<not> n \<ge> registersSize \<Longrightarrow> registers v ! unat n \<in> set (registers v)"
    by (simp add: registersSize_def word_le_nat_alt)
  ultimately have "same (snd (WriteRegister_at v n d a))"
    by (auto simp: WriteRegister_at_def same_def split: option.split)
  then show "a_usart (snd (WriteRegister_at v n d a)) = a_usart a"
    "a_currentCommandRq (snd (WriteRegister_at v n d a)) = a_currentCommandRq a"
    "a_resetting (snd (WriteRegister_at v n d a)) = a_resetting a"
    "a_protocol (snd (WriteRegister_at v n d a)) = a_protocol a" "a_buttons (snd (WriteRegister_at v n d a)) = a_buttons a"
    by (simp_all add: same_def)
qed

section \<open>What the registers show\<close>

definition register_values :: "version \<Rightarrow> App \<Rightarrow> u16 list" where
  "register_values v a = map (\<lambda>r. fst r a) (registers v)"

lemma on_globals_reads [simp]:
  "m_eeprom (a_mmu (on_globals f a)) = m_eeprom (a_mmu a)" "m_finda (a_mmu (on_globals f a)) = m_finda (a_mmu a)"
  "m_fsensor (a_mmu (on_globals f a)) = m_fsensor (a_mmu a)" "m_motion (a_mmu (on_globals f a)) = m_motion (a_mmu a)"
  "m_movable (a_mmu (on_globals f a)) = m_movable (a_mmu a)" "current (on_globals f a) = current a"
  "globals_of (on_globals f a) = f (globals_of a)" "m_base (a_mmu (on_globals f a)) = m_base (a_mmu a)"
  "a_tool (on_globals f a) = a_tool a"
  by (simp_all add: on_globals_def set_globals_def)

lemma virtual_reads [simp]:
  "State c (on_globals f a) = State c a" "Error c (on_globals f a) = Error c a"
  "State c (on_mmu (mot g) a) = State c a" "Error c (on_mmu (mot g) a) = Error c a"
  by (intro State_base; simp)+

lemma Pulley_position_reads [simp]:
  "Pulley_CurrentPosition_mm (a_mmu (on_globals f a)) = Pulley_CurrentPosition_mm (a_mmu a)"
  "Pulley_CurrentPosition_mm (mot (SetIRunForAxis x i) w) = Pulley_CurrentPosition_mm w"
  by (simp_all add: Pulley_CurrentPosition_mm_def CurPosition_units_def Motion_CurPosition_def SetIRunForAxis_def ctrl_def)

lemma SetIRunForAxis_reads [simp]:
  "ad_currents (mo_data (SetIRunForAxis x i m) y) =
     (if y = x then (ad_currents (mo_data m x))\<lparr>mc_iRun := i\<rparr> else ad_currents (mo_data m y))"
  "Motion_Acceleration y (SetIRunForAxis x i m) = Motion_Acceleration y m"
  by (simp_all add: SetIRunForAxis_def Motion_Acceleration_def ctrl_def)

lemma quantity_reads [simp]:
  "u16_of_unit (unit_of_u16 d) = d" "u16_of_unit (unit_of_u8 b) = ucast b"
proof -
  show "u16_of_unit (unit_of_u16 d) = d"
    by (simp only: u16_of_unit_def unit_of_u16_def truncate_rat_of_nat) simp
  have "u16_of_unit (unit_of_u8 b) = word_of_int (int (unat b))"
    by (simp only: u16_of_unit_def unit_of_u8_def truncate_rat_of_nat)
  moreover have "unat (word_of_nat (unat b) :: u16) = unat b" using unat_less_256[of b] by (simp add: unat_of_nat del: unat_less_256)
  ultimately show "u16_of_unit (unit_of_u8 b) = ucast b" by (simp add: word_unat_eq_iff)
qed

section \<open>Properties\<close>

definition writable :: "u8 set" where
  "writable = {0x07, 0x09, 0x0b, 0x0c, 0x0d, 0x0e, 0x0f, 0x10, 0x11, 0x12, 0x13, 0x14, 0x15, 0x16, 0x17, 0x18, 0x19,
     0x1b, 0x1c, 0x1d, 0x1e, 0x1f, 0x20, 0x22, 0x23}"

lemma writable_iff:
  assumes "unat n < 36" shows "snd (registers v ! unat n) \<noteq> None \<longleftrightarrow> n \<in> writable"
proof -
  have "map (\<lambda>r. snd r \<noteq> None) (registers v) = map (\<lambda>k. (word_of_nat k :: u8) \<in> writable) [0..<36]"
    by (simp add: registers_def read_only_def read_write_def acceleration_register_def sg_thrs_register_def
        irun_register_def writable_def upt_conv_Cons)
  then have "map (\<lambda>r. snd r \<noteq> None) (registers v) ! unat n = map (\<lambda>k. (word_of_nat k :: u8) \<in> writable) [0..<36] ! unat n"
    by (rule arg_cong)
  then show ?thesis using assms by simp
qed

text \<open>Access to the registers. Exactly the addresses below 36 can be read and exactly the registers with a
  write function can be written; an access that is refused changes nothing. In particular the drive error
  counter at 0x04 cannot be written.\<close>

theorem register_access:
  "(ReadRegister_at v n a = None \<longleftrightarrow> unat n \<ge> 36)
   \<and> fst (WriteRegister_at v n d a) = (n \<in> writable)
   \<and> (n \<in> writable \<or> WriteRegister_at v n d a = (False, a))"
proof -
  have "n \<notin> writable" if "unat n \<ge> 36" using that by (auto simp: writable_def)
  moreover have "n \<ge> registersSize \<longleftrightarrow> unat n \<ge> 36" by (simp add: registersSize_def word_le_nat_alt)
  ultimately show ?thesis
    using writable_iff[of n v] by (auto simp: ReadRegister_at_def WriteRegister_at_def split: option.split)
qed

definition byte_parameters :: "u8 set" where "byte_parameters = {0x0b, 0x0c, 0x1d, 0x1e, 0x1f, 0x20, 0x23}"

definition word_parameters :: "u8 set" where "word_parameters = {0x0d, 0x11, 0x12, 0x13, 0x14, 0x15, 0x16}"

text \<open>C35: a parameter register is a cell. A value written to one of the 14 registers that hold parameters is
  read back, the registers of eight bits keeping the low byte, and no other of the 36 registers
  changes what it shows.\<close>

theorem parameter_registers_roundtrip:
  assumes "n \<in> byte_parameters \<union> word_parameters"
  shows "fst (WriteRegister_at v n d a)
    \<and> register_values v (snd (WriteRegister_at v n d a)) =
        (register_values v a)[unat n := (if n \<in> byte_parameters then d AND 0xff else d)]"
proof -
  have byte: "u16_of_u8 (u8_of_u16 d) = d AND 0xff"
  proof -
    have "(0xff :: u16) = 2 ^ 8 - 1" by simp
    then have "d AND 0xff = take_bit 8 d" by (simp only: take_bit_eq_mask mask_eq_exp_minus_1)
    moreover have "u16_of_u8 (u8_of_u16 d) = take_bit 8 d" by (rule bit_word_eqI) (auto simp: bit_simps)
    ultimately show ?thesis by simp
  qed
  have "n = 0x0b \<or> n = 0x0c \<or> n = 0x1d \<or> n = 0x23 \<or> n = 0x1e \<or> n = 0x1f \<or> n = 0x20
      \<or> n = 0x0d \<or> n = 0x11 \<or> n = 0x12 \<or> n = 0x13 \<or> n = 0x14 \<or> n = 0x15 \<or> n = 0x16"
    using assms unfolding byte_parameters_def word_parameters_def by blast
  then show ?thesis
    by (elim disjE; hypsubst)
      (simp_all add: WriteRegister_at_def register_values_def registers_def read_only_def read_write_def
        acceleration_register_def sg_thrs_register_def irun_register_def registersSize_def byte_parameters_def byte
        CurrentProgressCode_def CurrentErrorCode_def FSensorToNozzle_mm_def FSensorUnloadCheck_mm_def
        PulleyUnloadFeedrate_mm_s_def PulleyLoadFeedrate_mm_s_def SelectorFeedrate_mm_s_def IdlerFeedrate_deg_s_def
        PulleySlowFeedrate_mm_s_def SelectorHomingFeedrate_mm_s_def IdlerHomingFeedrate_deg_s_def CutLength_mm_def)
qed

theorem parameter_registers_roundtrip_witness:
  "register_values \<lparr>v_major = 3, v_minor = 0, v_revision = 3, v_build_number = 0\<rparr>
     (snd (WriteRegister_at \<lparr>v_major = 3, v_minor = 0, v_revision = 3, v_build_number = 0\<rparr> 0x12 45
        (App_new idle_hw blank_eeprom))) ! 0x12 = 45"
  using parameter_registers_roundtrip[of "0x12" "\<lparr>v_major = 3, v_minor = 0, v_revision = 3, v_build_number = 0\<rparr>" 45
      "App_new idle_hw blank_eeprom"]
  by (simp add: byte_parameters_def word_parameters_def) (simp add: register_values_def)

end
