(* ===== verification/Application.thy ===== *)
theory Application
  imports Registers
begin

text \<open>
  The application (\<open>application.cpp\<close>): manual operation with the buttons, planning of commands, answers to the
  requests of the printer, and the step of the main loop.
\<close>

section \<open>Manual operation\<close>

abbreviation idleDelay :: u16 where "idleDelay \<equiv> 1000"

definition start_manually :: "command \<Rightarrow> u8 \<Rightarrow> App \<Rightarrow> App" where
  "start_manually c slot a = set_current c (snd (Reset c slot a))"

text \<open>The times are compared in 16 bits, the width of \<open>int\<close> on the AVR.\<close>

definition CheckManualOperation :: "App \<Rightarrow> App" where
  "CheckManualOperation a =
     (let ms = m_ms (a_mmu a) in
      if ms - m_lastCommandProcessedMs (a_mmu a) < idleDelay then
        if State (current a) a = P_OK then on_mmu (inp UserInput_Clear) a else a
      else
        let a = on_mmu (\<lambda>w. w\<lparr>m_lastCommandProcessedMs := ms - idleDelay\<rparr>) a in
        if State (current a) a = P_OK \<and> filament_loaded (a_mmu a) \<le> AtPulley \<and> AnyEvent (m_userInput (a_mmu a)) then
          let (ev, u) = ConsumeEvent (m_userInput (a_mmu a));
              a = on_mmu (\<lambda>w. w\<lparr>m_userInput := u\<rparr>) a;
              slot = active_slot (a_mmu a)
          in if ev = Ev_Left then if slot > 0 then start_manually moveSelector (slot - 1) a else a
             else if ev = Ev_Middle then if slot < toolCount then start_manually loadFilament slot a else a
             else if ev = Ev_Right then if slot < toolCount then start_manually moveSelector (slot + 1) a else a
             else a
        else a)"

section \<open>Answers\<close>

definition send :: "u8 list \<Rightarrow> App \<Rightarrow> App" where
  "send rsp a = a\<lparr>a_usart := snd (WriteToUSART rsp (a_usart a))\<rparr>"

text \<open>Reporting takes the events that are meant for the printer off the queue.\<close>

definition RunningCommandStatus :: "App \<Rightarrow> ResponseCommandStatus \<times> App" where
  "RunningCommandStatus a =
     (let (ev, a) =
        (if ui_printerInCharge (m_userInput (a_mmu a)) then
           let (ev, u) = ConsumeEventForPrinter (m_userInput (a_mmu a))
           in (ev, on_mmu (\<lambda>w. w\<lparr>m_userInput := u\<rparr>) a)
         else (NoEvent, a));
          e = Error (current a) a
      in if ev \<noteq> NoEvent then (\<lparr>rcs_code = Rp_Button, rcs_value = ucast ev\<rparr>, a)
         else if e = E_RUNNING then
           (\<lparr>rcs_code = Rp_Processing, rcs_value = ucast (progress_byte (State (current a) a))\<rparr>, a)
         else if e = E_OK then
           (\<lparr>rcs_code = Rp_Finished, rcs_value = ucast (result_byte (Result (current a) a))\<rparr>, a)
         else (\<lparr>rcs_code = Rp_Error, rcs_value = e\<rparr>, a))"

definition ReportCommandAccepted :: "RequestMsg \<Rightarrow> ResponseMsgParamCodes \<Rightarrow> App \<Rightarrow> App" where
  "ReportCommandAccepted rq status = send (EncodeResponseCmdAR rq status)"

fun command_for :: "RequestMsgCodes \<Rightarrow> command" where
  "command_for Rq_Cut = cutFilament"
| "command_for Rq_Eject = ejectFilament"
| "command_for Rq_Home = home"
| "command_for Rq_Load = loadFilament"
| "command_for Rq_Tool = toolChange"
| "command_for Rq_Unload = unloadFilament"
| "command_for Rq_Mode = setMode"
| "command_for _ = noCommand"

definition PlanCommand :: "RequestMsg \<Rightarrow> App \<Rightarrow> App" where
  "PlanCommand rq a =
     (if State (current a) a = P_OK then
        let a = set_current (command_for (rq_code rq)) a;
            a = a\<lparr>a_currentCommandRq := rq\<rparr>;
            (accepted, a) = Reset (current a) (rq_value rq) a
        in ReportCommandAccepted rq (if accepted then Rp_Accepted else Rp_Rejected) a
      else ReportCommandAccepted rq Rp_Rejected a)"

definition ReportFINDA :: "RequestMsg \<Rightarrow> App \<Rightarrow> App" where
  "ReportFINDA rq a = send (EncodeResponseReadFINDA rq (if finda_pressed (a_mmu a) then 1 else 0)) a"

definition ReportRunningCommand :: "App \<Rightarrow> App" where
  "ReportRunningCommand a =
     (let (status, a) = RunningCommandStatus a
      in send (EncodeResponseQueryOperation (a_currentCommandRq a) status) a)"

text \<open>The value of a register that does not exist is not used by the encoder.\<close>

definition ReportReadRegister :: "version \<Rightarrow> RequestMsg \<Rightarrow> App \<Rightarrow> App" where
  "ReportReadRegister v rq a =
     (case ReadRegister_at v (rq_value rq) a of
        None \<Rightarrow> send (EncodeResponseRead rq False 0) a
      | Some value2 \<Rightarrow> send (EncodeResponseRead rq True value2) a)"

definition ReportWriteRegister :: "version \<Rightarrow> RequestMsg \<Rightarrow> App \<Rightarrow> App" where
  "ReportWriteRegister v rq a =
     (let (ok, a) = WriteRegister_at v (rq_value rq) (rq_value2 rq) a
      in send (EncodeResponseCmdAR rq (if ok then Rp_Accepted else Rp_Rejected)) a)"

section \<open>Reset\<close>

text \<open>The light show before a reset of the EEPROM, without the delays between its steps.\<close>

definition EEPROMResetVis_Green :: "nat \<Rightarrow> LEDs \<Rightarrow> LEDs" where
  "EEPROMResetVis_Green i = SetPairButOffOthers (word_of_nat i) LedOn LedOff"

definition EEPROMResetVis_Red :: "nat \<Rightarrow> LEDs \<Rightarrow> LEDs" where
  "EEPROMResetVis_Red i = SetPairButOffOthers (word_of_nat i) LedOff LedOn"

definition EEPROMResetVis_Run :: "LEDs \<Rightarrow> LEDs" where
  "EEPROMResetVis_Run l =
     fold (\<lambda>i l. EEPROMResetVis_Red i (EEPROMResetVis_Green i l)) (rev [1..<Suc (unat toolCount)])
       (fold (\<lambda>i l. EEPROMResetVis_Green i (EEPROMResetVis_Red i l)) [0..<unat toolCount] l)"

definition ProcessReset :: "u8 \<Rightarrow> App \<Rightarrow> App" where
  "ProcessReset resetType a =
     (let a = (if resetType = 42 then
                 on_mmu (\<lambda>w. led EEPROMResetVis_Run (w\<lparr>m_eeprom := EraseAll (m_eeprom w)\<rparr>)) a
               else a)
      in a\<lparr>a_resetting := True\<rparr>)"

section \<open>Messages and the step\<close>

definition ProcessRequestMsg :: "version \<Rightarrow> RequestMsg \<Rightarrow> App \<Rightarrow> App" where
  "ProcessRequestMsg v rq a =
     (case rq_code rq of
        Rq_Button \<Rightarrow>
          ReportCommandAccepted rq Rp_Accepted (on_mmu (inp (UserInput_ProcessMessage (rq_value rq))) a)
      | Rq_Finda \<Rightarrow> ReportFINDA rq a
      | Rq_Query \<Rightarrow> ReportRunningCommand a
      | Rq_Reset \<Rightarrow> ProcessReset (rq_value rq) a
      | Rq_Version \<Rightarrow> ReportReadRegister v rq a
      | Rq_Read \<Rightarrow> ReportReadRegister v rq a
      | Rq_Write \<Rightarrow> ReportWriteRegister v rq a
      | Rq_Cut \<Rightarrow> PlanCommand rq a
      | Rq_Eject \<Rightarrow> PlanCommand rq a
      | Rq_Home \<Rightarrow> PlanCommand rq a
      | Rq_Load \<Rightarrow> PlanCommand rq a
      | Rq_Mode \<Rightarrow> PlanCommand rq a
      | Rq_Tool \<Rightarrow> PlanCommand rq a
      | Rq_Unload \<Rightarrow> PlanCommand rq a
      | Rq_FilamentSensor \<Rightarrow>
          ReportCommandAccepted rq Rp_Accepted
            (on_mmu (\<lambda>w. w\<lparr>m_fsensor := FSensor_ProcessMessage (rq_value rq \<noteq> 0) (m_fsensor w)\<rparr>) a)
      | _ \<Rightarrow> a)"

text \<open>The loop over the received bytes ends at a complete message, or when no byte is left.\<close>

function CheckMsgs :: "Protocol \<Rightarrow> USART \<Rightarrow> bool \<times> Protocol \<times> USART" where
  "CheckMsgs p u =
     (if Available u then
        let (c, u) = ConsumeByte u;
            (status, p) = DecodeRequest p c
        in if status = MessageCompleted then (True, p, u) else CheckMsgs p u
      else (False, p, u))"
  by pat_completeness auto

definition rx_count :: "USART \<Rightarrow> nat" where "rx_count u = unat (CB_count uart_buffer_size (us_rx_buf u))"

lemma rx_count_Read:
  assumes "Available u" shows "rx_count (snd (ConsumeByte u)) < rx_count u"
proof -
  let ?i = "cb_index (us_rx_buf u)"
  have p2: "size_is_power2 uart_buffer_size" by (simp add: size_is_power2_def uart_buffer_size_def)
  have ne: "ci_tail ?i \<noteq> ci_head ?i"
    using assms by (simp add: Available_def ReadEmpty_def CB_empty_def CI_empty_def)
  have "rx_count (snd (ConsumeByte u)) = unat (ci_head ?i - ci_tail ?i - 1)"
    using ne p2 by (simp add: rx_count_def ConsumeByte_def USART_Read_def CB_pop_def CB_empty_def CI_empty_def
        CB_count_def CI_count_def CI_pop_def next_cursor_def Let_def diff_diff_eq)
  moreover have "rx_count u = unat (ci_head ?i - ci_tail ?i)"
    using p2 by (simp add: rx_count_def CB_count_def CI_count_def)
  moreover have "ci_head ?i - ci_tail ?i \<noteq> 0" using ne by simp
  ultimately show ?thesis by (simp add: unat_gt_0 unat_minus_one)
qed

termination CheckMsgs
  by (relation "measure (rx_count \<circ> snd)") (use rx_count_Read in \<open>auto simp: prod_eq_iff\<close>)

definition Application_Step :: "version \<Rightarrow> App \<Rightarrow> App" where
  "Application_Step v a =
     (let a = CheckManualOperation a;
          (completed, p, u) = CheckMsgs (a_protocol a) (a_usart a);
          a = a\<lparr>a_protocol := p, a_usart := u\<rparr>;
          a = (if completed then ProcessRequestMsg v (requestMsg p) a else a)
      in if a_resetting a then a else snd (Command_Step (current a) a))"

text \<open>The way back of the light show starts behind the last pair of LEDs, and a write behind the array stays recorded.\<close>

lemma leds_oob_mono:
  "leds_oob s \<Longrightarrow> leds_oob (EEPROMResetVis_Green i s)" "leds_oob s \<Longrightarrow> leds_oob (EEPROMResetVis_Red i s)"
proof -
  have m: "leds_oob s \<Longrightarrow> leds_oob (LEDs_SetMode sl c md s)" for sl c md s
    by (simp add: LEDs_SetMode_def LEDs_SetMode_index_def)
  have "leds_oob s \<Longrightarrow> leds_oob (fold (\<lambda>i s. LEDs_SetMode (word_of_nat i) red LedOff (LEDs_SetMode (word_of_nat i) green LedOff s)) xs s)"
    for xs s by (induction xs arbitrary: s) (simp_all add: m)
  then have "leds_oob s \<Longrightarrow> leds_oob (SetPairButOffOthers sl g r s)" for sl g r
    by (simp add: SetPairButOffOthers_def LEDs_SetAllOff_def m)
  then show "leds_oob s \<Longrightarrow> leds_oob (EEPROMResetVis_Green i s)" "leds_oob s \<Longrightarrow> leds_oob (EEPROMResetVis_Red i s)"
    by (simp_all add: EEPROMResetVis_Green_def EEPROMResetVis_Red_def)
qed

lemma EEPROMResetVis_overrun:
  assumes "length (leds_leds s) = 10" shows "leds_oob (EEPROMResetVis_Run s)"
proof -
  define t where "t = fold (\<lambda>i l. EEPROMResetVis_Green i (EEPROMResetVis_Red i l)) [0..<5] s"
  have "length (leds_leds t) = 10"
    using assms by (simp add: t_def leds_length_fold EEPROMResetVis_Red_def EEPROMResetVis_Green_def)
  then have "leds_oob (EEPROMResetVis_Green 5 t)"
    by (simp add: EEPROMResetVis_Green_def SetPairButOffOthers_oob toolCount_def)
  then have "leds_oob (EEPROMResetVis_Red 5 (EEPROMResetVis_Green 5 t))" by (rule leds_oob_mono(2))
  moreover have "leds_oob l \<Longrightarrow> leds_oob (fold (\<lambda>i l. EEPROMResetVis_Red i (EEPROMResetVis_Green i l)) xs l)" for xs l
    by (induction xs arbitrary: l) (simp_all add: leds_oob_mono)
  moreover have "rev [1..<Suc 5] = 5 # rev [1..<5::nat]" by (simp add: upt_conv_Cons)
  moreover have "unat toolCount = 5" by (simp add: toolCount_def)
  ultimately show ?thesis
    unfolding EEPROMResetVis_Run_def t_def[symmetric] by (simp del: upt_Suc flip: t_def)
qed

section \<open>The invariant\<close>

text \<open>
  The machine, the line and the decoder are consistent, there are three buttons, and the request by which
  answers to queries are identified is one that was decoded without error.
\<close>

definition app_wf :: "App \<Rightarrow> bool" where
  "app_wf a \<longleftrightarrow> mmu_wf (a_mmu a) \<and> usart_wf (a_usart a) \<and> request_wf (a_protocol a) \<and> length (a_buttons a) = 3
     \<and> rq_code (a_currentCommandRq a) \<noteq> Rq_unknown \<and> rq_value2 (a_currentCommandRq a) = 0"

lemma app_wf_new: "app_wf (App_new h e)"
  using USART_new_wf
  by (simp add: app_wf_def App_new_def mmu_wf_new Buttons_new_def buttonCount_def RequestMsg_new_def Let_def)

lemma app_wf_on_mmu: "app_wf a \<Longrightarrow> mmu_wf (f (a_mmu a)) \<Longrightarrow> app_wf (on_mmu f a)"
  by (simp add: app_wf_def)

lemma app_wf_set_current: "app_wf (set_current c a) = app_wf a"
  by (simp add: app_wf_def)

lemma app_wf_virtual:
  "app_wf a \<Longrightarrow> app_wf (snd (Reset c p a))" "app_wf a \<Longrightarrow> app_wf (snd (Command_Step c a))"
  by (simp_all add: app_wf_def Reset_wf Command_Step_wf)

lemma send_wf: "app_wf a \<Longrightarrow> app_wf (send rsp a)"
  using WriteToUSART_facts[of "a_usart a" rsp] by (simp add: app_wf_def send_def prod_eq_iff)

lemma start_manually_wf: "app_wf a \<Longrightarrow> app_wf (start_manually c slot a)"
  by (simp add: start_manually_def app_wf_set_current app_wf_virtual)

lemma take_event_wf:
  assumes "app_wf a" shows "app_wf (on_mmu (\<lambda>w. w\<lparr>m_userInput := snd (ConsumeEvent (m_userInput w))\<rparr>) a)"
    "app_wf (on_mmu (\<lambda>w. w\<lparr>m_userInput := snd (ConsumeEventForPrinter (m_userInput w))\<rparr>) a)"
  using assms by (simp_all add: app_wf_def mmu_wf_def ConsumeEvent_wf ConsumeEventForPrinter_wf)

lemma CheckManualOperation_wf:
  assumes "app_wf a" shows "app_wf (CheckManualOperation a)"
proof -
  define b where "b = on_mmu (\<lambda>w. w\<lparr>m_lastCommandProcessedMs := m_ms (a_mmu a) - idleDelay\<rparr>) a"
  define c where "c = on_mmu (\<lambda>w. w\<lparr>m_userInput := snd (ConsumeEvent (m_userInput (a_mmu b)))\<rparr>) b"
  have b: "app_wf b" using assms by (simp add: b_def app_wf_on_mmu app_wf_def)
  have "c = on_mmu (\<lambda>w. w\<lparr>m_userInput := snd (ConsumeEvent (m_userInput w))\<rparr>) b" by (simp add: c_def on_mmu_def)
  then have c: "app_wf c" using take_event_wf(1)[OF b] by simp
  have "app_wf (on_mmu (inp UserInput_Clear) a)"
    using assms by (intro app_wf_on_mmu) (simp_all add: app_wf_def mmu_wf_inp UserInput_Clear_wf)
  with assms b c show ?thesis
    unfolding CheckManualOperation_def Let_def b_def[symmetric] case_prod_beta c_def[symmetric]
    by (simp add: start_manually_wf)
qed

lemma RunningCommandStatus_wf: "app_wf a \<Longrightarrow> app_wf (snd (RunningCommandStatus a))"
proof -
  assume a: "app_wf a"
  define b where "b = on_mmu (\<lambda>w. w\<lparr>m_userInput := snd (ConsumeEventForPrinter (m_userInput (a_mmu a)))\<rparr>) a"
  have "b = on_mmu (\<lambda>w. w\<lparr>m_userInput := snd (ConsumeEventForPrinter (m_userInput w))\<rparr>) a"
    by (simp add: b_def on_mmu_def)
  then have "app_wf b" using take_event_wf(2)[OF a] by simp
  with a show ?thesis
    by (simp add: RunningCommandStatus_def Let_def case_prod_beta flip: b_def)
qed

lemma ReportCommandAccepted_wf: "app_wf a \<Longrightarrow> app_wf (ReportCommandAccepted rq st a)"
  by (simp add: ReportCommandAccepted_def send_wf)

lemma PlanCommand_wf:
  assumes "app_wf a" "rq_code rq \<noteq> Rq_unknown" "rq_value2 rq = 0"
  shows "app_wf (PlanCommand rq a)"
proof -
  define b where "b = (set_current (command_for (rq_code rq)) a)\<lparr>a_currentCommandRq := rq\<rparr>"
  have "app_wf b" using assms by (simp add: b_def app_wf_def)
  with assms(1) show ?thesis
    by (simp add: PlanCommand_def Let_def case_prod_beta ReportCommandAccepted_wf app_wf_virtual flip: b_def)
qed

lemma ProcessReset_wf: "app_wf a \<Longrightarrow> app_wf (ProcessReset t a)"
proof -
  have "length (leds_leds (EEPROMResetVis_Run l)) = length (leds_leds l)" for l
    by (simp add: EEPROMResetVis_Run_def leds_length_fold EEPROMResetVis_Red_def EEPROMResetVis_Green_def)
  then show "app_wf a \<Longrightarrow> app_wf (ProcessReset t a)"
    by (simp add: ProcessReset_def Let_def app_wf_def mmu_wf_led)
qed

lemma WriteRegister_wf: "app_wf a \<Longrightarrow> app_wf (snd (WriteRegister_at v n d a))"
  by (simp add: app_wf_def WriteRegister_at_wf WriteRegister_at_frame)

lemma ReportWriteRegister_wf: "app_wf a \<Longrightarrow> app_wf (ReportWriteRegister v rq a)"
  by (simp add: ReportWriteRegister_def case_prod_beta Let_def send_wf WriteRegister_wf)

lemma ProcessRequestMsg_wf:
  assumes "app_wf a" "rq_code rq = Rq_unknown \<or> request_accepted rq"
  shows "app_wf (ProcessRequestMsg v rq a)"
proof -
  have "app_wf (on_mmu (inp (UserInput_ProcessMessage x)) a)"
    "app_wf (on_mmu (\<lambda>w. w\<lparr>m_fsensor := FSensor_ProcessMessage y (m_fsensor w)\<rparr>) a)" for x y
    using assms(1) by (simp_all add: app_wf_def mmu_wf_inp UserInput_ProcessMessage_wf)
  moreover have "app_wf (ReportRunningCommand a)"
    using RunningCommandStatus_wf[OF assms(1)] by (simp add: ReportRunningCommand_def case_prod_beta Let_def send_wf)
  moreover have "app_wf (ReportReadRegister v rq a)"
    using assms(1) by (simp add: ReportReadRegister_def send_wf split: option.split)
  ultimately show ?thesis
    using assms
    by (cases "rq_code rq")
      (simp_all add: ProcessRequestMsg_def ReportCommandAccepted_wf ReportFINDA_def send_wf ProcessReset_wf
        ReportWriteRegister_wf PlanCommand_wf request_accepted_def)
qed

text \<open>
  Reading messages: the decoder stays consistent, nothing is sent, and a message is taken as complete only if
  it was marked unknown or passed the checks of the decoder.
\<close>

declare CheckMsgs.simps [simp del]

lemma CheckMsgs_facts:
  assumes "request_wf p" "usart_wf u" "CheckMsgs p u = (completed, p', u')"
  shows "request_wf p' \<and> usart_wf u' \<and> sent u' = sent u \<and> room u' = room u
    \<and> (completed \<longrightarrow> rq_code (requestMsg p') = Rq_unknown \<or> request_accepted (requestMsg p'))
    \<and> (\<not> completed \<longrightarrow> received u' = [])"
  using assms
proof (induction p u rule: CheckMsgs.induct)
  case (1 p u)
  show ?case
  proof (cases "received u")
    case Nil
    with 1(3,4) Available_iff[OF 1(3)] 1(2) show ?thesis by (simp add: CheckMsgs.simps[of p u])
  next
    case (Cons c cs)
    then have av: "Available u" using Available_iff[OF 1(3)] by simp
    obtain v where v: "ConsumeByte u = (c, v)" "usart_wf v" "sent v = sent u" "room v = room u" "received v = cs"
      using ConsumeByte_facts[OF 1(3) Cons] by (metis prod.collapse)
    obtain st q where q: "DecodeRequest p c = (st, q)" by fastforce
    have qw: "request_wf q" using request_wf_step[OF 1(2), of c] q by simp
    show ?thesis
    proof (cases "st = MessageCompleted")
      case True
      then have "(completed, p', u') = (True, q, v)" using 1(4) av v(1) q by (simp add: CheckMsgs.simps[of p u])
      moreover have "rq_code (requestMsg q) = Rq_unknown \<or> request_accepted (requestMsg q)"
        using request_wf_completed(3,4)[OF 1(2), of c] q True by simp
      ultimately show ?thesis using v qw by simp
    next
      case False
      then have "CheckMsgs q v = (completed, p', u')" using 1(4) av v(1) q by (simp add: CheckMsgs.simps[of p u])
      with 1(1)[OF av, of "(c, v)" c v "(st, q)" st q] v q qw False show ?thesis by auto
    qed
  qed
qed

text \<open>A line of the decoder's language at the head of the buffer is read up to its end.\<close>

lemma CheckMsgs_line:
  assumes "usart_wf u" "received u = line @ rest"
    "decode_requests p line = (replicate n NeedMoreData @ [MessageCompleted], p')"
  shows "\<exists>u'. CheckMsgs p u = (True, p', u') \<and> usart_wf u' \<and> received u' = rest
    \<and> sent u' = sent u \<and> room u' = room u"
  using assms
proof (induction line arbitrary: p u n)
  case Nil
  then show ?case by simp
next
  case (Cons c cs)
  from Cons.prems(2) have r: "received u = c # (cs @ rest)" by simp
  then have av: "Available u" using Available_iff[OF Cons.prems(1)] by simp
  obtain v where v: "ConsumeByte u = (c, v)" "usart_wf v" "sent v = sent u" "room v = room u" "received v = cs @ rest"
    using ConsumeByte_facts[OF Cons.prems(1) r] by (metis prod.collapse)
  obtain st q where q: "DecodeRequest p c = (st, q)" by fastforce
  obtain sts q' where q': "decode_requests q cs = (sts, q')" by fastforce
  have e: "st # sts = replicate n NeedMoreData @ [MessageCompleted]" "q' = p'"
    using Cons.prems(3) by (simp_all add: run_decoder_Cons q q' del: run_decoder.simps)
  have len: "length sts = length cs" using length_run_decoder[of DecodeRequest q cs] q' by simp
  show ?case
  proof (cases n)
    case 0
    with e have "st = MessageCompleted" "sts = []" by auto
    with len have "cs = []" by simp
    with q' e(2) \<open>sts = []\<close> have "q = p'" by simp
    with \<open>st = MessageCompleted\<close> \<open>cs = []\<close> v q av show ?thesis by (simp add: CheckMsgs.simps[of p u])
  next
    case (Suc k)
    with e have st: "st = NeedMoreData" "sts = replicate k NeedMoreData @ [MessageCompleted]" by auto
    have "\<exists>u'. CheckMsgs q v = (True, p', u') \<and> usart_wf u' \<and> received u' = rest
        \<and> sent u' = sent v \<and> room u' = room v"
      using Cons.IH[OF v(2,5)] q' e(2) st(2) by simp
    then show ?thesis using st(1) v q av by (simp add: CheckMsgs.simps[of p u])
  qed
qed

lemma Application_Step_wf:
  assumes "app_wf a" shows "app_wf (Application_Step v a)"
proof -
  define b where "b = CheckManualOperation a"
  have b: "app_wf b" using CheckManualOperation_wf[OF assms] by (simp add: b_def)
  obtain completed p u where c: "CheckMsgs (a_protocol b) (a_usart b) = (completed, p, u)" by (metis prod_cases3)
  define d where "d = b\<lparr>a_protocol := p, a_usart := u\<rparr>"
  have facts: "request_wf p" "usart_wf u"
    "completed \<Longrightarrow> rq_code (requestMsg p) = Rq_unknown \<or> request_accepted (requestMsg p)"
    using CheckMsgs_facts[OF _ _ c] b by (simp_all add: app_wf_def)
  then have "app_wf d" using b by (simp add: app_wf_def d_def)
  moreover define e where "e = (if completed then ProcessRequestMsg v (requestMsg p) d else d)"
  ultimately have "app_wf e" using facts(3) by (simp add: ProcessRequestMsg_wf)
  then show ?thesis
    unfolding Application_Step_def Let_def b_def[symmetric] c prod.case d_def[symmetric] e_def[symmetric]
    by (simp add: app_wf_virtual)
qed

end
