(* ===== verification/Requests.thy ===== *)
theory Requests
  imports Application
begin

text \<open>
  What the printer can rely on when it talks to the application: every request gets one line as answer, a line
  in the receive buffer reaches the application as the message it encodes, commands are refused while another
  one is running, and requests that only ask leave the machine alone.
\<close>

section \<open>Answers\<close>

text \<open>A line that the printer decodes to the request \<open>rq\<close> and one of the given parameter codes.\<close>

definition answer_to :: "RequestMsg \<Rightarrow> ResponseMsgParamCodes set \<Rightarrow> u8 list \<Rightarrow> bool" where
  "answer_to rq codes line \<longleftrightarrow> length line \<le> MaxResponseSize
     \<and> (\<exists>rsp. (\<forall>p. response_decoded p line rsp) \<and> rq_code (rsp_request rsp) = rq_code rq
          \<and> rq_value (rsp_request rsp) = rq_value rq \<and> rsp_paramCode rsp \<in> codes)"

lemma ResponseMsg_new_fields [simp]:
  "rq_code (rsp_request (ResponseMsg_new m pc v)) = rq_code m"
  "rq_value (rsp_request (ResponseMsg_new m pc v)) = rq_value m"
  "rsp_paramCode (ResponseMsg_new m pc v) = pc"
  by (simp_all add: ResponseMsg_new_def Let_def)

lemma RequestMsg_new_fields [simp]:
  "rq_code (RequestMsg_new c v) = c" "rq_value (RequestMsg_new c v) = v" "rq_value2 (RequestMsg_new c v) = 0"
  by (simp_all add: RequestMsg_new_def Let_def)

lemma CmdAR_answer:
  assumes "rq_code m \<noteq> Rq_unknown" "ar \<in> codes" "ar \<noteq> Rp_unknown"
  shows "answer_to m codes (EncodeResponseCmdAR m ar)"
proof -
  have "EncodeResponseCmdAR m ar = EncodeResponseCmdAR (RequestMsg_new (rq_code m) (rq_value m)) ar"
    by (simp add: EncodeResponseCmdAR_def)
  moreover have "response_decoded p (EncodeResponseCmdAR (RequestMsg_new (rq_code m) (rq_value m)) ar)
      (ResponseMsg_new (RequestMsg_new (rq_code m) (rq_value m)) ar 0)" for p
    using responses_decoded[of "RequestMsg_new (rq_code m) (rq_value m)" ar "\<lparr>rcs_code = Rp_Error, rcs_value = 0\<rparr>" p]
      assms by simp
  ultimately show ?thesis
    using encoded_sizes assms unfolding answer_to_def
    by (intro conjI exI[of _ "ResponseMsg_new (RequestMsg_new (rq_code m) (rq_value m)) ar 0"]) simp_all
qed

lemma Query_answer:
  assumes "rq_code m \<noteq> Rq_unknown" "rq_value2 m = 0" "rcs_code rcs \<in> codes" "rcs_code rcs \<noteq> Rp_unknown"
  shows "answer_to m codes (EncodeResponseQueryOperation m rcs)"
  using responses_decoded[OF assms(1,2) assms(4) assms(4)] encoded_sizes assms(3) unfolding answer_to_def
  by (intro conjI exI[of _ "ResponseMsg_new m (rcs_code rcs) (rcs_value rcs)"]) simp_all

lemma Read_answer:
  assumes "rq_code m \<noteq> Rq_unknown" "rq_value2 m = 0" "{Rp_Accepted, Rp_Rejected} \<subseteq> codes"
  shows "answer_to m codes (EncodeResponseRead m accepted v)"
  using responses_decoded[OF assms(1,2), of Rp_Error "\<lparr>rcs_code = Rp_Error, rcs_value = 0\<rparr>" _ accepted v]
    encoded_sizes assms(3) unfolding answer_to_def
  by (intro conjI exI[of _ "ResponseMsg_new m (if accepted then Rp_Accepted else Rp_Rejected)
        (if accepted then v else 0)"]) (auto simp del: encoded_sizes)

lemma FINDA_answer:
  "rq_code m \<noteq> Rq_unknown \<Longrightarrow> rq_value2 m = 0 \<Longrightarrow> {Rp_Accepted, Rp_Rejected} \<subseteq> codes
     \<Longrightarrow> answer_to m codes (EncodeResponseReadFINDA m f)"
  by (simp add: EncodeResponseReadFINDA_def Read_answer)

text \<open>The code of the status the MMU reports.\<close>

lemma RunningCommandStatus_code:
  "rcs_code (fst (RunningCommandStatus a)) \<in> {Rp_Button, Rp_Processing, Rp_Finished, Rp_Error}"
  "a_usart (snd (RunningCommandStatus a)) = a_usart a"
  "a_currentCommandRq (snd (RunningCommandStatus a)) = a_currentCommandRq a"
  by (simp_all add: RunningCommandStatus_def Let_def case_prod_beta)

text \<open>What has been sent grows by the line, if there is room for it.\<close>

definition answers :: "App \<Rightarrow> u8 list \<Rightarrow> App \<Rightarrow> bool" where
  "answers a line a' \<longleftrightarrow> sent (a_usart a') = sent (a_usart a) @ line"

lemma send_answers:
  assumes "usart_wf (a_usart a)" "length line \<le> room (a_usart a)" "a_usart b = a_usart a"
  shows "answers a line (send line b)"
  using WriteToUSART_facts[of "a_usart a" line] assms
  by (simp add: answers_def send_def prod_eq_iff)

lemma PlanCommand_answer:
  "\<exists>b ar. PlanCommand rq a = send (EncodeResponseCmdAR rq ar) b \<and> a_usart b = a_usart a
     \<and> ar \<in> {Rp_Accepted, Rp_Rejected}"
proof (cases "State (current a) a = P_OK")
  case True
  define b where "b = (set_current (command_for (rq_code rq)) a)\<lparr>a_currentCommandRq := rq\<rparr>"
  show ?thesis using True
    by (intro exI[of _ "snd (Reset (current b) (rq_value rq) b)"]
          exI[of _ "if fst (Reset (current b) (rq_value rq) b) then Rp_Accepted else Rp_Rejected"])
       (simp add: PlanCommand_def ReportCommandAccepted_def Let_def case_prod_beta b_def)
next
  case False
  then show ?thesis
    by (intro exI[of _ a] exI[of _ Rp_Rejected]) (simp add: PlanCommand_def ReportCommandAccepted_def)
qed

text \<open>Every request but two is answered by a line.\<close>

lemma ProcessRequestMsg_answer:
  assumes "app_wf a" "MaxResponseSize \<le> room (a_usart a)" "request_accepted rq"
    "rq_code rq \<notin> {Rq_FilamentType, Rq_Reset}"
  obtains line where "answers a line (ProcessRequestMsg v rq a)"
    "if rq_code rq = Rq_Query
     then answer_to (a_currentCommandRq a) {Rp_Button, Rp_Processing, Rp_Finished, Rp_Error} line
     else answer_to rq {Rp_Accepted, Rp_Rejected} line"
proof -
  have wf: "usart_wf (a_usart a)" and cur: "rq_code (a_currentCommandRq a) \<noteq> Rq_unknown" "rq_value2 (a_currentCommandRq a) = 0"
    using assms(1) by (simp_all add: app_wf_def)
  have code: "rq_code rq \<noteq> Rq_unknown" and v2: "rq_code rq \<noteq> Rq_Write \<Longrightarrow> rq_value2 rq = 0"
    using assms(3) by (auto simp: request_accepted_def)
  define ok where "ok line = (if rq_code rq = Rq_Query
     then answer_to (a_currentCommandRq a) {Rp_Button, Rp_Processing, Rp_Finished, Rp_Error} line
     else answer_to rq {Rp_Accepted, Rp_Rejected} line)" for line
  have "\<exists>line b. ProcessRequestMsg v rq a = send line b \<and> a_usart b = a_usart a \<and> ok line"
  proof (cases "rq_code rq = Rq_Query")
    case True
    define st b where "st = fst (RunningCommandStatus a)" and "b = snd (RunningCommandStatus a)"
    have "ProcessRequestMsg v rq a = send (EncodeResponseQueryOperation (a_currentCommandRq a) st) b"
      using True RunningCommandStatus_code(3)[of a]
      by (simp add: ProcessRequestMsg_def ReportRunningCommand_def case_prod_beta Let_def st_def b_def)
    moreover have "ok (EncodeResponseQueryOperation (a_currentCommandRq a) st)"
      unfolding ok_def using True RunningCommandStatus_code(1)[of a] by (auto intro!: Query_answer cur simp: st_def)
    moreover have "a_usart b = a_usart a" using RunningCommandStatus_code(2) by (simp add: b_def)
    ultimately show ?thesis by blast
  next
    case False
    have ar: "ok (EncodeResponseCmdAR rq ar)" if "ar \<in> {Rp_Accepted, Rp_Rejected}" for ar
      unfolding ok_def using False code that by (auto intro!: CmdAR_answer)
    have plan: "\<exists>line b. PlanCommand rq a = send line b \<and> a_usart b = a_usart a \<and> ok line"
      using PlanCommand_answer[of rq a] ar by blast
    have read: "ok (EncodeResponseRead rq acc x)" "ok (EncodeResponseReadFINDA rq f)" if "rq_code rq \<noteq> Rq_Write" for acc x f
      unfolding ok_def using False code v2[OF that] by (auto intro!: Read_answer FINDA_answer)
    have report: "\<exists>line b. ReportReadRegister v rq a = send line b \<and> a_usart b = a_usart a \<and> ok line"
      if "rq_code rq \<noteq> Rq_Write"
      using read(1)[OF that] by (cases "ReadRegister_at v (rq_value rq) a") (auto simp: ReportReadRegister_def)
    have wr: "\<exists>line b. ReportWriteRegister v rq a = send line b \<and> a_usart b = a_usart a \<and> ok line"
      using ar WriteRegister_at_frame(1)[of v "rq_value rq" "rq_value2 rq" a]
      by (intro exI[of _ "EncodeResponseCmdAR rq (if fst (WriteRegister_at v (rq_value rq) (rq_value2 rq) a) then Rp_Accepted else Rp_Rejected)"]
          exI[of _ "snd (WriteRegister_at v (rq_value rq) (rq_value2 rq) a)"])
        (simp add: ReportWriteRegister_def case_prod_beta Let_def)
    show ?thesis
      using assms(4) code False plan report wr read(2) ar
      by (cases "rq_code rq")
        (simp_all add: ProcessRequestMsg_def ReportCommandAccepted_def ReportFINDA_def, (metis on_mmu_frame(2))+)
  qed
  then obtain line b where l: "ProcessRequestMsg v rq a = send line b" "a_usart b = a_usart a" "ok line" by blast
  then have "length line \<le> room (a_usart a)"
    using assms(2) by (auto simp: ok_def answer_to_def split: if_splits)
  from send_answers[OF wf this l(2)] l(1,3) show ?thesis using that by (simp add: ok_def)
qed

lemma ProcessRequestMsg_silent:
  "rq_code rq \<in> {Rq_unknown, Rq_FilamentType, Rq_Reset} \<Longrightarrow> a_usart (ProcessRequestMsg v rq a) = a_usart a"
  by (auto simp: ProcessRequestMsg_def ProcessReset_def Let_def)

section \<open>From bytes to messages\<close>

lemma CheckManualOperation_frame [simp]:
  "a_usart (CheckManualOperation a) = a_usart a" "a_protocol (CheckManualOperation a) = a_protocol a"
  "a_resetting (CheckManualOperation a) = a_resetting a"
  "a_currentCommandRq (CheckManualOperation a) = a_currentCommandRq a"
  by (simp_all add: CheckManualOperation_def start_manually_def Let_def case_prod_beta)

text \<open>The line of a request.\<close>

definition request_line :: "RequestMsg \<Rightarrow> u8 list" where
  "request_line m =
     (if rq_code m = Rq_Write then EncodeWriteRequest (rq_value m) (rq_value2 m) else EncodeRequest m)"

lemma decode_request_line:
  assumes "rqState p = Rqs_Code" "request_accepted m"
  shows "\<exists>n. decode_requests p (request_line m) =
    (replicate n NeedMoreData @ [MessageCompleted], p\<lparr>requestMsg := m, rqState := Rqs_Code\<rparr>)"
proof (cases "rq_code m = Rq_Write")
  case True
  have "RequestMsg_ComputeCRC8 (m\<lparr>rq_crc8 := 0\<rparr>) = RequestMsg_ComputeCRC8 m"
    by (simp add: RequestMsg_ComputeCRC8_def)
  moreover have "m\<lparr>rq_crc8 := 0\<rparr> = \<lparr>rq_code = Rq_Write, rq_value = rq_value m, rq_value2 = rq_value2 m, rq_crc8 = 0\<rparr>"
    using True by simp
  ultimately have "RequestMsg_new_write Rq_Write (rq_value m) (rq_value2 m) = m"
    using True assms(2) by (simp add: RequestMsg_new_write_def request_accepted_def)
  with decode_EncodeWriteRequest[OF assms(1), of "rq_value m" "rq_value2 m"] True show ?thesis
    by (intro exI) (simp add: request_line_def)
next
  case False
  then have "m = m\<lparr>rq_value2 := 0\<rparr>" "rq_code m \<notin> {Rq_unknown, Rq_Write}" "rq_crc8 m = RequestMsg_ComputeCRC8 m"
    using assms(2) by (simp_all add: request_accepted_def)
  with decode_EncodeRequest[OF assms(1) this(2,1)] False show ?thesis
    by (intro exI) (simp add: request_line_def)
qed

text \<open>Bytes that arrive through the receive interrupt are in the buffer afterwards if they fit.\<close>

definition receive :: "u8 list \<Rightarrow> App \<Rightarrow> App" where
  "receive line a = a\<lparr>a_usart := fold (ISR_RX False) line (a_usart a)\<rparr>"

lemma receive_facts:
  assumes "usart_wf u" "length (received u) + length line \<le> 32"
  shows "usart_wf (fold (ISR_RX False) line u) \<and> received (fold (ISR_RX False) line u) = received u @ line
    \<and> sent (fold (ISR_RX False) line u) = sent u \<and> room (fold (ISR_RX False) line u) = room u"
  using assms
proof (induction line arbitrary: u)
  case (Cons c line)
  have "usart_wf (ISR_RX False c u)" "received (ISR_RX False c u) = received u @ [c]"
    "sent (ISR_RX False c u) = sent u" "room (ISR_RX False c u) = room u"
    using ISR_RX_facts[OF Cons.prems(1), of False c] Cons.prems(2) by simp_all
  with Cons.IH[of "ISR_RX False c u"] Cons.prems(2) show ?case by simp
qed simp

lemma receive_frame [simp]:
  "a_mmu (receive line a) = a_mmu a" "a_protocol (receive line a) = a_protocol a"
  "a_buttons (receive line a) = a_buttons a" "a_currentCommandRq (receive line a) = a_currentCommandRq a"
  by (simp_all add: receive_def)

definition idle_app :: App where "idle_app = App_new idle_hw blank_eeprom"

definition some_version :: version where
  "some_version = \<lparr>v_major = 3, v_minor = 0, v_revision = 3, v_build_number = 0\<rparr>"

lemma idle_app_facts: "app_wf idle_app" "room (a_usart idle_app) = 33" "received (a_usart idle_app) = []"
  "a_protocol idle_app = Protocol_new"
  using USART_new_wf app_wf_new[of idle_hw blank_eeprom]
  by (simp_all add: idle_app_def App_new_def room_def sent_def) (simp add: USART_new_def)

lemma RequestMsg_new_accepted: "c \<notin> {Rq_unknown} \<Longrightarrow> request_accepted (RequestMsg_new c v)"
  by (simp add: request_accepted_def RequestMsg_new_def Let_def RequestMsg_ComputeCRC8_def)

section \<open>Commands and slots\<close>

text \<open>What a running command owns is the same in both states.\<close>

definition undisturbed :: "App \<Rightarrow> App \<Rightarrow> bool" where
  "undisturbed a a' \<longleftrightarrow> m_base (a_mmu a') = m_base (a_mmu a) \<and> current a' = current a
     \<and> m_motion (a_mmu a') = m_motion (a_mmu a) \<and> m_movable (a_mmu a') = m_movable (a_mmu a)
     \<and> m_globals (a_mmu a') = m_globals (a_mmu a) \<and> m_eeprom (a_mmu a') = m_eeprom (a_mmu a)
     \<and> a_unload a' = a_unload a \<and> a_load a' = a_load a \<and> a_tool a' = a_tool a \<and> a_cut a' = a_cut a
     \<and> a_eject a' = a_eject a \<and> a_sanity a' = a_sanity a \<and> a_currentCommandRq a' = a_currentCommandRq a"

lemma undisturbed_ops:
  "undisturbed a (send line a)" "undisturbed a (on_mmu (inp f) a)"
  "undisturbed a (on_mmu (\<lambda>w. w\<lparr>m_fsensor := g (m_fsensor w)\<rparr>) a)" "undisturbed a (snd (RunningCommandStatus a))"
  by (simp_all add: undisturbed_def send_def RunningCommandStatus_def on_mmu_def inp_def Let_def case_prod_beta)

lemma undisturbed_send: "undisturbed a b \<Longrightarrow> undisturbed a (send line b)"
  by (simp add: undisturbed_def send_def)

text \<open>The commands whose parameter is a slot.\<close>

definition slot_commands :: "RequestMsgCodes set" where
  "slot_commands = {Rq_Tool, Rq_Load, Rq_Cut, Rq_Eject}"

lemma Reset_invalid_slot:
  assumes "c \<in> {toolChange, loadFilament, cutFilament, ejectFilament}" "p \<ge> toolCount"
  shows "\<not> fst (Reset c p a)" "a_mmu (snd (Reset c p a)) = set_error (Cmd c) INVALID_TOOL (a_mmu a)"
  using assms
  by (auto simp: Reset_def on_cmd_defs with_data_def ToolChange_Reset_def LoadFilament_Reset_def CutFilament_Reset_def
      EjectFilament_Reset_def CheckToolIndex_def)

lemma State_finished:
  assumes "state_of (Cmd c) (a_mmu a) = P_OK" shows "State c a = P_OK" "Error c a = error_of (Cmd c) (a_mmu a)"
  using assms by (cases c; simp add: State_def Error_def ToolChange_State_def CutFilament_State_def
      EjectFilament_State_def ToolChange_Error_def CutFilament_Error_def EjectFilament_Error_def)+

section \<open>Properties\<close>

text \<open>C3: a request that the decoder accepted is answered by exactly one line, which fits the buffer the
  encoder is given, and which the printer decodes to the same request with the parameter accepted or rejected; a query is
  answered with the request of the current command and its status. Only the request for
  the filament type, which the decoder knows but nothing implements, and the reset stay without an answer.\<close>

theorem one_answer_per_request:
  assumes "app_wf a" "MaxResponseSize \<le> room (a_usart a)" "request_accepted rq"
  shows "if rq_code rq \<in> {Rq_FilamentType, Rq_Reset} then answers a [] (ProcessRequestMsg v rq a)
    else \<exists>line. answers a line (ProcessRequestMsg v rq a)
      \<and> (if rq_code rq = Rq_Query
          then answer_to (a_currentCommandRq a) {Rp_Button, Rp_Processing, Rp_Finished, Rp_Error} line
          else answer_to rq {Rp_Accepted, Rp_Rejected} line)"
proof (cases "rq_code rq \<in> {Rq_FilamentType, Rq_Reset}")
  case True
  then show ?thesis using ProcessRequestMsg_silent[of rq v a] by (auto simp: answers_def)
next
  case False
  obtain line where "answers a line (ProcessRequestMsg v rq a)"
    "if rq_code rq = Rq_Query
     then answer_to (a_currentCommandRq a) {Rp_Button, Rp_Processing, Rp_Finished, Rp_Error} line
     else answer_to rq {Rp_Accepted, Rp_Rejected} line"
    by (rule ProcessRequestMsg_answer[OF assms False, of v])
  with False show ?thesis by (simp only: if_False) blast
qed

theorem one_answer_per_request_witness:
  "\<exists>line. answers idle_app line (ProcessRequestMsg some_version (RequestMsg_new Rq_Finda 0) idle_app)
    \<and> answer_to (RequestMsg_new Rq_Finda 0) {Rp_Accepted, Rp_Rejected} line"
  using one_answer_per_request[OF idle_app_facts(1) _ RequestMsg_new_accepted[of Rq_Finda 0], of some_version]
  by (simp add: idle_app_facts(2) MaxResponseSize_def)

text \<open>C4: the application works on messages although it reads bytes. When the line of an acceptable request
  is at the head of the receive buffer and the decoder is at the start of a line, one step of the application
  takes exactly this line from the buffer and is then the same as processing the message itself after the manual operation and before
  the step of the current command; what follows the line stays in the buffer and nothing was
  sent before the message is processed.\<close>

theorem request_line_served:
  assumes "app_wf a" "rqState (a_protocol a) = Rqs_Code" "request_accepted m"
    "received (a_usart a) = request_line m @ rest"
  shows "\<exists>p u. received u = rest \<and> sent u = sent (a_usart a) \<and> room u = room (a_usart a) \<and> rqState p = Rqs_Code
    \<and> requestMsg p = m
    \<and> Application_Step v a =
        (let b = ProcessRequestMsg v m ((CheckManualOperation a)\<lparr>a_protocol := p, a_usart := u\<rparr>)
         in if a_resetting b then b else snd (Command_Step (current b) b))"
proof -
  define p where "p = (a_protocol a)\<lparr>requestMsg := m, rqState := Rqs_Code\<rparr>"
  have wf: "usart_wf (a_usart a)" using assms(1) by (simp add: app_wf_def)
  obtain n where "decode_requests (a_protocol a) (request_line m) = (replicate n NeedMoreData @ [MessageCompleted], p)"
    using decode_request_line[OF assms(2,3)] by (auto simp: p_def)
  from CheckMsgs_line[OF wf assms(4) this] obtain u where
    u: "CheckMsgs (a_protocol a) (a_usart a) = (True, p, u)" "received u = rest" "sent u = sent (a_usart a)"
      "room u = room (a_usart a)" by blast
  have "requestMsg p = m" "rqState p = Rqs_Code" by (simp_all add: p_def)
  with u show ?thesis by (intro exI[of _ p] exI[of _ u]) (simp add: Application_Step_def)
qed

theorem request_line_served_witness:
  "\<exists>p u. received u = [] \<and> requestMsg p = RequestMsg_new Rq_Tool 3
    \<and> Application_Step some_version (receive (request_line (RequestMsg_new Rq_Tool 3)) idle_app) =
        (let b = ProcessRequestMsg some_version (RequestMsg_new Rq_Tool 3)
               ((CheckManualOperation (receive (request_line (RequestMsg_new Rq_Tool 3)) idle_app))
                  \<lparr>a_protocol := p, a_usart := u\<rparr>)
         in if a_resetting b then b else snd (Command_Step (current b) b))"
proof -
  let ?line = "request_line (RequestMsg_new Rq_Tool 3)"
  have "length ?line \<le> 13"
    using encoded_sizes by (simp add: request_line_def MaxRequestSize_def)
  moreover have "usart_wf (a_usart idle_app)" using idle_app_facts(1) by (simp add: app_wf_def)
  ultimately have u: "usart_wf (a_usart (receive ?line idle_app))" "received (a_usart (receive ?line idle_app)) = ?line @ []"
    using receive_facts[of "a_usart idle_app" ?line] by (simp_all add: receive_def idle_app_facts)
  then have "app_wf (receive ?line idle_app)" using idle_app_facts(1) by (simp add: app_wf_def)
  moreover have "rqState (a_protocol (receive ?line idle_app)) = Rqs_Code"
    by (simp add: idle_app_facts) (simp add: Protocol_new_def)
  ultimately show ?thesis
    using request_line_served[OF _ _ RequestMsg_new_accepted[of Rq_Tool 3] u(2), of some_version] by auto
qed

text \<open>C2: a command that is running has the machine for itself. Whatever acceptable request arrives meanwhile, except a
  reset and a write to a register, leaves the command, its data, the movables, the motors, the globals and
  the permanent storage as they are; another command is rejected.\<close>

theorem running_command_undisturbed:
  assumes "State (current a) a \<noteq> P_OK" "rq_code rq \<notin> {Rq_Reset, Rq_Write}"
  shows "undisturbed a (ProcessRequestMsg v rq a)
    \<and> (command_for (rq_code rq) \<noteq> noCommand \<longrightarrow>
        ProcessRequestMsg v rq a = send (EncodeResponseCmdAR rq Rp_Rejected) a)"
proof -
  have plan: "PlanCommand rq a = send (EncodeResponseCmdAR rq Rp_Rejected) a"
    using assms(1) by (simp add: PlanCommand_def ReportCommandAccepted_def)
  have "undisturbed a (ReportReadRegister v rq a)"
    by (simp add: ReportReadRegister_def undisturbed_ops split: option.split)
  moreover have "undisturbed a (ReportRunningCommand a)"
    by (simp add: ReportRunningCommand_def case_prod_beta Let_def undisturbed_send undisturbed_ops)
  moreover have "undisturbed a a" by (simp add: undisturbed_def)
  ultimately have "undisturbed a (ProcessRequestMsg v rq a)"
    using assms(2) by (cases "rq_code rq")
      (simp_all add: ProcessRequestMsg_def plan ReportCommandAccepted_def ReportFINDA_def undisturbed_send undisturbed_ops)
  then show ?thesis using plan by (cases "rq_code rq") (simp_all add: ProcessRequestMsg_def)
qed

theorem running_command_undisturbed_witness:
  "undisturbed (on_mmu (set_state (Cmd startUp) P_ERRWaitingForUser) idle_app)
     (ProcessRequestMsg some_version (RequestMsg_new Rq_Load 2)
        (on_mmu (set_state (Cmd startUp) P_ERRWaitingForUser) idle_app))"
proof -
  let ?a = "on_mmu (set_state (Cmd startUp) P_ERRWaitingForUser) idle_app"
  have "current idle_app = startUp" by (simp add: idle_app_def App_new_def mmu_new_def)
  then have "State (current ?a) ?a \<noteq> P_OK" by (simp add: State_def)
  with running_command_undisturbed[of ?a "RequestMsg_new Rq_Load 2" some_version] show ?thesis by (auto simp del: on_mmu_frame)
qed

text \<open>C36: a command for a slot that does not exist is rejected: it becomes the current command, finished with the
  error for an invalid tool, which the answer to the next query reports, and nothing else of the machine changes.\<close>

theorem invalid_slot_rejected:
  assumes "State (current a) a = P_OK" "rq_code rq \<in> slot_commands" "rq_value rq \<ge> toolCount"
    "state_of (Cmd (command_for (rq_code rq))) (a_mmu a) = P_OK"
  shows "let a' = ProcessRequestMsg v rq a; c = command_for (rq_code rq) in
    a_usart a' = snd (WriteToUSART (EncodeResponseCmdAR rq Rp_Rejected) (a_usart a))
    \<and> a_mmu a' = set_error (Cmd c) INVALID_TOOL ((a_mmu a)\<lparr>m_currentCommand := c\<rparr>)
    \<and> a_currentCommandRq a' = rq \<and> State c a' = P_OK \<and> Error c a' = INVALID_TOOL"
proof -
  define c where "c = command_for (rq_code rq)"
  define b where "b = (set_current c a)\<lparr>a_currentCommandRq := rq\<rparr>"
  have c: "c \<in> {toolChange, loadFilament, cutFilament, ejectFilament}"
    using assms(2) by (auto simp: c_def slot_commands_def)
  have b: "current b = c" "a_mmu b = (a_mmu a)\<lparr>m_currentCommand := c\<rparr>" "a_usart b = a_usart a"
    "a_currentCommandRq b = rq" by (simp_all add: b_def)
  note r = Reset_invalid_slot[OF c assms(3), of b]
  have "ProcessRequestMsg v rq a = PlanCommand rq a"
    using assms(2) by (auto simp: ProcessRequestMsg_def slot_commands_def)
  also have "\<dots> = send (EncodeResponseCmdAR rq Rp_Rejected) (snd (Reset c (rq_value rq) b))"
    unfolding PlanCommand_def Let_def c_def[symmetric] b_def[symmetric] case_prod_beta b(1)
    using assms(1) r(1) by (simp add: ReportCommandAccepted_def)
  finally have p: "ProcessRequestMsg v rq a = \<dots>" .
  define a' where "a' = send (EncodeResponseCmdAR rq Rp_Rejected) (snd (Reset c (rq_value rq) b))"
  have m: "a_mmu a' = set_error (Cmd c) INVALID_TOOL ((a_mmu a)\<lparr>m_currentCommand := c\<rparr>)"
    by (simp add: a'_def send_def r(2) b)
  have "state_of (Cmd c) (a_mmu a') = P_OK" using assms(4) unfolding m by (simp add: c_def) (simp add: state_of_def)
  moreover have "error_of (Cmd c) (a_mmu a') = INVALID_TOOL" by (simp add: m)
  ultimately have "State c a' = P_OK \<and> Error c a' = INVALID_TOOL" by (simp add: State_finished)
  moreover have "a_usart a' = snd (WriteToUSART (EncodeResponseCmdAR rq Rp_Rejected) (a_usart a))"
    "a_currentCommandRq a' = rq" by (simp_all add: a'_def send_def b)
  ultimately show ?thesis
    using m p by (simp add: Let_def flip: c_def a'_def)
qed

theorem invalid_slot_rejected_witness:
  "Error toolChange (ProcessRequestMsg some_version (RequestMsg_new Rq_Tool 5) idle_app) = INVALID_TOOL"
  using invalid_slot_rejected[of idle_app "RequestMsg_new Rq_Tool 5" some_version]
  by (simp add: slot_commands_def toolCount_def idle_app_def App_new_def mmu_new_def State_def state_of_def
      CommandBase_new_def Let_def)

text \<open>The step with which the unload inside a cut or an eject command finishes.\<close>

lemma unload_part_finishes:
  assumes "c \<in> {cutFilament, ejectFilament}" "state_of (Cmd c) (a_mmu a) = P_UnloadingFilament"
    "state_of (Unl c) (a_mmu a) = P_DisengagingIdler" "Disengaged (a_mmu a)"
    "mv_state (m_movable (a_mmu a) Selector) = Ready"
    "\<forall>x. CheckMovable x (a_mmu a) = E_RUNNING" "recovering (Cmd c) (a_mmu a) = 0"
  shows "a_mmu (snd (Command_Step c a)) = UnloadFinishedCorrectly (Unl c) (a_mmu a)"
proof -
  define w where "w = a_mmu a"
  have u: "UnloadFilament_StepInner (Unl c) (d, w) = (False, d, UnloadFinishedCorrectly (Unl c) w)" for d
    using assms(3-5) by (simp add: UnloadFilament_StepInner_def w_def)
  have "snd (snd (CutFilament_StepInner (d, w))) = UnloadFinishedCorrectly (Unl c) w" if "c = cutFilament" for d
    using assms(2) u that by (simp add: CutFilament_StepInner_def w_def)
  moreover have "snd (snd (EjectFilament_StepInner (d, w))) = UnloadFinishedCorrectly (Unl c) w" if "c = ejectFilament" for d
    using assms(2) u that by (simp add: EjectFilament_StepInner_def w_def)
  moreover have "CommandBase_Step cut_ob CutFilament_StepInner (d, w) = CutFilament_StepInner (d, w)"
    if "c = cutFilament" for d using assms(2,6,7) that by (intro cut_cmd.Step_inner) (simp_all add: w_def)
  moreover have "CommandBase_Step eject_ob EjectFilament_StepInner (d, w) = EjectFilament_StepInner (d, w)"
    if "c = ejectFilament" for d using assms(2,6,7) that by (intro eject_cmd.Step_inner) (simp_all add: w_def)
  ultimately show ?thesis
    using assms(1) unfolding Command_Step_def on_cmd_defs with_data_def
    by (auto simp: Let_def case_prod_beta w_def)
qed

lemma UnloadFinishedCorrectly_facts [simp]:
  "state_of ob (UnloadFinishedCorrectly ob' w) = (if ob = ob' then P_OK else state_of ob w)"
  "error_of ob (UnloadFinishedCorrectly ob' w) = (if ob = ob' then E_OK else error_of ob w)"
  "m_userInput (UnloadFinishedCorrectly ob' w) = m_userInput w"
  "m_currentCommand (UnloadFinishedCorrectly ob' w) = m_currentCommand w"
  by (simp_all add: UnloadFinishedCorrectly_def Let_def FinishedOK_def CommandFinishedCorrectly_def Pulley_Disable_def
      set_mv_state_def state_of_def error_of_def set_state_def set_error_def)

text \<open>C37: a cut or an eject command reports that it has finished when only its first part has. With the step in which the
  unload it starts with finishes, and until its next step, the command is still unloading, but its state and its error, which are those
  of the unload, are those of a finished command: a query that arrives in between is answered with finished, and
  another command is not refused as it should be but takes its place.\<close>

theorem cut_and_eject_finish_early:
  assumes "c \<in> {cutFilament, ejectFilament}" "current a = c" "state_of (Cmd c) (a_mmu a) = P_UnloadingFilament"
    "state_of (Unl c) (a_mmu a) = P_DisengagingIdler" "Disengaged (a_mmu a)"
    "mv_state (m_movable (a_mmu a) Selector) = Ready"
    "\<forall>x. CheckMovable x (a_mmu a) = E_RUNNING" "recovering (Cmd c) (a_mmu a) = 0"
    "\<not> ui_printerInCharge (m_userInput (a_mmu a))"
  shows "let a' = snd (Command_Step c a) in
    state_of (Cmd c) (a_mmu a') = P_UnloadingFilament \<and> State c a' = P_OK \<and> Error c a' = E_OK
    \<and> fst (RunningCommandStatus a') = \<lparr>rcs_code = Rp_Finished, rcs_value = 0\<rparr>
    \<and> (\<forall>rq. a_currentCommandRq (PlanCommand rq a') = rq)"
proof -
  define a' where "a' = snd (Command_Step c a)"
  have m: "a_mmu a' = UnloadFinishedCorrectly (Unl c) (a_mmu a)"
    unfolding a'_def by (rule unload_part_finishes[OF assms(1,3-8)])
  have cur: "current a' = c" using assms(2) by (simp add: m)
  have st: "state_of (Cmd c) (a_mmu a') = P_UnloadingFilament" using assms(3) by (simp add: m)
  have ok: "State c a' = P_OK" "Error c a' = E_OK"
    using assms(1) st by (auto simp: State_def Error_def CutFilament_State_def EjectFilament_State_def
        CutFilament_Error_def EjectFilament_Error_def m)
  have "fst (RunningCommandStatus a') = \<lparr>rcs_code = Rp_Finished, rcs_value = 0\<rparr>"
    using assms(1,9) cur ok by (auto simp: RunningCommandStatus_def Let_def m Result_def error_defs)
  moreover have "a_currentCommandRq (PlanCommand rq a') = rq" for rq
    using ok cur by (simp add: PlanCommand_def Let_def case_prod_beta ReportCommandAccepted_def send_def)
  ultimately show ?thesis using st ok by (simp add: Let_def flip: a'_def)
qed

definition cutting_app :: App where
  "cutting_app = on_mmu (\<lambda>w. set_state (Unl cutFilament) P_DisengagingIdler
     (set_state (Cmd cutFilament) P_UnloadingFilament (w\<lparr>m_currentCommand := cutFilament\<rparr>))) idle_app"

theorem cut_and_eject_finish_early_witness:
  "fst (RunningCommandStatus (snd (Command_Step cutFilament cutting_app))) = \<lparr>rcs_code = Rp_Finished, rcs_value = 0\<rparr>"
proof -
  have "current cutting_app = cutFilament" "state_of (Cmd cutFilament) (a_mmu cutting_app) = P_UnloadingFilament"
    "state_of (Unl cutFilament) (a_mmu cutting_app) = P_DisengagingIdler"
    by (simp_all add: cutting_app_def)
  moreover have "Disengaged (a_mmu cutting_app)" "mv_state (m_movable (a_mmu cutting_app) Selector) = Ready"
    "\<forall>x. CheckMovable x (a_mmu cutting_app) = E_RUNNING" "recovering (Cmd cutFilament) (a_mmu cutting_app) = 0"
    "\<not> ui_printerInCharge (m_userInput (a_mmu cutting_app))"
    by (simp_all add: cutting_app_def idle_app_def App_new_def mmu_new_def CheckMovable_def Movable_new_def movable_states
        Disengaged_def recovering_def set_state_def CommandBase_new_def UserInput_new_def)
  ultimately show ?thesis using cut_and_eject_finish_early[of cutFilament cutting_app] by (simp add: Let_def)
qed

end
