(* ===== verification/Main_Loop.thy ===== *)
theory Main_Loop
  imports Requests
begin

text \<open>
  The main program (\<open>main.cpp\<close>): initialisation, the main loop, the interrupts and the restart, as a step
  relation. A step of the relation is one operation of the main loop, one interrupt, a change of what
  the hardware shows, or a restart; between any two operations of the main loop any number of interrupts can come.
\<close>

section \<open>Interrupts\<close>

text \<open>
  The timer of the time base, the stepping timer, a byte received or the data register of the line empty, and
  the outside world: the lines of the StallGuard outputs and what the driver chips answer.
\<close>

datatype event = Tick | Stepper | RxByte bool u8 | TxEmpty
  | Lines "Axis \<Rightarrow> bool" | Chips "(Axis \<times> u8 list) list \<Rightarrow> u8 list"

fun mmu_event :: "event \<Rightarrow> mmu \<Rightarrow> mmu" where
  "mmu_event Tick w = w\<lparr>m_ms := Timebase_Isr (m_ms w)\<rparr>"
| "mmu_event Stepper w = mot (\<lambda>m. snd (Motion_Isr m)) w"
| "mmu_event (Lines d) w = on_hw (\<lambda>h. h\<lparr>hw_diag := d\<rparr>) w"
| "mmu_event (Chips s) w = on_hw (\<lambda>h. h\<lparr>hw_spi_slave := s\<rparr>) w"
| "mmu_event _ w = w"

definition interrupt :: "event \<Rightarrow> App \<Rightarrow> App" where
  "interrupt e a =
     (case e of
        RxByte framing_error c \<Rightarrow> a\<lparr>a_usart := ISR_RX framing_error c (a_usart a)\<rparr>
      | TxEmpty \<Rightarrow> a\<lparr>a_usart := data_register_empty (a_usart a)\<rparr>
      | _ \<Rightarrow> on_mmu (mmu_event e) a)"

section \<open>The main loop\<close>

text \<open>What one turn of the loop reads from the hardware: two analog inputs and the pin of FINDA.\<close>

record inputs =
  in_buttons :: u16
  in_finda :: bool
  in_vcc :: "nat \<Rightarrow> u16"

definition buttons_step :: "u16 \<Rightarrow> App \<Rightarrow> App" where
  "buttons_step raw a = a\<lparr>a_buttons := Buttons_Step (m_ms (a_mmu a)) raw (a_buttons a)\<rparr>"

definition finda_step :: "bool \<Rightarrow> mmu \<Rightarrow> mmu" where
  "finda_step pin w = w\<lparr>m_finda := FINDA_Step (m_ms w) pin (m_finda w)\<rparr>"

definition fsensor_step :: "mmu \<Rightarrow> mmu" where
  "fsensor_step w = w\<lparr>m_fsensor := FSensor_Step (m_ms w) (m_fsensor w)\<rparr>"

definition stop_motors :: "mmu \<Rightarrow> mmu" where
  "stop_motors w =
     mot (Motion_Disable Pulley) (mot (Motion_Disable Selector) (mot (Motion_Disable Idler)
       (mot (Motion_AbortPlannedMoves True) w)))"

definition RuntimeHWChecks :: "(nat \<Rightarrow> u16) \<Rightarrow> App \<Rightarrow> App" where
  "RuntimeHWChecks raw a =
     (let a = a\<lparr>a_vcc := VCC_Step raw (a_vcc a)\<rparr>
      in if a_vcc a > VCCADCThreshold then on_mmu (\<lambda>w. Panic MCU_UNDERVOLTAGE_VCC (stop_motors w)) a else a)"

definition hardware_sane :: "App \<Rightarrow> bool" where
  "hardware_sane a \<longleftrightarrow> Error hwSanity a = E_OK"

text \<open>One turn of the loop without interrupts.\<close>

definition loop :: "version \<Rightarrow> inputs \<Rightarrow> App \<Rightarrow> App" where
  "loop v i a =
     (let a = buttons_step (in_buttons i) a;
          a = on_mmu leds_step a;
          a = (if hardware_sane a then
                 let a = on_mmu (finda_step (in_finda i)) a;
                     a = on_mmu fsensor_step a;
                     a = on_mmu (\<lambda>w. snd (Idler_Step w)) a;
                     a = on_mmu (\<lambda>w. snd (Selector_Step w)) a;
                     a = on_mmu (\<lambda>w. snd (Pulley_Step w)) a
                 in on_mmu (inp (UserInput_Step (a_buttons a))) a
               else a);
          a = RuntimeHWChecks (in_vcc i) a
      in Application_Step v a)"

text \<open>The same turn in pieces: the operation the loop is at, and what it does.\<close>

datatype phase = At_buttons | At_leds | At_guard | At_finda | At_fsensor | At_idler | At_selector | At_pulley
  | At_userInput | At_checks | At_application

definition phase_step :: "version \<Rightarrow> inputs \<Rightarrow> phase \<times> App \<Rightarrow> phase \<times> App" where
  "phase_step v i = (\<lambda>(ph, a).
     case ph of
       At_buttons \<Rightarrow> (At_leds, buttons_step (in_buttons i) a)
     | At_leds \<Rightarrow> (At_guard, on_mmu leds_step a)
     | At_guard \<Rightarrow> (if hardware_sane a then At_finda else At_checks, a)
     | At_finda \<Rightarrow> (At_fsensor, on_mmu (finda_step (in_finda i)) a)
     | At_fsensor \<Rightarrow> (At_idler, on_mmu fsensor_step a)
     | At_idler \<Rightarrow> (At_selector, on_mmu (\<lambda>w. snd (Idler_Step w)) a)
     | At_selector \<Rightarrow> (At_pulley, on_mmu (\<lambda>w. snd (Selector_Step w)) a)
     | At_pulley \<Rightarrow> (At_userInput, on_mmu (\<lambda>w. snd (Pulley_Step w)) a)
     | At_userInput \<Rightarrow> (At_checks, on_mmu (inp (UserInput_Step (a_buttons a))) a)
     | At_checks \<Rightarrow> (At_application, RuntimeHWChecks (in_vcc i) a)
     | At_application \<Rightarrow> (At_buttons, Application_Step v a))"

section \<open>Initialisation\<close>

text \<open>
  What happens in the two loops that wait during the initialisation is given by lists of events; the results
  are \<open>None\<close> if the lists end before the loops do.
\<close>

record boot_inputs =
  bi_buttons :: "u16 \<times> u16 \<times> u16"
  bi_finda :: "(event list \<times> event list \<times> bool) list"
  bi_sanity :: "event list list"

fun FINDA_BlockingInit :: "u16 \<Rightarrow> (event list \<times> event list \<times> bool) list \<Rightarrow> mmu \<Rightarrow> mmu option" where
  "FINDA_BlockingInit start [] w = None"
| "FINDA_BlockingInit start ((es, es', pin) # readings) w =
     (let w = fold mmu_event es w in
      if Elapsed (m_ms w) start (findaDebounceMs + 1) then Some w
      else FINDA_BlockingInit start readings (finda_step pin (fold mmu_event es' w)))"

definition setup1 :: "u16 \<Rightarrow> App \<Rightarrow> App" where
  "setup1 raw a =
     (let a = on_mmu (\<lambda>w. w\<lparr>m_globals := Globals_Init (m_eeprom w) (m_globals w)\<rparr>) a;
          a = on_mmu (on_hw (\<lambda>h. h\<lparr>hw_shr16 := SHR16_Init (hw_shr16 h)\<rparr>)) a;
          a = on_mmu (fold (\<lambda>i w. leds_step (led (LEDs_SetMode i green LedOn) w)) [4, 3, 2, 1, 0]) a
      in buttons_step raw a)"

definition button_left :: nat where "button_left = 2"

text \<open>After the hardware test.\<close>

definition finish_setup :: "App \<Rightarrow> App" where
  "finish_setup a =
     (if Error hwSanity a \<noteq> E_OK then on_mmu (SetInitError (Error hwSanity a)) a
      else
        let a = snd (Reset startUp 0 a);
            a = on_mmu Idler_Init a;
            a = on_mmu Selector_Init a
        in if filament_loaded (a_mmu a) > AtPulley
           then on_mmu (\<lambda>w. led (ActiveSlotDonePrimed (active_slot w)) w) a else a)"

definition setup2 :: "boot_inputs \<Rightarrow> App \<Rightarrow> App option" where
  "setup2 bi a =
     (case FINDA_BlockingInit (m_ms (a_mmu a)) (bi_finda bi) (a_mmu a) of
        None \<Rightarrow> None
      | Some w \<Rightarrow>
          let a = buttons_step (fst (snd (bi_buttons bi))) (a\<lparr>a_mmu := w\<rparr>);
              a = on_mmu (\<lambda>w. leds_step (led LEDs_SetAllOff w)) a;
              a = buttons_step (snd (snd (bi_buttons bi))) a
          in if ButtonPressed (a_buttons a) button_left then Some (ProcessReset 42 a)
             else
               let a = snd (Reset hwSanity 0 a);
                   (finished, d, w) = sanity_loop (map (fold mmu_event) (bi_sanity bi)) (a_sanity a, a_mmu a)
               in if finished then Some (finish_setup (a\<lparr>a_sanity := d, a_mmu := w\<rparr>)) else None)"

text \<open>A start from given hardware and EEPROM.\<close>

definition boot :: "boot_inputs \<Rightarrow> hw \<Rightarrow> eeprom \<Rightarrow> App option" where
  "boot bi h e = setup2 bi (setup1 (fst (bi_buttons bi)) (App_new h e))"

section \<open>The firmware as a transition system\<close>

text \<open>
  Once a reset is pending interrupts are disabled and the main program waits for the watchdog; a restart, which keeps only the
  EEPROM, is possible at any time.
\<close>

inductive firmware :: "version \<Rightarrow> phase \<times> App \<Rightarrow> phase \<times> App \<Rightarrow> bool" for v :: version where
  main: "\<not> a_resetting a \<Longrightarrow> firmware v (ph, a) (phase_step v i (ph, a))"
| isr: "\<not> a_resetting a \<Longrightarrow> firmware v (ph, a) (ph, interrupt e a)"
| restart: "boot bi h (m_eeprom (a_mmu a)) = Some a' \<Longrightarrow> firmware v (ph, a) (At_buttons, a')"

inductive reachable :: "version \<Rightarrow> phase \<times> App \<Rightarrow> bool" for v :: version where
  power_up: "boot bi h e = Some a \<Longrightarrow> reachable v (At_buttons, a)"
| step: "reachable v s \<Longrightarrow> firmware v s t \<Longrightarrow> reachable v t"

inductive_cases firmwareE: "firmware v s t"

inductive_simps firmware_iff: "firmware v (ph, a) t"

text \<open>A pending reset can only end in a restart.\<close>

lemma reset_pending:
  "a_resetting a \<Longrightarrow> firmware v (ph, a) t \<longleftrightarrow>
     (\<exists>bi h a'. boot bi h (m_eeprom (a_mmu a)) = Some a' \<and> t = (At_buttons, a'))"
  by (auto simp: firmware_iff)

section \<open>Every operation keeps the invariant\<close>

lemma mmu_event_wf: "mmu_wf w \<Longrightarrow> mmu_wf (mmu_event e w)"
proof (cases e)
  case Stepper
  have "motion_wf m \<Longrightarrow> motion_wf (snd (Motion_Isr m))" for m
    using motion_wf_Step[of m] by (simp add: Motion_Isr_def case_prod_beta Let_def)
  then show "mmu_wf w \<Longrightarrow> ?thesis" using Stepper by (simp add: mmu_wf_mot)
qed (simp_all add: on_hw_wf)

lemma events_wf: "mmu_wf w \<Longrightarrow> mmu_wf (fold mmu_event es w)"
  by (induction es arbitrary: w) (simp_all add: mmu_event_wf)

lemma interrupt_wf: "app_wf a \<Longrightarrow> app_wf (interrupt e a)"
  using ISR_RX_facts[of "a_usart a"] data_register_facts[of "a_usart a"] mmu_event_wf
  by (cases e) (auto simp: interrupt_def app_wf_def simp del: mmu_event.simps)

lemma leds_step_wf: "mmu_wf w \<Longrightarrow> mmu_wf (leds_step w)"
  by (simp add: leds_step_def case_prod_beta Let_def on_hw_wf mmu_wf_led LEDs_Step_def)

lemma buttons_step_wf: "app_wf a \<Longrightarrow> app_wf (buttons_step raw a)"
  by (simp add: app_wf_def buttons_step_def Buttons_Step_def Let_def)

lemma sensor_steps_wf: "mmu_wf w \<Longrightarrow> mmu_wf (finda_step pin w)" "mmu_wf w \<Longrightarrow> mmu_wf (fsensor_step w)"
  by (simp_all add: finda_step_def fsensor_step_def)

lemma stop_motors_wf: "mmu_wf w \<Longrightarrow> mmu_wf (stop_motors w)"
  unfolding stop_motors_def by (intro mmu_wf_mot motion_wf_frames motion_wf_Abort)

lemma RuntimeHWChecks_wf: "app_wf a \<Longrightarrow> app_wf (RuntimeHWChecks raw a)"
  by (simp add: RuntimeHWChecks_def Let_def app_wf_def Panic_wf stop_motors_wf)

lemmas loop_ops_wf = buttons_step_wf RuntimeHWChecks_wf Application_Step_wf

lemma phase_step_wf: "app_wf a \<Longrightarrow> app_wf (snd (phase_step v i (ph, a)))"
proof -
  assume a: "app_wf a"
  then have w: "mmu_wf (a_mmu a)" by (simp add: app_wf_def)
  show ?thesis using a
    by (cases ph)
      (simp_all add: phase_step_def loop_ops_wf app_wf_on_mmu w leds_step_wf sensor_steps_wf Idler_Step_wf
        Selector_Step_wf Pulley_ops_wf mmu_wf_inp UserInput_Step_wf)
qed

lemma FINDA_BlockingInit_wf: "mmu_wf w \<Longrightarrow> FINDA_BlockingInit start rs w = Some w' \<Longrightarrow> mmu_wf w'"
  by (induction start rs w rule: FINDA_BlockingInit.induct)
    (auto simp: events_wf sensor_steps_wf Let_def split: if_splits)

lemma sanity_loop_wf:
  assumes "\<And>env w. env \<in> set envs \<Longrightarrow> mmu_wf w \<Longrightarrow> mmu_wf (env w)" "mmu_wf w"
  shows "mmu_wf (snd (snd (sanity_loop envs (d, w))))"
  using assms
proof (induction envs arbitrary: d w)
  case (Cons env envs)
  obtain f d' w' where s: "HWSanity_StepInner (d, env w) = (f, d', w')" by (metis prod_cases3)
  have "mmu_wf w'" using HWSanity_StepInner_wf[of "env w" d] Cons.prems s by simp
  then show ?case using Cons.IH[of "leds_step w'" d'] Cons.prems(1) s by (simp add: leds_step_wf)
qed simp

lemma setup_wf: "app_wf (setup1 raw (App_new h e))"
proof -
  have show_green: "app_wf (on_mmu (fold (\<lambda>i w. leds_step (led (LEDs_SetMode i green LedOn) w)) is) a)" if "app_wf a" for "is" a
    using that
  proof (induction "is" arbitrary: a)
    case (Cons i "is")
    have "app_wf (on_mmu (\<lambda>w. leds_step (led (LEDs_SetMode i green LedOn) w)) a)"
      using Cons.prems by (intro app_wf_on_mmu leds_step_wf mmu_wf_led) (simp_all add: app_wf_def)
    from Cons.IH[OF this] show ?case by (simp add: on_mmu_def comp_def)
  qed (simp add: on_mmu_def)
  have start: "app_wf (on_mmu (on_hw f) (on_mmu (\<lambda>w. w\<lparr>m_globals := g w\<rparr>) (App_new h e)))" for f g
    using app_wf_new[of h e] by (intro app_wf_on_mmu on_hw_wf) (simp_all add: app_wf_def)
  show ?thesis unfolding setup1_def Let_def by (intro buttons_step_wf show_green start)
qed

lemma finish_setup_wf:
  assumes "app_wf a" shows "app_wf (finish_setup a)"
proof -
  define b where "b = on_mmu Selector_Init (on_mmu Idler_Init (snd (Reset startUp 0 a)))"
  have "app_wf b"
    unfolding b_def using app_wf_virtual(1)[OF assms, of startUp 0]
    by (intro app_wf_on_mmu Init_wf) (simp_all add: app_wf_def Init_wf)
  then have "app_wf b" "app_wf (on_mmu (\<lambda>w. led (ActiveSlotDonePrimed (active_slot w)) w) b)"
    by (simp_all add: app_wf_def mmu_wf_led)
  moreover have "app_wf (on_mmu (SetInitError e) a)" for e
    using assms by (simp add: app_wf_def SetInitError_def)
  ultimately show ?thesis unfolding finish_setup_def Let_def b_def[symmetric] by simp
qed

lemma boot_wf:
  assumes "boot bi h e = Some a" shows "app_wf a"
proof -
  define s where "s = setup1 (fst (bi_buttons bi)) (App_new h e)"
  have s: "app_wf s" unfolding s_def by (rule setup_wf)
  obtain w where w: "FINDA_BlockingInit (m_ms (a_mmu s)) (bi_finda bi) (a_mmu s) = Some w"
    using assms by (auto simp: boot_def setup2_def s_def[symmetric] split: option.splits)
  define b where "b = buttons_step (snd (snd (bi_buttons bi)))
    (on_mmu (\<lambda>w. leds_step (led LEDs_SetAllOff w)) (buttons_step (fst (snd (bi_buttons bi))) (s\<lparr>a_mmu := w\<rparr>)))"
  have "mmu_wf w" using FINDA_BlockingInit_wf[OF _ w] s by (simp add: app_wf_def)
  then have "app_wf (s\<lparr>a_mmu := w\<rparr>)" using s by (simp add: app_wf_def)
  then have b: "app_wf b"
    unfolding b_def by (intro buttons_step_wf app_wf_on_mmu leds_step_wf mmu_wf_led) (simp_all add: app_wf_def buttons_step_def)
  define c where "c = snd (Reset hwSanity 0 b)"
  have c: "app_wf c" unfolding c_def by (rule app_wf_virtual(1)[OF b])
  obtain f d u where l: "sanity_loop (map (fold mmu_event) (bi_sanity bi)) (a_sanity c, a_mmu c) = (f, d, u)"
    by (metis prod_cases3)
  have "mmu_wf u"
    using sanity_loop_wf[of "map (fold mmu_event) (bi_sanity bi)" "a_mmu c" "a_sanity c"] c events_wf l
    by (auto simp: app_wf_def)
  then have u: "app_wf (c\<lparr>a_sanity := d, a_mmu := u\<rparr>)" using c by (simp add: app_wf_def)
  have "a = ProcessReset 42 b \<or> a = finish_setup (c\<lparr>a_sanity := d, a_mmu := u\<rparr>)"
    using assms unfolding boot_def setup2_def s_def[symmetric] w option.case Let_def b_def[symmetric] c_def[symmetric] l prod.case
    by (simp split: if_splits)
  then show ?thesis using ProcessReset_wf[OF b] finish_setup_wf[OF u] by blast
qed

lemma reachable_wf: "reachable v s \<Longrightarrow> app_wf (snd s)"
proof (induction rule: reachable.induct)
  case (power_up bi h e a)
  then show ?case by (simp add: boot_wf)
next
  case (step s t)
  from step.hyps(2) step.IH show ?case
    by (elim firmwareE) (simp_all add: phase_step_wf interrupt_wf boot_wf)
qed

section \<open>A quiet start\<close>

text \<open>No button is pressed, and time passes between the turns of the two waiting loops.\<close>

definition quiet_boot :: boot_inputs where
  "quiet_boot = \<lparr>bi_buttons = (1000, 1000, 1000), bi_finda = [(replicate 102 Tick, [], False)],
     bi_sanity = replicate 80 (replicate 51 Tick)\<rparr>"

lemma ticks: "mmu_event Tick ^^ n = (\<lambda>w. w\<lparr>m_ms := m_ms w + of_nat n\<rparr>)"
  by (induction n) (simp_all add: Timebase_Isr_def fun_eq_iff algebra_simps)

lemma no_button: "Buttons_Step ms 1000 Buttons_new = Buttons_new"
proof -
  have b: "Buttons_new = [Debouncer_new (u8_of_u16 buttonsDebounceMs), Debouncer_new (u8_of_u16 buttonsDebounceMs),
      Debouncer_new (u8_of_u16 buttonsDebounceMs)]"
    by (simp add: Buttons_new_def buttonCount_def) (simp add: numeral_3_eq_3)
  have "DecodeADC 1000 = None"
    by (simp add: DecodeADC_def buttonCount_def buttonADCLimits_def upt_conv_Cons)
  moreover have "Debouncer_Step ms False (Debouncer_new t) = Debouncer_new t" for t
    by (simp add: Debouncer_Step_def Debouncer_new_def)
  ultimately show ?thesis unfolding b by (simp add: Buttons_Step_def upt_conv_Cons)
qed

lemma quiet_boot_ends: "\<exists>a. boot quiet_boot h e = Some a"
proof -
  define s where "s = setup1 1000 (App_new h e)"
  have b: "a_buttons s = Buttons_new" by (simp add: s_def setup1_def Let_def buttons_step_def App_new_def no_button)
  define w where "w = (a_mmu s)\<lparr>m_ms := m_ms (a_mmu s) + 102\<rparr>"
  have f: "FINDA_BlockingInit (m_ms (a_mmu s)) (bi_finda quiet_boot) (a_mmu s) = Some w"
    by (simp add: quiet_boot_def Let_def ticks w_def Elapsed_def findaDebounceMs_def)
  define a where "a = buttons_step 1000 (on_mmu (\<lambda>w. leds_step (led LEDs_SetAllOff w)) (buttons_step 1000 (s\<lparr>a_mmu := w\<rparr>)))"
  have "a_buttons a = Buttons_new" by (simp add: a_def buttons_step_def b no_button)
  then have l: "\<not> ButtonPressed (a_buttons a) button_left"
    by (simp add: ButtonPressed_def button_left_def Buttons_new_def buttonCount_def Pressed_def Debouncer_new_def)
  obtain d v where r: "HWSanity_Reset 0 (a_sanity a, a_mmu a) = (True, d, v)" by (simp add: HWSanity_Reset_def)
  have c: "snd (Reset hwSanity 0 a) = a\<lparr>a_sanity := d, a_mmu := v\<rparr>"
    by (simp add: Reset_def on_cmd_defs with_data_def r)
  have sl: "map (fold mmu_event) (bi_sanity quiet_boot) = slow"
    unfolding quiet_boot_def slow_def boot_inputs.select_convs map_replicate fold_replicate ticks by simp
  obtain d' w' where "sanity_loop slow (d, v) = (True, d', w')"
    using slow_finishes(3)[OF r] by (metis prod.collapse)
  then have "sanity_loop (map (fold mmu_event) (bi_sanity quiet_boot))
      (a_sanity (snd (Reset hwSanity 0 a)), a_mmu (snd (Reset hwSanity 0 a))) = (True, d', w')"
    by (simp add: c sl)
  moreover have "bi_buttons quiet_boot = (1000, 1000, 1000)" by (simp add: quiet_boot_def)
  ultimately show ?thesis
    using l f by (simp add: boot_def setup2_def a_def[symmetric] s_def[symmetric] Let_def)
qed

section \<open>Stopping\<close>

lemma disabled_facts:
  "ad_enabled (mo_data (Motion_Disable x m) y) = (ad_enabled (mo_data m y) \<and> y \<noteq> x)"
  by (auto simp: Motion_Disable_def Motion_SetEnabled_def Let_def with_drv_def case_prod_beta)

lemma QueueEmpty_ctrl:
  "(\<And>x. ctrl m' x = ctrl m x) \<Longrightarrow> Motion_QueueEmpty m' = Motion_QueueEmpty m"
  by (simp add: Motion_QueueEmpty_def)

lemma stop_motors_facts:
  assumes "mmu_wf w"
  shows "Motion_QueueEmpty (m_motion (stop_motors w)) \<and> (\<forall>x. \<not> ad_enabled (mo_data (m_motion (stop_motors w)) x))
    \<and> motion_wf (m_motion (stop_motors w))
    \<and> (\<forall>x. Motion_CurPosition x (m_motion (stop_motors w)) = Motion_CurPosition x (m_motion w))"
proof -
  define m where "m = Motion_AbortPlannedMoves True (m_motion w)"
  have c: "ctrl m x = PG_AbortPlannedMoves True (ctrl (m_motion w) x)" for x
    by (cases x) (simp_all add: m_def Motion_AbortPlannedMoves_def Motion_AbortPlannedMoves_axis_def all_axes_def)
  have pg: "pg_wf (ctrl (m_motion w) x)" for x using assms by (simp add: mmu_wf_def motion_wf_def)
  have s: "m_motion (stop_motors w) = Motion_Disable Pulley (Motion_Disable Selector (Motion_Disable Idler m))"
    by (simp add: stop_motors_def m_def)
  have "ctrl (m_motion (stop_motors w)) x = ctrl m x" for x by (simp add: s)
  moreover have "motion_wf (m_motion (stop_motors w))" using stop_motors_wf[OF assms] by (simp add: mmu_wf_def)
  moreover have "\<not> ad_enabled (mo_data (m_motion (stop_motors w)) x)" for x
    by (cases x) (simp_all add: s disabled_facts)
  ultimately show ?thesis
    using PG_AbortPlannedMoves_spec[OF pg]
    by (simp add: Motion_QueueEmpty_def Motion_CurPosition_def c list_all_iff)
qed

text \<open>With nothing planned the stepping interrupt does not touch the hardware.\<close>

lemma step_axis_idle:
  assumes "motion_wf m" "PG_QueueEmpty (ctrl m x)" shows "snd (step_axis x m) = m"
proof -
  have "PG_Step (ctrl m x) = (ctrl m x, 0, [])" using assms PG_Step_idle by (simp add: motion_wf_def)
  moreover have "with_ctrl x (\<lambda>_. ctrl m x) m = m" by (simp add: with_ctrl_def ctrl_def)
  ultimately show ?thesis by (simp add: step_axis_def Let_def)
qed

lemma idle_interrupt:
  assumes "motion_wf m" "Motion_QueueEmpty m" shows "mo_hw (snd (Motion_Isr m)) = mo_hw m"
proof -
  have e: "snd (step_axis x m) = m" for x
    using step_axis_idle[OF assms(1)] assms(2) by (cases x) (simp_all add: Motion_QueueEmpty_def all_axes_def)
  define t where "t x = fst (step_axis x m)" for x
  have "step_axis x m = (t x, m)" for x using e[of x] by (simp add: t_def prod_eq_iff)
  then show ?thesis by (simp add: Motion_Isr_def Motion_Step_def Let_def set_residual_def)
qed

text \<open>The operations of the main loop as single steps.\<close>

lemma phase_resetting [simp]:
  "a_resetting (RuntimeHWChecks raw b) = a_resetting b" "a_resetting (buttons_step r b) = a_resetting b"
  by (simp_all add: RuntimeHWChecks_def Let_def buttons_step_def)

lemma firmware_phase:
  assumes "\<not> a_resetting a" "phase_step v i (ph, a) = t" "(firmware v ^^ n) t u"
  shows "(firmware v ^^ Suc n) (ph, a) u"
  using firmware.main[OF assms(1), of v ph i] assms(2,3) by (metis relpowp_Suc_I2)

lemma run_checks:
  fixes i :: inputs
  assumes "\<not> a_resetting b"
  shows "(firmware v ^^ 2) (At_checks, b) (At_buttons, Application_Step v (RuntimeHWChecks (in_vcc i) b))"
proof -
  have "(firmware v ^^ Suc 0) (At_application, RuntimeHWChecks (in_vcc i) b)
      (At_buttons, Application_Step v (RuntimeHWChecks (in_vcc i) b))"
    using assms by (intro firmware_phase[where i = i]) (simp_all add: phase_step_def)
  then have "(firmware v ^^ Suc (Suc 0)) (At_checks, b) (At_buttons, Application_Step v (RuntimeHWChecks (in_vcc i) b))"
    by (rule firmware_phase[where i = i, OF assms, rotated]) (simp add: phase_step_def)
  then show ?thesis by (simp only: numeral_2_eq_2)
qed

section \<open>Properties\<close>

text \<open>C1: the firmware stays consistent. Whatever the printer sends, whatever the sensors, the drivers and the buttons show, in whatever order the interrupts come
  between the operations of the main loop, and after any number of restarts: the planners, the event queue, the buffers of the line
  and the decoder are consistent, the LED array has its length, homing is valid only for a movable that is not homing,
  and answers to queries refer to a decoded request.\<close>

theorem firmware_invariant:
  assumes "reachable v (ph, a)" shows "app_wf a"
  using reachable_wf[OF assms] by simp

theorem firmware_invariant_witness: "\<exists>ph a. reachable some_version (ph, a) \<and> app_wf a"
proof -
  obtain a where "boot quiet_boot idle_hw blank_eeprom = Some a" using quiet_boot_ends by blast
  then have "reachable some_version (At_buttons, a)" by (rule reachable.power_up)
  with firmware_invariant[OF this] show ?thesis by blast
qed

text \<open>C6: the voltage check stops everything. When the last of the ten readings shows an undervoltage, no axis has a move left, every driver is
  disabled, no axis has moved by that, the stepping interrupt leaves the hardware alone from then on, and the current
  command is in the internal error state with the error for the undervoltage, in which no step of a command without failed
  movables does anything and every new command is refused; at a sufficient voltage the check changes nothing.\<close>

theorem undervoltage_stops_motors:
  assumes "app_wf a"
  shows "let a' = RuntimeHWChecks raw a; w' = a_mmu a' in
    if raw 9 > VCCADCThreshold then
      Motion_QueueEmpty (m_motion w') \<and> (\<forall>x. \<not> ad_enabled (mo_data (m_motion w') x))
      \<and> (\<forall>x. Motion_CurPosition x (m_motion w') = Motion_CurPosition x (m_motion (a_mmu a)))
      \<and> mo_hw (snd (Motion_Isr (m_motion w'))) = mo_hw (m_motion w')
      \<and> state_of (Cmd (current a)) w' = P_ERRInternal \<and> error_of (Cmd (current a)) w' = MCU_UNDERVOLTAGE_VCC
      \<and> (\<forall>v rq. command_for (rq_code rq) \<noteq> noCommand \<longrightarrow>
            ProcessRequestMsg v rq a' = send (EncodeResponseCmdAR rq Rp_Rejected) a')
    else a' = a\<lparr>a_vcc := raw 9\<rparr>"
proof -
  have vcc: "VCC_Step raw n = raw 9" for n
    using upt_Suc_append[of 0 9] by (simp add: VCC_Step_def VCCADCReadCnt_def del: upt_Suc)
  show ?thesis
  proof (cases "raw 9 > VCCADCThreshold")
    case True
    define a' where "a' = RuntimeHWChecks raw a"
    have m: "a_mmu a' = Panic MCU_UNDERVOLTAGE_VCC (stop_motors (a_mmu a))"
      using True by (simp add: a'_def RuntimeHWChecks_def vcc)
    have cur: "m_currentCommand (stop_motors w) = m_currentCommand w" for w by (simp add: stop_motors_def)
    have p: "m_motion (Panic ec w) = m_motion w" "m_currentCommand (Panic ec w) = m_currentCommand w"
      "state_of (Cmd (m_currentCommand w)) (Panic ec w) = P_ERRInternal"
      "error_of (Cmd (m_currentCommand w)) (Panic ec w) = ec" for ec w
      by (simp_all add: Panic_def CommandBase_Panic_def)
    have st: "state_of (Cmd (current a)) (a_mmu a') = P_ERRInternal" "error_of (Cmd (current a)) (a_mmu a') = MCU_UNDERVOLTAGE_VCC"
      "current a' = current a"
      using p[where w = "stop_motors (a_mmu a)"] by (simp_all add: m cur)
    then have "State (current a') a' = P_ERRInternal"
      by (cases "current a") (simp_all add: State_def ToolChange_State_def CutFilament_State_def EjectFilament_State_def)
    then have "PlanCommand rq a' = send (EncodeResponseCmdAR rq Rp_Rejected) a'" for rq
      by (simp add: PlanCommand_def ReportCommandAccepted_def)
    then have "command_for (rq_code rq) \<noteq> noCommand \<Longrightarrow>
        ProcessRequestMsg v rq a' = send (EncodeResponseCmdAR rq Rp_Rejected) a'" for v rq
      by (cases "rq_code rq") (simp_all add: ProcessRequestMsg_def)
    moreover note stop_motors_facts[of "a_mmu a"] idle_interrupt[of "m_motion (a_mmu a')"]
    ultimately show ?thesis
      using True assms st unfolding Let_def a'_def[symmetric] by (simp add: m p app_wf_def)
  next
    case False
    then show ?thesis by (simp add: RuntimeHWChecks_def vcc)
  qed
qed

theorem undervoltage_stops_motors_witness:
  "Motion_QueueEmpty (m_motion (a_mmu (RuntimeHWChecks (\<lambda>_. 300) idle_app)))"
  using undervoltage_stops_motors[OF idle_app_facts(1), of "\<lambda>_. 300"] by (simp add: Let_def VCCADCThreshold_def)

text \<open>The main loop in pieces is the main loop. From the first operation of a turn the transition system can
  run, with no interrupt in between, to the first operation of the next turn with exactly the state the function
  \<open>loop\<close> returns, which takes eleven operations, or five if the hardware test has failed.\<close>

theorem loop_is_sequence_of_phases:
  assumes "\<not> a_resetting a"
  shows "let n = (if hardware_sane (on_mmu leds_step (buttons_step (in_buttons i) a)) then 11 else 5) in
    (phase_step v i ^^ n) (At_buttons, a) = (At_buttons, loop v i a)
    \<and> (firmware v ^^ n) (At_buttons, a) (At_buttons, loop v i a)"
proof -
  have phases: "(phase_step v i ^^ n) (At_buttons, a) = (At_buttons, loop v i a)"
    if "n = (if hardware_sane (on_mmu leds_step (buttons_step (in_buttons i) a)) then 11 else 5)" for n
    using that by (simp add: loop_def Let_def phase_step_def eval_nat_numeral)
  define b where "b = on_mmu leds_step (buttons_step (in_buttons i) a)"
  define c where "c = (let a = on_mmu (finda_step (in_finda i)) b; a = on_mmu fsensor_step a;
    a = on_mmu (\<lambda>w. snd (Idler_Step w)) a; a = on_mmu (\<lambda>w. snd (Selector_Step w)) a;
    a = on_mmu (\<lambda>w. snd (Pulley_Step w)) a in on_mmu (inp (UserInput_Step (a_buttons a))) a)"
  define u where "u = (At_buttons, loop v i a)"
  have l: "loop v i a = Application_Step v (RuntimeHWChecks (in_vcc i) (if hardware_sane b then c else b))"
    by (simp add: loop_def Let_def b_def c_def)
  have nr: "\<not> a_resetting b" "\<not> a_resetting c" using assms by (simp_all add: b_def c_def Let_def)
  have r: "(firmware v ^^ (if hardware_sane b then 8 else 2)) (if hardware_sane b then At_finda else At_checks, b) u"
  proof (cases "hardware_sane b")
    case True
    have r: "(firmware v ^^ 2) (At_checks, c) u" using run_checks[OF nr(2), of v i] True by (simp add: u_def l)
    have "(firmware v ^^ Suc (Suc (Suc (Suc (Suc (Suc 2)))))) (At_finda, b) u"
      by ((rule firmware_phase[where i = i], simp add: nr(1), simp add: phase_step_def)+)
        (use r in \<open>simp add: c_def Let_def\<close>)
    with True show ?thesis by simp
  next
    case False
    with run_checks[OF nr(1), of v i] show ?thesis by (simp add: u_def l)
  qed
  have "(firmware v ^^ Suc (Suc (Suc (if hardware_sane b then 8 else 2)))) (At_buttons, a) u"
    by ((rule firmware_phase[where i = i], simp add: assms, simp add: phase_step_def)+) (use r in \<open>simp add: b_def\<close>)
  moreover have "Suc (Suc (Suc (if hardware_sane b then 8 else 2))) = (if hardware_sane b then 11 else 5)" by simp
  ultimately have "(firmware v ^^ (if hardware_sane b then 11 else 5)) (At_buttons, a) u" by metis
  with phases show ?thesis by (simp add: Let_def u_def flip: b_def)
qed

definition idle_inputs :: inputs where
  "idle_inputs = \<lparr>in_buttons = 1000, in_finda = False, in_vcc = (\<lambda>_. 0)\<rparr>"

theorem loop_is_sequence_of_phases_witness:
  "(firmware some_version ^^ 11) (At_buttons, idle_app) (At_buttons, loop some_version idle_inputs idle_app)"
proof -
  have "\<not> a_resetting idle_app" by (simp add: idle_app_def App_new_def)
  moreover have "hardware_sane (on_mmu leds_step (buttons_step (in_buttons idle_inputs) idle_app))"
    by (simp add: hardware_sane_def Error_def error_of_def buttons_step_def idle_app_def App_new_def mmu_new_def
        CommandBase_new_def)
  ultimately show ?thesis
    using loop_is_sequence_of_phases[of idle_app idle_inputs some_version] by (simp only: Let_def if_True simp_thms)
qed

end
