(* ===== verification/Gpio.thy ===== *)
theory Gpio
  imports Prelude
begin

text \<open>
  Pins of the ATmega32U4 (\<open>hal/gpio.h\<close>, \<open>pins.h\<close>). A port is the record of its three registers; writing a one to a
  bit of \<open>PINx\<close> toggles the bit of \<open>PORTx\<close>, as the microcontroller documents. A constructor of
  \<open>GPIO_InitTypeDef\<close> leaves one member as the memory happens to hold it; the memory is its first argument.
\<close>

section \<open>Ports and pins\<close>

datatype Mode = mode_input | mode_output

datatype Pull = none | up | down

datatype Level = low | high

record GPIO_TypeDef =
  PINx :: u8
  DDRx :: u8
  PORTx :: u8

datatype Port = GPIOA | GPIOB | GPIOC | GPIOD | GPIOE | GPIOF | GPIOG | GPIOH | GPIOJ | GPIOK | GPIOL

type_synonym ports = "Port \<Rightarrow> GPIO_TypeDef"

record GPIO_pin =
  pin_port :: Port
  pin_mask :: u8

record GPIO_InitTypeDef =
  gi_mode :: Mode
  gi_pull :: Pull
  gi_level :: Level

definition InitTypeDef_pull :: "GPIO_InitTypeDef \<Rightarrow> Mode \<Rightarrow> Pull \<Rightarrow> GPIO_InitTypeDef" where
  "InitTypeDef_pull mem m p = mem\<lparr>gi_mode := m, gi_pull := p\<rparr>"

definition InitTypeDef_level :: "GPIO_InitTypeDef \<Rightarrow> Mode \<Rightarrow> Level \<Rightarrow> GPIO_InitTypeDef" where
  "InitTypeDef_level mem m l = mem\<lparr>gi_mode := m, gi_level := l\<rparr>"

text \<open>The cast of a pull to a level: \<open>down\<close> has the value 2, which is not \<open>high\<close> for \<open>WritePin\<close>.\<close>

fun level_of_pull :: "Pull \<Rightarrow> Level" where
  "level_of_pull none = low"
| "level_of_pull up = high"
| "level_of_pull down = low"

section \<open>Operations\<close>

definition WritePin :: "GPIO_pin \<Rightarrow> Level \<Rightarrow> ports \<Rightarrow> ports" where
  "WritePin pin l ps =
     (let g = ps (pin_port pin)
      in ps(pin_port pin := if l = high then g\<lparr>PORTx := PORTx g OR pin_mask pin\<rparr>
                            else g\<lparr>PORTx := PORTx g AND NOT (pin_mask pin)\<rparr>))"

text \<open>On the target the level of the pin is read, on a host the value written last.\<close>

definition ReadPin :: "GPIO_pin \<Rightarrow> ports \<Rightarrow> Level" where
  "ReadPin pin ps = (if PINx (ps (pin_port pin)) AND pin_mask pin \<noteq> 0 then high else low)"

definition ReadPin_host :: "GPIO_pin \<Rightarrow> ports \<Rightarrow> Level" where
  "ReadPin_host pin ps = (if PORTx (ps (pin_port pin)) AND pin_mask pin \<noteq> 0 then high else low)"

text \<open>What the microcontroller does with a value written to \<open>PINx\<close>.\<close>

definition write_PINx :: "u8 \<Rightarrow> GPIO_TypeDef \<Rightarrow> GPIO_TypeDef" where
  "write_PINx v g = g\<lparr>PORTx := PORTx g XOR v\<rparr>"

definition TogglePin :: "GPIO_pin \<Rightarrow> ports \<Rightarrow> ports" where
  "TogglePin pin ps = ps(pin_port pin := write_PINx (pin_mask pin) (ps (pin_port pin)))"

definition TogglePin_host :: "GPIO_pin \<Rightarrow> ports \<Rightarrow> ports" where
  "TogglePin_host pin ps = WritePin pin (if ReadPin_host pin ps \<noteq> high then high else low) ps"

definition gpio_Init :: "GPIO_pin \<Rightarrow> GPIO_InitTypeDef \<Rightarrow> ports \<Rightarrow> ports" where
  "gpio_Init pin i ps =
     (if gi_mode i = mode_output then
        let ps = WritePin pin (gi_level i) ps;
            g = ps (pin_port pin)
        in ps(pin_port pin := g\<lparr>DDRx := DDRx g OR pin_mask pin\<rparr>)
      else
        let g = ps (pin_port pin);
            ps = ps(pin_port pin := g\<lparr>DDRx := DDRx g AND NOT (pin_mask pin)\<rparr>)
        in WritePin pin (level_of_pull (gi_pull i)) ps)"

section \<open>The pins of the board\<close>

definition TMC2130_SPI_MISO_PIN :: GPIO_pin where "TMC2130_SPI_MISO_PIN = \<lparr>pin_port = GPIOB, pin_mask = push_bit 3 1\<rparr>"
definition TMC2130_SPI_MOSI_PIN :: GPIO_pin where "TMC2130_SPI_MOSI_PIN = \<lparr>pin_port = GPIOB, pin_mask = push_bit 2 1\<rparr>"
definition TMC2130_SPI_SCK_PIN :: GPIO_pin where "TMC2130_SPI_SCK_PIN = \<lparr>pin_port = GPIOB, pin_mask = push_bit 1 1\<rparr>"
definition TMC2130_SPI_SS_PIN :: GPIO_pin where "TMC2130_SPI_SS_PIN = \<lparr>pin_port = GPIOB, pin_mask = push_bit 0 1\<rparr>"

definition SHR16_DATA :: GPIO_pin where "SHR16_DATA = \<lparr>pin_port = GPIOB, pin_mask = push_bit 5 1\<rparr>"
definition SHR16_LATCH :: GPIO_pin where "SHR16_LATCH = \<lparr>pin_port = GPIOB, pin_mask = push_bit 6 1\<rparr>"
definition SHR16_CLOCK :: GPIO_pin where "SHR16_CLOCK = \<lparr>pin_port = GPIOC, pin_mask = push_bit 7 1\<rparr>"

definition USART_RX :: GPIO_pin where "USART_RX = \<lparr>pin_port = GPIOD, pin_mask = push_bit 2 1\<rparr>"
definition USART_TX :: GPIO_pin where "USART_TX = \<lparr>pin_port = GPIOD, pin_mask = push_bit 3 1\<rparr>"

definition PULLEY_CS_PIN :: GPIO_pin where "PULLEY_CS_PIN = \<lparr>pin_port = GPIOC, pin_mask = push_bit 6 1\<rparr>"
definition PULLEY_SG_PIN :: GPIO_pin where "PULLEY_SG_PIN = \<lparr>pin_port = GPIOF, pin_mask = push_bit 4 1\<rparr>"
definition PULLEY_STEP_PIN :: GPIO_pin where "PULLEY_STEP_PIN = \<lparr>pin_port = GPIOB, pin_mask = push_bit 4 1\<rparr>"

definition SELECTOR_CS_PIN :: GPIO_pin where "SELECTOR_CS_PIN = \<lparr>pin_port = GPIOD, pin_mask = push_bit 7 1\<rparr>"
definition SELECTOR_SG_PIN :: GPIO_pin where "SELECTOR_SG_PIN = \<lparr>pin_port = GPIOF, pin_mask = push_bit 1 1\<rparr>"
definition SELECTOR_STEP_PIN :: GPIO_pin where "SELECTOR_STEP_PIN = \<lparr>pin_port = GPIOD, pin_mask = push_bit 4 1\<rparr>"

definition IDLER_CS_PIN :: GPIO_pin where "IDLER_CS_PIN = \<lparr>pin_port = GPIOB, pin_mask = push_bit 7 1\<rparr>"
definition IDLER_SG_PIN :: GPIO_pin where "IDLER_SG_PIN = \<lparr>pin_port = GPIOF, pin_mask = push_bit 0 1\<rparr>"
definition IDLER_STEP_PIN :: GPIO_pin where "IDLER_STEP_PIN = \<lparr>pin_port = GPIOD, pin_mask = push_bit 6 1\<rparr>"

definition FINDA_PIN :: GPIO_pin where "FINDA_PIN = \<lparr>pin_port = GPIOF, pin_mask = push_bit 6 1\<rparr>"

lemmas pin_defs = TMC2130_SPI_MISO_PIN_def TMC2130_SPI_MOSI_PIN_def TMC2130_SPI_SCK_PIN_def TMC2130_SPI_SS_PIN_def
  SHR16_DATA_def SHR16_LATCH_def SHR16_CLOCK_def USART_RX_def USART_TX_def PULLEY_CS_PIN_def PULLEY_SG_PIN_def
  PULLEY_STEP_PIN_def SELECTOR_CS_PIN_def SELECTOR_SG_PIN_def SELECTOR_STEP_PIN_def IDLER_CS_PIN_def
  IDLER_SG_PIN_def IDLER_STEP_PIN_def FINDA_PIN_def

definition board_pins :: "GPIO_pin list" where
  "board_pins = [TMC2130_SPI_MISO_PIN, TMC2130_SPI_MOSI_PIN, TMC2130_SPI_SCK_PIN, TMC2130_SPI_SS_PIN,
     SHR16_DATA, SHR16_LATCH, SHR16_CLOCK, USART_RX, USART_TX, PULLEY_CS_PIN, PULLEY_SG_PIN, PULLEY_STEP_PIN,
     SELECTOR_CS_PIN, SELECTOR_SG_PIN, SELECTOR_STEP_PIN, IDLER_CS_PIN, IDLER_SG_PIN, IDLER_STEP_PIN, FINDA_PIN]"

section \<open>A pin as a bit\<close>

text \<open>Driving a pin is one bit of the direction and one of the output register.\<close>

definition is_pin :: "GPIO_pin \<Rightarrow> bool" where
  "is_pin pin \<longleftrightarrow> pin_mask pin \<in> set (map (\<lambda>k. push_bit k 1) [0..<8])"

definition is_output :: "GPIO_pin \<Rightarrow> ports \<Rightarrow> bool" where
  "is_output pin ps \<longleftrightarrow> DDRx (ps (pin_port pin)) AND pin_mask pin \<noteq> 0"

definition driven_high :: "GPIO_pin \<Rightarrow> ports \<Rightarrow> bool" where
  "driven_high pin ps \<longleftrightarrow> is_output pin ps \<and> ReadPin_host pin ps = high"

definition apart :: "GPIO_pin \<Rightarrow> GPIO_pin \<Rightarrow> bool" where
  "apart p q \<longleftrightarrow> pin_port p \<noteq> pin_port q \<or> pin_mask p AND pin_mask q = 0"

text \<open>No two pins of the board share a bit, and each is one bit.\<close>

lemma board_pins_apart: "list_all (\<lambda>p. list_all (\<lambda>q. p = q \<or> apart p q) board_pins) board_pins"
  by code_simp

lemma board_pins_single: "list_all is_pin board_pins" "distinct board_pins"
  by code_simp+

lemma apart_sym: "apart p q \<Longrightarrow> apart q p"
  by (auto simp: apart_def and.commute)

lemma is_pinE:
  assumes "is_pin pin" obtains k where "k < 8" "pin_mask pin = push_bit k 1"
  using assms by (auto simp: is_pin_def)

lemma and_bit_neq_0: "(x AND push_bit k 1 \<noteq> 0) \<longleftrightarrow> bit (x :: 'a::len word) k"
  by (simp add: and_exp_eq_0_iff_not_bit)

lemma pin_mask_neq_0: "is_pin p \<Longrightarrow> pin_mask p \<noteq> 0"
  by (erule is_pinE) simp

lemma ReadPin_host_iff: "ReadPin_host pin ps = high \<longleftrightarrow> PORTx (ps (pin_port pin)) AND pin_mask pin \<noteq> 0"
  by (simp add: ReadPin_host_def)

lemma masked_0:
  fixes a m n :: u8
  assumes "m AND n = 0"
  shows "(a OR m) AND n = a AND n" "(a AND NOT m) AND n = a AND n" "(a XOR m) AND n = a AND n"
  using assms by (auto simp: bit_eq_iff bit_simps)

lemma masked_self:
  fixes a m :: u8
  shows "(a AND NOT m) AND m = 0" "(a OR m) AND m = m"
  by (auto intro: bit_word_eqI simp: bit_simps)

text \<open>Writing a pin sets its level, keeps directions, and leaves every other pin alone.\<close>

lemma WritePin_output [simp]: "is_output q (WritePin p l ps) = is_output q ps"
  by (simp add: is_output_def WritePin_def Let_def)

lemma WritePin_level:
  assumes "is_pin p" shows "ReadPin_host p (WritePin p l ps) = l"
proof -
  show ?thesis using pin_mask_neq_0[OF assms] by (cases l) (simp_all add: ReadPin_host_def WritePin_def Let_def masked_self)
qed

lemma WritePin_apart:
  assumes "apart p q" shows "ReadPin_host q (WritePin p l ps) = ReadPin_host q ps"
  using assms by (auto simp: ReadPin_host_def WritePin_def Let_def apart_def masked_0)

text \<open>The short form of the toggle on the target is the long form of the host, for a single pin.\<close>

lemma TogglePin_short:
  assumes "is_pin p" shows "TogglePin p ps = TogglePin_host p ps"
proof -
  obtain k where k: "k < 8" "pin_mask p = push_bit k 1" using assms by (rule is_pinE)
  have "a XOR push_bit k 1 = (if bit a k then a AND NOT (push_bit k 1) else a OR push_bit k 1)" for a :: u8
    by (cases "bit a k") (auto intro!: bit_word_eqI simp: bit_simps)
  moreover have "PORTx (ps (pin_port p)) AND push_bit k 1 = 0 \<longleftrightarrow> \<not> bit (PORTx (ps (pin_port p))) k"
    using and_bit_neq_0 by blast
  ultimately show ?thesis
    by (auto simp: TogglePin_def TogglePin_host_def write_PINx_def WritePin_def ReadPin_host_def k(2) Let_def fun_eq_iff)
qed

text \<open>Initialising a pin.\<close>

lemma gpio_Init_apart:
  assumes "apart p q"
  shows "is_output q (gpio_Init p i ps) = is_output q ps" "ReadPin_host q (gpio_Init p i ps) = ReadPin_host q ps"
  using assms
  by (auto simp: gpio_Init_def Let_def WritePin_def is_output_def ReadPin_host_def apart_def masked_0)

lemma gpio_Init_output:
  assumes "is_pin p" "gi_mode i = mode_output"
  shows "is_output p (gpio_Init p i ps)" "ReadPin_host p (gpio_Init p i ps) = gi_level i"
proof -
  define w where "w = WritePin p (gi_level i) ps"
  have e: "gpio_Init p i ps = w(pin_port p := (w (pin_port p))\<lparr>DDRx := DDRx (w (pin_port p)) OR pin_mask p\<rparr>)"
    using assms(2) by (simp add: gpio_Init_def w_def Let_def)
  show "is_output p (gpio_Init p i ps)" using pin_mask_neq_0[OF assms(1)] by (simp add: e is_output_def masked_self)
  have "ReadPin_host p (gpio_Init p i ps) = ReadPin_host p w" by (simp add: e ReadPin_host_def)
  then show "ReadPin_host p (gpio_Init p i ps) = gi_level i" using WritePin_level[OF assms(1)] by (simp add: w_def)
qed

end
