(* ===== verification/Shift_Register.thy ===== *)
theory Shift_Register
  imports Gpio Leds
begin

text \<open>
  The class \<open>SHR16\<close> down to the pins (\<open>hal/avr/shr16.cpp\<close>). The board is the ports of the microcontroller with
  the chain of the two 74HC595 behind three of its pins: a rising clock shifts the data pin into the chain, a rising latch
  shows the chain at the outputs. The list of everything the outputs have shown is kept, so that the theorem can
  say that nothing is shown on the way from one value to the next. Delays have no effect on the state.
\<close>

section \<open>The board\<close>

record Board =
  b_ports :: ports
  b_stage :: u16
  b_outputs :: "u16 list"
  b_shr16_v :: u16

definition rising :: "GPIO_pin \<Rightarrow> ports \<Rightarrow> ports \<Rightarrow> bool" where
  "rising pin old new \<longleftrightarrow> \<not> driven_high pin old \<and> driven_high pin new"

definition on_ports :: "ports \<Rightarrow> Board \<Rightarrow> Board" where
  "on_ports new b =
     b\<lparr>b_ports := new,
       b_stage := (if rising SHR16_CLOCK (b_ports b) new
                   then push_bit 1 (b_stage b) OR (if driven_high SHR16_DATA new then 1 else 0) else b_stage b),
       b_outputs := (if rising SHR16_LATCH (b_ports b) new then b_outputs b @ [b_stage b] else b_outputs b)\<rparr>"

definition write_pin :: "GPIO_pin \<Rightarrow> Level \<Rightarrow> Board \<Rightarrow> Board" where
  "write_pin pin l b = on_ports (WritePin pin l (b_ports b)) b"

definition init_pin :: "GPIO_pin \<Rightarrow> GPIO_InitTypeDef \<Rightarrow> Board \<Rightarrow> Board" where
  "init_pin pin i b = on_ports (gpio_Init pin i (b_ports b)) b"

section \<open>The class\<close>

text \<open>One turn of the loop, and the loop, which ends when the mask has run out.\<close>

definition shift_bit :: "u16 \<Rightarrow> u16 \<Rightarrow> Board \<Rightarrow> Board" where
  "shift_bit m v b =
     (let b = write_pin SHR16_CLOCK low b;
          b = write_pin SHR16_DATA (if m AND v \<noteq> 0 then high else low) b
      in write_pin SHR16_CLOCK high b)"

function shift_out :: "u16 \<Rightarrow> u16 \<Rightarrow> Board \<Rightarrow> Board" where
  "shift_out m v b = (if m = 0 then b else shift_out (drop_bit 1 m) v (shift_bit m v b))"
  by pat_completeness auto
termination
proof (relation "measure (\<lambda>(m, v, b). unat m)")
  fix m v :: u16 and b :: Board
  assume "m \<noteq> 0"
  then have "0 < unat m" by (simp add: unat_gt_0)
  then show "((drop_bit 1 m, v, shift_bit m v b), (m, v, b)) \<in> measure (\<lambda>(m, v, b). unat m)"
    by (simp add: unat_drop_bit)
qed simp

declare shift_out.simps [simp del]

definition Board_Write :: "u16 \<Rightarrow> Board \<Rightarrow> Board" where
  "Board_Write v b =
     (let b = shift_out 0x8000 v b;
          b = write_pin SHR16_CLOCK low b;
          b = write_pin SHR16_LATCH high b;
          b = write_pin SHR16_LATCH low b
      in b\<lparr>b_shr16_v := v\<rparr>)"

definition Board_Init :: "GPIO_InitTypeDef \<Rightarrow> Board \<Rightarrow> Board" where
  "Board_Init mem b =
     (let b = init_pin SHR16_DATA (InitTypeDef_level mem mode_output low) b;
          b = init_pin SHR16_LATCH (InitTypeDef_level mem mode_output low) b;
          b = init_pin SHR16_CLOCK (InitTypeDef_level mem mode_output low) b
      in Board_Write SHR16_ENA_MSK b)"

definition Board_SetLED :: "u16 \<Rightarrow> Board \<Rightarrow> Board" where
  "Board_SetLED led b = Board_Write ((b_shr16_v b AND NOT SHR16_LED_MSK) OR led_bits led) b"

definition Board_SetTMCEnabled :: "nat \<Rightarrow> bool \<Rightarrow> Board \<Rightarrow> Board" where
  "Board_SetTMCEnabled index ena b =
     (let m = push_bit (2 * index + 1) 1
      in if ena then Board_Write (b_shr16_v b AND NOT m) b else Board_Write (b_shr16_v b OR m) b)"

definition Board_SetTMCDir :: "nat \<Rightarrow> bool \<Rightarrow> Board \<Rightarrow> Board" where
  "Board_SetTMCDir index dir b =
     (let m = push_bit (2 * index) 1
      in if dir then Board_Write (b_shr16_v b AND NOT m) b else Board_Write (b_shr16_v b OR m) b)"

section \<open>The contract of an output register\<close>

text \<open>
  A register with a copy of its content, of which every content is shown once; clients change it by functions of the content.
\<close>

fun contents :: "('a \<Rightarrow> 'a) list \<Rightarrow> 'a \<Rightarrow> 'a list" where
  "contents [] x = []"
| "contents (f # fs) x = f x # contents fs (f x)"

locale output_register =
  fixes put :: "u16 \<Rightarrow> 's \<Rightarrow> 's" and content :: "'s \<Rightarrow> u16" and shown :: "'s \<Rightarrow> u16 list" and ok :: "'s \<Rightarrow> bool"
  assumes put_ok: "ok s \<Longrightarrow> ok (put v s)"
    and put_content: "ok s \<Longrightarrow> content (put v s) = v"
    and put_shown: "ok s \<Longrightarrow> shown (put v s) = shown s @ [v]"
begin

lemma updates:
  assumes "ok s"
  shows "ok (fold (\<lambda>f s. put (f (content s)) s) fs s)"
    and "content (fold (\<lambda>f s. put (f (content s)) s) fs s) = fold id fs (content s)"
    and "shown (fold (\<lambda>f s. put (f (content s)) s) fs s) = shown s @ contents fs (content s)"
  using assms by (induction fs arbitrary: s) (simp_all add: put_ok put_content put_shown)

end

section \<open>Writing to the chain\<close>

definition chain_pins :: "GPIO_pin list" where "chain_pins = [SHR16_DATA, SHR16_LATCH, SHR16_CLOCK]"

definition other_pins :: "GPIO_pin list" where "other_pins = filter (\<lambda>p. p \<notin> set chain_pins) board_pins"

definition chain_ready :: "Board \<Rightarrow> bool" where
  "chain_ready b \<longleftrightarrow> list_all (\<lambda>p. is_output p (b_ports b)) chain_pins \<and> ReadPin_host SHR16_LATCH (b_ports b) = low"

definition levels :: "Board \<Rightarrow> (bool \<times> Level) list" where
  "levels b = map (\<lambda>q. (is_output q (b_ports b), ReadPin_host q (b_ports b))) other_pins"

lemma chain_pins_apart [simp]:
  "apart SHR16_DATA SHR16_LATCH" "apart SHR16_LATCH SHR16_DATA" "apart SHR16_DATA SHR16_CLOCK"
  "apart SHR16_CLOCK SHR16_DATA" "apart SHR16_LATCH SHR16_CLOCK" "apart SHR16_CLOCK SHR16_LATCH"
  "is_pin SHR16_DATA" "is_pin SHR16_LATCH" "is_pin SHR16_CLOCK"
  by code_simp+

lemma chain_others_apart: "p \<in> set chain_pins \<Longrightarrow> q \<in> set other_pins \<Longrightarrow> apart p q"
proof -
  have "list_all (\<lambda>p. list_all (apart p) other_pins) chain_pins" by code_simp
  then show "p \<in> set chain_pins \<Longrightarrow> q \<in> set other_pins \<Longrightarrow> apart p q" by (simp add: list_all_iff)
qed

lemmas pin_rules = rising_def driven_high_def WritePin_level WritePin_apart

lemma write_pin_frame:
  assumes "p \<in> set chain_pins"
  shows "levels (write_pin p l b) = levels b" "b_shr16_v (write_pin p l b) = b_shr16_v b"
  using chain_others_apart[OF assms] by (auto simp: levels_def write_pin_def on_ports_def WritePin_apart)

lemma levels_update [simp]: "levels (b\<lparr>b_shr16_v := v\<rparr>) = levels b"
  by (simp add: levels_def)

lemma write_pin_ports [simp]: "b_ports (write_pin p l b) = WritePin p l (b_ports b)"
  by (simp add: write_pin_def on_ports_def)

lemma write_data [simp]:
  "b_stage (write_pin SHR16_DATA l b) = b_stage b" "b_outputs (write_pin SHR16_DATA l b) = b_outputs b"
  by (auto simp: write_pin_def on_ports_def pin_rules)

lemma write_clock [simp]:
  "b_outputs (write_pin SHR16_CLOCK l b) = b_outputs b"
  "b_stage (write_pin SHR16_CLOCK low b) = b_stage b"
  by (auto simp: write_pin_def on_ports_def pin_rules)

lemma write_latch [simp]:
  "b_stage (write_pin SHR16_LATCH l b) = b_stage b"
  "b_outputs (write_pin SHR16_LATCH low b) = b_outputs b"
  by (auto simp: write_pin_def on_ports_def pin_rules)

lemma clock_rises:
  assumes "is_output SHR16_CLOCK (b_ports b)" "ReadPin_host SHR16_CLOCK (b_ports b) = low"
  shows "b_stage (write_pin SHR16_CLOCK high b) =
    push_bit 1 (b_stage b) OR (if driven_high SHR16_DATA (b_ports b) then 1 else 0)"
  using assms by (simp add: write_pin_def on_ports_def pin_rules)

lemma latch_rises:
  assumes "is_output SHR16_LATCH (b_ports b)" "ReadPin_host SHR16_LATCH (b_ports b) = low"
  shows "b_outputs (write_pin SHR16_LATCH high b) = b_outputs b @ [b_stage b]"
  using assms by (simp add: write_pin_def on_ports_def pin_rules)

lemma chain_ready_iff:
  "chain_ready b \<longleftrightarrow> is_output SHR16_DATA (b_ports b) \<and> is_output SHR16_LATCH (b_ports b)
     \<and> is_output SHR16_CLOCK (b_ports b) \<and> ReadPin_host SHR16_LATCH (b_ports b) = low"
  by (simp add: chain_ready_def chain_pins_def)

lemma shift_bit_facts:
  assumes "chain_ready b"
  shows "chain_ready (shift_bit m v b)"
    and "b_stage (shift_bit m v b) = push_bit 1 (b_stage b) OR (if m AND v \<noteq> 0 then 1 else 0)"
    and "b_outputs (shift_bit m v b) = b_outputs b"
    and "levels (shift_bit m v b) = levels b"
  using assms
  by (simp_all add: shift_bit_def Let_def write_pin_frame chain_pins_def chain_ready_iff clock_rises driven_high_def
      WritePin_level WritePin_apart)

lemma stage_step:
  "push_bit n (push_bit 1 s OR (if push_bit n 1 AND v \<noteq> 0 then 1 else 0)) OR take_bit n v
     = push_bit (Suc n) s OR take_bit (Suc n) (v :: 'a::len word)"
proof -
  have b: "push_bit n 1 AND v \<noteq> 0 \<longleftrightarrow> bit v n" by (metis and.commute and_bit_neq_0)
  have t: "push_bit n (if bit v n then 1 else 0) OR take_bit n v = take_bit (Suc n) v"
    by (auto intro!: bit_word_eqI simp: bit_simps less_Suc_eq)
  show ?thesis unfolding b t[symmetric] push_bit_or push_bit_push_bit by (simp only: or.assoc) simp
qed

lemma shift_out_facts:
  assumes "chain_ready b" "n < 16"
  shows "chain_ready (shift_out (push_bit n 1) v b)
    \<and> b_stage (shift_out (push_bit n 1) v b) = push_bit (Suc n) (b_stage b) OR take_bit (Suc n) v
    \<and> b_outputs (shift_out (push_bit n 1) v b) = b_outputs b
    \<and> levels (shift_out (push_bit n 1) v b) = levels b"
  using assms
proof (induction n arbitrary: b)
  case 0
  have "shift_out 1 v b = shift_bit 1 v b" by (simp add: shift_out.simps[of 1] shift_out.simps[of 0])
  then show ?case using shift_bit_facts[OF 0(1), of 1 v] stage_step[of 0 "b_stage b" v] by simp
next
  case (Suc n)
  have "drop_bit 1 (push_bit (Suc n) 1 :: u16) = push_bit n 1"
    using Suc.prems(2) by (intro bit_word_eqI) (auto simp: bit_simps)
  moreover have "push_bit (Suc n) 1 \<noteq> (0 :: u16)"
    using Suc.prems(2) by (simp only: push_bit_of_1 exp_eq_zero_iff) simp
  ultimately have "shift_out (push_bit (Suc n) 1) v b = shift_out (push_bit n 1) v (shift_bit (push_bit (Suc n) 1) v b)"
    using shift_out.simps[of "push_bit (Suc n) 1"] by presburger
  moreover note shift_bit_facts[OF Suc.prems(1), of "push_bit (Suc n) 1" v]
  ultimately show ?case
    using Suc.IH[of "shift_bit (push_bit (Suc n) 1) v b"] Suc.prems(2) stage_step[of "Suc n" "b_stage b" v]
    by (simp only:)
qed

lemma Board_Write_facts:
  assumes "chain_ready b"
  shows "chain_ready (Board_Write v b)" "b_shr16_v (Board_Write v b) = v"
    "b_outputs (Board_Write v b) = b_outputs b @ [v]" "levels (Board_Write v b) = levels b"
proof -
  define c where "c = shift_out 0x8000 v b"
  have c: "chain_ready c" "b_stage c = v" "b_outputs c = b_outputs b" "levels c = levels b"
    using shift_out_facts[OF assms, of 15 v] by (simp_all add: c_def take_bit_word_eq_self)
  then show "chain_ready (Board_Write v b)" "b_shr16_v (Board_Write v b) = v"
    "b_outputs (Board_Write v b) = b_outputs b @ [v]"
    by (simp_all add: Board_Write_def c_def[symmetric] Let_def chain_ready_iff latch_rises WritePin_level WritePin_apart)
  show "levels (Board_Write v b) = levels b"
    using c(4) by (simp add: Board_Write_def c_def[symmetric] Let_def levels_update write_pin_frame chain_pins_def)
qed

interpretation board: output_register Board_Write b_shr16_v b_outputs chain_ready
  by unfold_locales (simp_all add: Board_Write_facts)

section \<open>From the start\<close>

text \<open>Initialising a pin shows nothing new if the pin is not the latch, or is set low.\<close>

lemma init_pin_ports [simp]: "b_ports (init_pin p i b) = gpio_Init p i (b_ports b)"
  by (simp add: init_pin_def on_ports_def)

lemma init_pin_outputs:
  assumes "apart p SHR16_LATCH \<or> p = SHR16_LATCH \<and> gi_mode i = mode_output \<and> gi_level i = low"
  shows "b_outputs (init_pin p i b) = b_outputs b"
proof -
  have "\<not> rising SHR16_LATCH (b_ports b) (gpio_Init p i (b_ports b))"
    using assms by (auto simp: rising_def driven_high_def gpio_Init_apart gpio_Init_output)
  then show ?thesis by (simp add: init_pin_def on_ports_def)
qed

lemma init_pin_levels: "p \<in> set chain_pins \<Longrightarrow> levels (init_pin p i b) = levels b"
  using chain_others_apart[of p] by (simp add: levels_def gpio_Init_apart)

lemma Board_Init_facts:
  shows "chain_ready (Board_Init mem b)" "b_shr16_v (Board_Init mem b) = SHR16_ENA_MSK"
    "b_outputs (Board_Init mem b) = b_outputs b @ [SHR16_ENA_MSK]" "levels (Board_Init mem b) = levels b"
proof -
  define i where "i = InitTypeDef_level mem mode_output low"
  have i: "gi_mode i = mode_output" "gi_level i = low" by (simp_all add: i_def InitTypeDef_level_def)
  define c where "c = init_pin SHR16_CLOCK i (init_pin SHR16_LATCH i (init_pin SHR16_DATA i b))"
  have e: "Board_Init mem b = Board_Write SHR16_ENA_MSK c" by (simp add: Board_Init_def c_def i_def)
  have r: "chain_ready c" by (simp add: c_def chain_ready_iff gpio_Init_output gpio_Init_apart i)
  have "b_outputs c = b_outputs b" "levels c = levels b"
    by (simp_all add: c_def init_pin_outputs init_pin_levels chain_pins_def i)
  then show "chain_ready (Board_Init mem b)" "b_shr16_v (Board_Init mem b) = SHR16_ENA_MSK"
    "b_outputs (Board_Init mem b) = b_outputs b @ [SHR16_ENA_MSK]" "levels (Board_Init mem b) = levels b"
    using Board_Write_facts[OF r] by (simp_all add: e)
qed

section \<open>The class refines its abstract model\<close>

text \<open>A call of one of the three operations, on the content of the register (theory \<open>Leds\<close>) and on the board.\<close>

datatype shr16_call = SetLED u16 | SetTMCEnabled nat bool | SetTMCDir nat bool

fun call_register :: "shr16_call \<Rightarrow> SHR16 \<Rightarrow> SHR16" where
  "call_register (SetLED l) = SHR16_SetLED l"
| "call_register (SetTMCEnabled i e) = SHR16_SetTMCEnabled i e"
| "call_register (SetTMCDir i d) = SHR16_SetTMCDir i d"

fun call_board :: "shr16_call \<Rightarrow> Board \<Rightarrow> Board" where
  "call_board (SetLED l) = Board_SetLED l"
| "call_board (SetTMCEnabled i e) = Board_SetTMCEnabled i e"
| "call_board (SetTMCDir i d) = Board_SetTMCDir i d"

lemma call_board_update: "call_board c = (\<lambda>b. Board_Write (call_register c (b_shr16_v b)) b)"
  by (cases c) (auto simp: fun_eq_iff Board_SetLED_def Board_SetTMCEnabled_def Board_SetTMCDir_def SHR16_SetLED_def
      SHR16_SetTMCEnabled_def SHR16_SetTMCDir_def SHR16_Write_def Let_def)

lemma fold_call_board: "fold call_board cs b = fold (\<lambda>f b. Board_Write (f (b_shr16_v b)) b) (map call_register cs) b"
  by (induction cs arbitrary: b) (simp_all add: call_board_update)

text \<open>C10: what the two shift registers show is exactly what the model of the rest of the firmware says. From any
  state of the pins, initialisation first disables the drivers, and each further call shows one new
  value, the one the operation on the content gives; nothing is shown in between, while the sixteen bits are
  shifted, the copy of the content is right, and no other pin of the board changes its direction or its
  output.\<close>

theorem shift_register_outputs:
  "let b' = fold call_board cs (Board_Init mem b) in
     b_outputs b' = b_outputs b @ [SHR16_Init s] @ contents (map call_register cs) (SHR16_Init s)
     \<and> b_shr16_v b' = fold call_register cs (SHR16_Init s) \<and> levels b' = levels b"
proof -
  have "chain_ready c \<Longrightarrow> levels (fold call_board cs c) = levels c" for c
    by (induction cs arbitrary: c) (simp_all add: call_board_update Board_Write_facts)
  moreover have "fold id (map call_register cs) = fold call_register cs" by (simp add: fold_map comp_def)
  ultimately show ?thesis
    using Board_Init_facts[of mem b] board.updates(2,3)[OF Board_Init_facts(1)[of mem b], of "map call_register cs"]
    by (simp add: fold_call_board SHR16_Init_def SHR16_Write_def)
qed

end
