(* ===== verification/Peripherals.thy ===== *)
theory Peripherals
  imports Gpio Tmc2130 Serial
begin

text \<open>
  The peripherals of the microcontroller as the code sets them up and waits for them: SPI (\<open>hal/spi.h\<close>, \<open>hal/avr/spi.cpp\<close>), the
  converter (\<open>hal/adc.cpp\<close>), the timers (\<open>hal/timers.h\<close>, \<open>hal/avr/timers.cpp\<close>, \<open>Motion::Init\<close>), the serial line's
  registers (\<open>hal/usart.h\<close>, \<open>hal/avr/usart.cpp\<close>), the watchdog and the processor (\<open>hal/watchdog.h\<close>, \<open>hal/avr/cpu.cpp\<close>). A peripheral is
  the record of its registers. What the hardware puts into a register while the code polls it is a
  sequence, an argument of the operation; a loop that polls is a partial function, so that waiting for ever is the value \<open>None\<close>.
  Bit numbers are those of the ATmega32U4.
\<close>

section \<open>Polling\<close>

partial_function (option) wait_for :: "(nat \<Rightarrow> bool) \<Rightarrow> nat \<Rightarrow> nat option" where
  "wait_for ready n = (if ready n then Some n else wait_for ready (Suc n))"

lemma wait_for_ready: "ready n \<Longrightarrow> wait_for ready n = Some n"
  by (simp add: wait_for.simps)

text \<open>The loop ends at the first reading that is ready, and ends at all exactly if there is one.\<close>

lemma wait_for_first:
  assumes "ready (n + k)" "\<And>j. j < k \<Longrightarrow> \<not> ready (n + j)"
  shows "wait_for ready n = Some (n + k)"
  using assms
proof (induction k arbitrary: n)
  case (Suc k)
  have "\<not> ready n" using Suc.prems(2)[of 0] by simp
  then have "wait_for ready n = wait_for ready (Suc n)" by (subst wait_for.simps) simp
  also have "\<dots> = Some (Suc n + k)"
  proof (rule Suc.IH)
    fix j assume "j < k" then show "\<not> ready (Suc n + j)" using Suc.prems(2)[of "Suc j"] by simp
  qed (use Suc.prems(1) in simp)
  finally show ?case by simp
qed (simp add: wait_for_ready)

lemma wait_for_sound:
  assumes "wait_for ready n = Some m" shows "n \<le> m \<and> ready m"
proof (rule wait_for.raw_induct[of "\<lambda>ready n m. n \<le> m \<and> ready m", OF _ assms])
  fix wait ready n m
  assume "\<And>ready n m. wait ready n = Some m \<Longrightarrow> n \<le> m \<and> ready m"
    and "(if ready n then Some n else wait ready (Suc n)) = Some m"
  then show "n \<le> m \<and> ready m" by (auto split: if_splits dest: Suc_leD)
qed

lemma wait_for_ends: "(\<exists>m. wait_for ready n = Some m) \<longleftrightarrow> (\<exists>m\<ge>n. ready m)"
proof
  assume "\<exists>m\<ge>n. ready m"
  then obtain m where m: "n \<le> m" "ready m" by blast
  define k where "k = (LEAST k. ready (n + k))"
  have "ready (n + (m - n))" using m by simp
  then have "ready (n + k)" "\<And>j. j < k \<Longrightarrow> \<not> ready (n + j)"
    unfolding k_def by (rule LeastI, use not_less_Least in blast)
  from wait_for_first[of ready, OF this] show "\<exists>m. wait_for ready n = Some m" by blast
qed (use wait_for_sound in blast)

section \<open>SPI\<close>

record SPI_TypeDef =
  SPCRx :: u8
  SPSRx :: u8
  SPDRx :: u8

record SPI_InitTypeDef =
  miso_pin :: GPIO_pin
  mosi_pin :: GPIO_pin
  sck_pin :: GPIO_pin
  ss_pin :: GPIO_pin
  prescaler :: u8
  cpha :: u8
  cpol :: u8

definition spi_spi2x :: "SPI_InitTypeDef \<Rightarrow> u8" where
  "spi_spi2x conf = (if prescaler conf = 7 then 0 else prescaler conf AND 0x01)"

definition spi_spr :: "SPI_InitTypeDef \<Rightarrow> u8" where
  "spi_spr conf = word_of_int (drop_bit 1 (uint (prescaler conf) - 1)) AND 0x03"

definition spi_Init :: "GPIO_InitTypeDef \<Rightarrow> SPI_InitTypeDef \<Rightarrow> SPI_TypeDef \<times> ports \<Rightarrow> SPI_TypeDef \<times> ports" where
  "spi_Init mem conf = (\<lambda>(hspi, ps).
     let ps = gpio_Init (miso_pin conf) (InitTypeDef_pull mem mode_input none) ps;
         ps = gpio_Init (mosi_pin conf) (InitTypeDef_level mem mode_output low) ps;
         ps = gpio_Init (sck_pin conf) (InitTypeDef_level mem mode_output low) ps;
         ps = gpio_Init (ss_pin conf) (InitTypeDef_level mem mode_output high) ps
     in (hspi\<lparr>SPCRx := push_bit 6 1 OR push_bit 4 1 OR push_bit 3 (cpol conf AND 0x01)
                        OR push_bit 2 (cpha conf AND 0x01) OR spi_spr conf,
              SPSRx := spi_spi2x conf\<rparr>, ps))"

text \<open>
  A byte is exchanged: the data register is written, the status register read until bit 7 is set, the data register read.
  The bus is a function of the byte written: the successive readings of the status, and the byte received.
\<close>

definition TxRx :: "(u8 \<Rightarrow> (nat \<Rightarrow> u8) \<times> u8) \<Rightarrow> SPI_TypeDef \<Rightarrow> u8 \<Rightarrow> (u8 \<times> SPI_TypeDef) option" where
  "TxRx bus hspi val =
     (let hspi = hspi\<lparr>SPDRx := val\<rparr>; (status, received) = bus (SPDRx hspi)
      in map_option (\<lambda>n. (received, hspi\<lparr>SPSRx := status n, SPDRx := received\<rparr>))
           (wait_for (\<lambda>n. status n AND push_bit 7 1 \<noteq> 0) 0))"

text \<open>The divider of the clock that the bits \<open>SPI2X\<close> and \<open>SPR\<close> select.\<close>

definition spi_divider :: "SPI_TypeDef \<Rightarrow> nat" where
  "spi_divider h = [4, 16, 64, 128] ! unat (SPCRx h AND 0x03) div (if bit (SPSRx h) 0 then 2 else 1)"

section \<open>The converter\<close>

record ADC_regs =
  ADMUX :: u8
  ADCSRA :: u8
  ADCSRB :: u8

definition adc_Init :: "ADC_regs \<Rightarrow> ADC_regs" where
  "adc_Init r =
     (let r = r\<lparr>ADCSRA := ADCSRA r OR push_bit 2 1 OR push_bit 1 1 OR push_bit 0 1\<rparr>;
          r = r\<lparr>ADMUX := ADMUX r OR push_bit 6 1\<rparr>
      in r\<lparr>ADCSRA := ADCSRA r OR push_bit 7 1\<rparr>)"

definition adc_select :: "u8 \<Rightarrow> ADC_regs \<Rightarrow> ADC_regs" where
  "adc_select channel r =
     (let admux = ADMUX r; admux = admux AND NOT 0x1F; admux = admux OR (channel AND 0x1F);
          r = r\<lparr>ADMUX := admux\<rparr>;
          adcsrb = ADCSRB r; adcsrb = adcsrb AND NOT (push_bit 5 1); adcsrb = adcsrb OR (channel AND 0x20)
      in r\<lparr>ADCSRB := adcsrb\<rparr>)"

text \<open>The converter is a function of the registers when the conversion starts: the successive readings of \<open>ADCSRA\<close>, and the value.\<close>

definition ReadADC :: "(ADC_regs \<Rightarrow> (nat \<Rightarrow> u8) \<times> u16) \<Rightarrow> u8 \<Rightarrow> ADC_regs \<Rightarrow> (u16 \<times> ADC_regs) option" where
  "ReadADC converter channel r =
     (let r = adc_select channel r;
          r = r\<lparr>ADCSRA := ADCSRA r OR push_bit 6 1\<rparr>;
          (status, result) = converter r
      in map_option (\<lambda>n. (result, r\<lparr>ADCSRA := status n\<rparr>)) (wait_for (\<lambda>n. status n AND push_bit 6 1 = 0) 0))"

text \<open>The channel the multiplexer has selected.\<close>

definition adc_channel :: "ADC_regs \<Rightarrow> u8" where
  "adc_channel r = (ADMUX r AND 0x1F) OR (ADCSRB r AND 0x20)"

lemma adc_select_facts:
  "adc_channel (adc_select c r) = c AND 0x3F"
  "ADMUX (adc_select c r) AND NOT 0x1F = ADMUX r AND NOT 0x1F"
  "ADCSRB (adc_select c r) AND NOT 0x20 = ADCSRB r AND NOT 0x20"
  "ADCSRA (adc_select c r) = ADCSRA r"
proof -
  have m: "((a AND NOT k) OR (c AND k)) AND k = c AND k" for a k :: u8
    by (rule bit_word_eqI) (auto simp: bit_simps)
  have o: "((a AND NOT k) OR (c AND k)) AND NOT k = a AND NOT k" for a k :: u8
    by (rule bit_word_eqI) (auto simp: bit_simps)
  have "(c AND 0x1F) OR (c AND 0x20) = c AND 0x3F" by (simp flip: bit.conj_disj_distrib)
  then show "adc_channel (adc_select c r) = c AND 0x3F"
    using m[of _ "0x1F"] m[of _ "0x20"] by (simp add: adc_channel_def adc_select_def)
  show "ADMUX (adc_select c r) AND NOT 0x1F = ADMUX r AND NOT 0x1F"
    "ADCSRB (adc_select c r) AND NOT 0x20 = ADCSRB r AND NOT 0x20"
    using o[of _ "0x1F"] o[of _ "0x20"] by (simp_all add: adc_select_def)
  show "ADCSRA (adc_select c r) = ADCSRA r" by (simp add: adc_select_def)
qed

section \<open>Timers\<close>

record Tim8bit_TypeDef =
  TCCRxA :: u8
  TCCRxB :: u8
  TCNTx :: u8
  OCRxA :: u8
  OCRxB :: u8

record Tim8bit_CTC_config =
  cs :: u8
  ocra :: u8

text \<open>The 8-bit timer with the mask and flag registers of all timers; a flag is cleared by writing a one to it.\<close>

record Timers =
  ti_tim8 :: Tim8bit_TypeDef
  ti_TIMSK :: "nat \<Rightarrow> u8"
  ti_TIFR :: "nat \<Rightarrow> u8"

definition Configure_CTC8 :: "nat \<Rightarrow> Tim8bit_CTC_config \<Rightarrow> Timers \<Rightarrow> Timers" where
  "Configure_CTC8 timer conf t =
     (let t = t\<lparr>ti_TIMSK := (ti_TIMSK t)(timer := 0)\<rparr>;
          t = t\<lparr>ti_tim8 := (ti_tim8 t)\<lparr>TCCRxA := push_bit 1 1\<rparr>\<rparr>;
          t = t\<lparr>ti_tim8 := (ti_tim8 t)\<lparr>TCCRxB := cs conf\<rparr>\<rparr>;
          t = t\<lparr>ti_tim8 := (ti_tim8 t)\<lparr>OCRxA := ocra conf\<rparr>\<rparr>;
          t = t\<lparr>ti_tim8 := (ti_tim8 t)\<lparr>TCNTx := 0\<rparr>\<rparr>;
          t = t\<lparr>ti_TIFR := (ti_TIFR t)(timer := ti_TIFR t timer AND NOT 0xFF)\<rparr>
      in t\<lparr>ti_TIMSK := (ti_TIMSK t)(timer := push_bit 1 1)\<rparr>)"

definition Timebase_Init :: "Timers \<Rightarrow> Timers" where
  "Timebase_Init = Configure_CTC8 0 \<lparr>cs = 3, ocra = 250 - 1\<rparr>"

text \<open>The clock divider of the selection bits, and the cycles between two interrupts of a timer that counts to \<open>OCRxA\<close>.\<close>

definition clock_divider :: "u8 \<Rightarrow> nat" where
  "clock_divider sel = [0, 1, 8, 64, 256, 1024, 0, 0] ! unat (sel AND 0x07)"

definition ctc_period :: "Tim8bit_TypeDef \<Rightarrow> nat" where
  "ctc_period t = clock_divider (TCCRxB t) * (unat (OCRxA t) + 1)"

text \<open>The 16-bit timer of the stepping interrupt.\<close>

record Timer1 =
  TCCR1A :: u8
  TCCR1B :: u8
  OCR1A :: u16
  TCNT1 :: u16
  TIMSK1 :: u8

definition IsrSetEnabled :: "bool \<Rightarrow> Timer1 \<Rightarrow> Timer1" where
  "IsrSetEnabled state t =
     (if state then t\<lparr>TIMSK1 := TIMSK1 t OR push_bit 1 1\<rparr> else t\<lparr>TIMSK1 := TIMSK1 t AND NOT (push_bit 1 1)\<rparr>)"

definition IsrDisable :: "Timer1 \<Rightarrow> bool \<times> Timer1" where
  "IsrDisable t = (TIMSK1 t AND push_bit 1 1 \<noteq> 0, t\<lparr>TIMSK1 := TIMSK1 t AND NOT (push_bit 1 1)\<rparr>)"

definition Motion_Init_timer :: "Timer1 \<Rightarrow> Timer1" where
  "Motion_Init_timer t =
     (let t = t\<lparr>TCCR1B := TCCR1B t AND NOT (push_bit 4 1)\<rparr>;
          t = t\<lparr>TCCR1B := TCCR1B t OR push_bit 3 1\<rparr>;
          t = t\<lparr>TCCR1A := TCCR1A t AND NOT (push_bit 1 1)\<rparr>;
          t = t\<lparr>TCCR1A := TCCR1A t AND NOT (push_bit 0 1)\<rparr>;
          t = t\<lparr>TCCR1A := TCCR1A t AND NOT (push_bit 6 3)\<rparr>;
          t = t\<lparr>TCCR1A := TCCR1A t AND NOT (push_bit 4 3)\<rparr>;
          t = t\<lparr>TCCR1B := (TCCR1B t AND NOT (push_bit 0 0x07)) OR push_bit 0 2\<rparr>;
          t = t\<lparr>OCR1A := 0x4000\<rparr>;
          t = t\<lparr>TCNT1 := 0\<rparr>
      in IsrSetEnabled True t)"

text \<open>The mode of the 16-bit timer is in four bits of two registers; mode 4 counts to \<open>OCR1A\<close>.\<close>

definition waveform :: "Timer1 \<Rightarrow> bool list" where
  "waveform t = [bit (TCCR1B t) 4, bit (TCCR1B t) 3, bit (TCCR1A t) 1, bit (TCCR1A t) 0]"

lemma Motion_Init_timer_facts:
  "waveform (Motion_Init_timer t) = [False, True, False, False]"
  "clock_divider (TCCR1B (Motion_Init_timer t)) = stepTimerFrequencyDivider"
  "TCCR1A (Motion_Init_timer t) = TCCR1A t AND 0x0C"
  "bit (TIMSK1 (Motion_Init_timer t)) 1"
proof -
  show "waveform (Motion_Init_timer t) = [False, True, False, False]"
    by (simp add: waveform_def Motion_Init_timer_def IsrSetEnabled_def Let_def bit_simps)
  have "((a AND NOT 0x07) OR 2) AND 0x07 = 2" for a :: u8
    by (simp add: bit.conj_disj_distrib2 and.assoc)
  then show "clock_divider (TCCR1B (Motion_Init_timer t)) = stepTimerFrequencyDivider"
    by (simp add: clock_divider_def Motion_Init_timer_def IsrSetEnabled_def Let_def stepTimerFrequencyDivider_def)
  have n: "0x0C = (- 244 :: u8)" by simp
  show "TCCR1A (Motion_Init_timer t) = TCCR1A t AND 0x0C"
    unfolding n by (simp add: Motion_Init_timer_def IsrSetEnabled_def Let_def and.assoc)
  show "bit (TIMSK1 (Motion_Init_timer t)) 1"
    by (simp add: Motion_Init_timer_def IsrSetEnabled_def Let_def bit_simps)
qed

section \<open>The registers of the serial line\<close>

record USART_regs =
  UCSRxA :: u8
  UCSRxB :: u8
  UCSRxC :: u8
  UCSRxD :: u8
  UBRRx :: u16

record USART_InitTypeDef =
  rx_pin :: GPIO_pin
  tx_pin :: GPIO_pin
  baudrate :: u32

text \<open>Double precision is exact rational arithmetic, the conversion to an integer truncates.\<close>

definition UART_BAUD_SELECT :: "u32 \<Rightarrow> nat \<Rightarrow> u16" where
  "UART_BAUD_SELECT baud xtal = word_of_int (truncate_rat (of_nat xtal / (of_nat (unat baud) * 8) - 1 + 1 / 2))"

definition usart_registers :: "u32 \<Rightarrow> USART_regs \<Rightarrow> USART_regs" where
  "usart_registers baud r =
     (let r = r\<lparr>UBRRx := UART_BAUD_SELECT baud F_CPU\<rparr>;
          r = r\<lparr>UCSRxA := UCSRxA r OR push_bit 1 1\<rparr>;
          r = r\<lparr>UCSRxD := 0\<rparr>
      in r\<lparr>UCSRxB := push_bit 3 1 OR push_bit 7 1\<rparr>)"

definition USART_Init :: "GPIO_InitTypeDef \<Rightarrow> USART_InitTypeDef \<Rightarrow> USART_regs \<times> ports \<Rightarrow> USART_regs \<times> ports" where
  "USART_Init mem conf = (\<lambda>(r, ps).
     let ps = gpio_Init (rx_pin conf) (InitTypeDef_level mem mode_input low) ps;
         ps = gpio_Init (tx_pin conf) (InitTypeDef_level mem mode_output low) ps
     in (usart_registers (baudrate conf) r, ps))"

definition rx_enable :: "USART_regs \<Rightarrow> USART_regs" where
  "rx_enable r = r\<lparr>UCSRxB := UCSRxB r OR push_bit 4 1\<rparr>"

text \<open>Strings end with a zero byte.\<close>

fun WriteS :: "u8 list \<Rightarrow> USART \<Rightarrow> USART" where
  "WriteS [] u = u"
| "WriteS (c # str) u = (if c \<noteq> 0 then WriteS str (USART_Write c u) else u)"

definition USART_puts :: "u8 list \<Rightarrow> USART \<Rightarrow> USART" where
  "USART_puts str u = USART_Write 0x0a (WriteS str u)"

text \<open>
  Waiting until everything is sent. The outside world (\<open>env\<close>) acts before every reading of the registers; \<open>ucsra\<close> gives the
  readings of \<open>UCSRxA\<close>, which the condition reads first and the body second. The operand of \<open>~\<close> is promoted to a 16-bit integer.
\<close>

definition Flush_waits :: "u8 \<Rightarrow> USART \<Rightarrow> bool" where
  "Flush_waits status u \<longleftrightarrow> us_udrie u \<or> NOT (u16_of_u8 (status AND push_bit 6 1)) \<noteq> 0"

partial_function (option) Flush_loop ::
  "(nat \<Rightarrow> USART \<Rightarrow> USART) \<Rightarrow> (nat \<Rightarrow> u8 \<times> u8) \<Rightarrow> bool \<Rightarrow> nat \<Rightarrow> USART \<Rightarrow> USART option" where
  "Flush_loop env ucsra interrupts n u =
     (let u = env n u in
      if Flush_waits (fst (ucsra n)) u
      then Flush_loop env ucsra interrupts (Suc n)
             (if \<not> interrupts \<and> us_udrie u \<and> snd (ucsra n) AND push_bit 5 1 \<noteq> 0 then ISR_UDRE u else u)
      else Some u)"

definition USART_Flush :: "(nat \<Rightarrow> USART \<Rightarrow> USART) \<Rightarrow> (nat \<Rightarrow> u8 \<times> u8) \<Rightarrow> bool \<Rightarrow> USART \<Rightarrow> USART option" where
  "USART_Flush env ucsra interrupts u = (if \<not> us_written u then Some u else Flush_loop env ucsra interrupts 0 u)"

section \<open>Watchdog\<close>

definition F_WDT :: nat where "F_WDT = 128000"
definition basePrescaler :: nat where "basePrescaler = 2048"

record configuration =
  prescalerBits :: u8
  reload :: u16

definition configuration_compute :: "u16 \<Rightarrow> configuration" where
  "configuration_compute timeout =
     (let prescalerBits = (if timeout = 250 then 4 else if timeout = 8000 then 9 else 0); ticks = 1
      in \<lparr>prescalerBits = prescalerBits, reload = ticks - 1\<rparr>)"

text \<open>The milliseconds after which a watchdog with these bits fires.\<close>

definition wdt_period :: "configuration \<Rightarrow> nat" where
  "wdt_period c = basePrescaler * 2 ^ unat (prescalerBits c) * 1000 div F_WDT"

text \<open>The watchdog: the configuration if it is enabled, and the milliseconds since the last reset of it.\<close>

record watchdog =
  wd_config :: "configuration option"
  wd_elapsed :: nat

definition Watchdog_Enable :: "configuration \<Rightarrow> watchdog \<Rightarrow> watchdog" where
  "Watchdog_Enable c w = \<lparr>wd_config = Some c, wd_elapsed = 0\<rparr>"

definition Watchdog_Disable :: "watchdog \<Rightarrow> watchdog" where
  "Watchdog_Disable w = w\<lparr>wd_config := None\<rparr>"

definition Watchdog_Reset :: "watchdog \<Rightarrow> watchdog" where
  "Watchdog_Reset w = w\<lparr>wd_elapsed := 0\<rparr>"

definition wd_expired :: "watchdog \<Rightarrow> bool" where
  "wd_expired w \<longleftrightarrow> (case wd_config w of None \<Rightarrow> False | Some c \<Rightarrow> wdt_period c \<le> wd_elapsed w)"

definition wd_limit :: "watchdog \<Rightarrow> nat" where
  "wd_limit w = (case wd_config w of None \<Rightarrow> 0 | Some c \<Rightarrow> wdt_period c)"

lemma compute_periods:
  "wdt_period (configuration_compute 0) = 16"
  "wdt_period (configuration_compute 250) = 256"
  "wdt_period (configuration_compute 8000) = 8192"
  by (simp_all add: configuration_compute_def wdt_period_def basePrescaler_def F_WDT_def)

section \<open>Properties\<close>

lemma Flush_waits_always: "Flush_waits status u"
proof -
  have "bit (NOT (u16_of_u8 (status AND push_bit 6 1))) 0" by (simp add: bit_simps)
  then show ?thesis unfolding Flush_waits_def by (metis bit_0_eq bot_apply bot_bool_def)
qed

lemma Flush_loop_diverges: "Flush_loop env ucsra interrupts n u = None"
proof (rule ccontr)
  assume "Flush_loop env ucsra interrupts n u \<noteq> None"
  then obtain y where y: "Flush_loop env ucsra interrupts n u = Some y" by auto
  show False
  proof (rule Flush_loop.raw_induct[of "\<lambda>_ _ _ _ _ _. False", OF _ y])
    fix loop :: "(nat \<Rightarrow> USART \<Rightarrow> USART) \<Rightarrow> (nat \<Rightarrow> u8 \<times> u8) \<Rightarrow> bool \<Rightarrow> nat \<Rightarrow> USART \<Rightarrow> USART option" and env ucsra interrupts n u y
    assume "\<And>env ucsra interrupts n u y. loop env ucsra interrupts n u = Some y \<Longrightarrow> False"
      and "(let u = env n u in
             if Flush_waits (fst (ucsra n)) u
             then loop env ucsra interrupts (Suc n)
                    (if \<not> interrupts \<and> us_udrie u \<and> snd (ucsra n) AND push_bit 5 1 \<noteq> 0 then ISR_UDRE u else u)
             else Some u) = Some y"
    then show False by (simp add: Let_def Flush_waits_always)
  qed
qed

text \<open>\<open>Flush\<close> never returns once a byte has been written. The operand of \<open>~\<close> is a masked byte promoted to an
  integer, whose complement is never zero, so the condition of the loop holds whatever the hardware shows, even when nothing is
  queued and the transmission is complete; before the first byte it returns at once.\<close>

theorem flush_never_returns:
  "USART_Flush env ucsra interrupts u = (if us_written u then None else Some u)"
  by (simp add: USART_Flush_def Flush_loop_diverges)

text \<open>Reading an analog input. The converter is started on exactly the channel that was asked for, whatever was selected
  before, with the reference voltage, the result alignment and the trigger bits kept; the call returns exactly if the conversion
  ends at some reading of the status, and returns the value the converter has produced for that channel.\<close>

theorem adc_reads_channel:
  "\<exists>r'. adc_channel r' = channel AND 0x3F \<and> bit (ADCSRA r') 6
     \<and> ADMUX r' AND NOT 0x1F = ADMUX r AND NOT 0x1F \<and> ADCSRB r' AND NOT 0x20 = ADCSRB r AND NOT 0x20
     \<and> map_option fst (ReadADC converter channel r)
         = (if \<exists>n. fst (converter r') n AND push_bit 6 1 = 0 then Some (snd (converter r')) else None)"
proof -
  define s where "s = adc_select channel r"
  define r' where "r' = s\<lparr>ADCSRA := ADCSRA s OR push_bit 6 1\<rparr>"
  obtain status x where c: "converter r' = (status, x)" by fastforce
  have "(\<exists>m. wait_for (\<lambda>n. status n AND push_bit 6 1 = 0) 0 = Some m) \<longleftrightarrow> (\<exists>n. status n AND push_bit 6 1 = 0)"
    using wait_for_ends[of "\<lambda>n. status n AND push_bit 6 1 = 0" 0] by simp
  then have "map_option fst (ReadADC converter channel r) = (if \<exists>n. status n AND push_bit 6 1 = 0 then Some x else None)"
    unfolding ReadADC_def Let_def s_def[symmetric] r'_def[symmetric] c
    by (cases "wait_for (\<lambda>n. status n AND push_bit 6 1 = 0) 0") auto
  moreover have "adc_channel r' = channel AND 0x3F" "bit (ADCSRA r') 6"
    "ADMUX r' AND NOT 0x1F = ADMUX r AND NOT 0x1F" "ADCSRB r' AND NOT 0x20 = ADCSRB r AND NOT 0x20"
    using adc_select_facts[of channel r] by (simp_all add: r'_def s_def adc_channel_def bit_simps)
  ultimately show ?thesis using c by (intro exI[of _ r']) simp
qed

end
