(* ===== verification/Board_Setup.thy ===== *)
theory Board_Setup
  imports Shift_Register Peripherals Motion
begin

text \<open>
  What the initialisation does to the hardware (\<open>setup\<close> in \<open>main.cpp\<close>, \<open>TMC2130::Init\<close>), a frame of the
  driver chips on the pins (\<open>TMC2130::_spi_tx_rx\<close>), and the guard that keeps the stepping interrupt out of a
  critical section (\<open>SuspendIsr\<close> in \<open>modules/motion.cpp\<close>).
\<close>

section \<open>Driver chips\<close>

fun csPin :: "Axis \<Rightarrow> GPIO_pin" where
  "csPin Pulley = PULLEY_CS_PIN" | "csPin Selector = SELECTOR_CS_PIN" | "csPin Idler = IDLER_CS_PIN"

fun stepPin :: "Axis \<Rightarrow> GPIO_pin" where
  "stepPin Pulley = PULLEY_STEP_PIN" | "stepPin Selector = SELECTOR_STEP_PIN" | "stepPin Idler = IDLER_STEP_PIN"

fun sgPin :: "Axis \<Rightarrow> GPIO_pin" where
  "sgPin Pulley = PULLEY_SG_PIN" | "sgPin Selector = SELECTOR_SG_PIN" | "sgPin Idler = IDLER_SG_PIN"

definition TMC_Init_pins :: "GPIO_InitTypeDef \<Rightarrow> Axis \<Rightarrow> ports \<Rightarrow> ports" where
  "TMC_Init_pins mem x ps =
     (let ps = gpio_Init (csPin x) (InitTypeDef_level mem mode_output high) ps;
          ps = gpio_Init (sgPin x) (InitTypeDef_pull mem mode_input up) ps
      in gpio_Init (stepPin x) (InitTypeDef_level mem mode_output low) ps)"

text \<open>
  A frame: the chip is selected, the bytes are exchanged one after the other, the chip is released. The bus sees the pins, the
  bytes sent before in the frame and the byte being sent.
\<close>

type_synonym spi_bus = "ports \<Rightarrow> u8 list \<Rightarrow> u8 \<Rightarrow> (nat \<Rightarrow> u8) \<times> u8"

fun exchange :: "spi_bus \<Rightarrow> ports \<Rightarrow> u8 list \<Rightarrow> u8 list \<Rightarrow> SPI_TypeDef \<Rightarrow> (u8 list \<times> SPI_TypeDef) option" where
  "exchange bus ps past [] hspi = Some ([], hspi)"
| "exchange bus ps past (b # bs) hspi =
     Option.bind (TxRx (bus ps past) hspi b) (\<lambda>(r, hspi).
     map_option (\<lambda>(rs, hspi). (r # rs, hspi)) (exchange bus ps (past @ [b]) bs hspi))"

definition spi_frame :: "spi_bus \<Rightarrow> Axis \<Rightarrow> u8 list \<Rightarrow> SPI_TypeDef \<times> ports \<Rightarrow> (u8 list \<times> SPI_TypeDef \<times> ports) option" where
  "spi_frame bus x pData = (\<lambda>(hspi, ps).
     let ps = WritePin (csPin x) low ps
     in map_option (\<lambda>(rs, hspi). (rs, hspi, WritePin (csPin x) high ps)) (exchange bus ps [] pData hspi))"

text \<open>The chips that are selected: their pin is low.\<close>

definition selected_chips :: "ports \<Rightarrow> Axis list" where
  "selected_chips ps = filter (\<lambda>x. ReadPin_host (csPin x) ps = low) all_axes"

definition bus_ready :: "spi_bus \<Rightarrow> bool" where
  "bus_ready bus \<longleftrightarrow> (\<forall>ps past b. \<exists>n. fst (bus ps past b) n AND push_bit 7 1 \<noteq> 0)"

definition answers :: "spi_bus \<Rightarrow> ports \<Rightarrow> u8 list \<Rightarrow> u8 list" where
  "answers bus ps pData = map (\<lambda>i. snd (bus ps (take i pData) (pData ! i))) [0..<length pData]"

section \<open>The guard\<close>

text \<open>
  An attempt of the stepping interrupt runs if it is enabled. A section suspends it and puts it back as it was; \<open>before\<close> and \<open>after\<close>
  count the attempts between the guard and the body.
\<close>

definition stepper_attempt :: "Timer1 \<times> Motion \<Rightarrow> Timer1 \<times> Motion" where
  "stepper_attempt = (\<lambda>(t, m). if TIMSK1 t AND push_bit 1 1 \<noteq> 0 then
     let (next, m) = Motion_Isr m in (t\<lparr>OCR1A := next\<rparr>, m) else (t, m))"

definition SuspendIsr :: "nat \<Rightarrow> nat \<Rightarrow> (Timer1 \<times> Motion \<Rightarrow> Timer1 \<times> Motion) \<Rightarrow> Timer1 \<times> Motion \<Rightarrow> Timer1 \<times> Motion" where
  "SuspendIsr before after f = (\<lambda>(t, m).
     let (enabled, t) = IsrDisable t;
         (t, m) = (stepper_attempt ^^ before) (t, m);
         (t, m) = f (t, m);
         (t, m) = (stepper_attempt ^^ after) (t, m)
     in (IsrSetEnabled enabled t, m))"

definition AbortPlannedMoves_axis_guarded :: "nat \<times> nat \<Rightarrow> Axis \<Rightarrow> bool \<Rightarrow> Timer1 \<times> Motion \<Rightarrow> Timer1 \<times> Motion" where
  "AbortPlannedMoves_axis_guarded n x halt =
     SuspendIsr (fst n) (snd n) (\<lambda>(t, m). (t, Motion_AbortPlannedMoves_axis x halt m))"

definition AbortPlannedMoves_guarded :: "nat \<times> nat \<Rightarrow> (Axis \<Rightarrow> nat \<times> nat) \<Rightarrow> bool \<Rightarrow> Timer1 \<times> Motion \<Rightarrow> Timer1 \<times> Motion" where
  "AbortPlannedMoves_guarded n ns halt =
     SuspendIsr (fst n) (snd n) (fold (\<lambda>x. AbortPlannedMoves_axis_guarded (ns x) x halt) all_axes)"

section \<open>The initialisation\<close>

definition usart_conf :: USART_InitTypeDef where
  "usart_conf = \<lparr>rx_pin = USART_RX, tx_pin = USART_TX, baudrate = 115200\<rparr>"

definition spi_conf :: SPI_InitTypeDef where
  "spi_conf = \<lparr>miso_pin = TMC2130_SPI_MISO_PIN, mosi_pin = TMC2130_SPI_MOSI_PIN, sck_pin = TMC2130_SPI_SCK_PIN,
     ss_pin = TMC2130_SPI_SS_PIN, prescaler = 2, cpha = 1, cpol = 1\<rparr>"

text \<open>Everything the first part of the initialisation writes to but the globals, and one step of the LEDs on the pins.\<close>

record Chip =
  ch_timers :: Timers
  ch_timer1 :: Timer1
  ch_watchdog :: watchdog
  ch_board :: Board
  ch_usart :: USART_regs
  ch_spi :: SPI_TypeDef
  ch_adc :: ADC_regs
  ch_leds :: LEDs

definition Board_LEDs_Step :: "u16 \<Rightarrow> LEDs \<times> Board \<Rightarrow> LEDs \<times> Board" where
  "Board_LEDs_Step millis = (\<lambda>(s, b).
     let oddPeriod = (millis div (ledBlinkPeriodMs div 2)) AND 0x01 \<noteq> 0;
         ls = map (LED_Step oddPeriod) (leds_leds s);
         result = LEDs_result ls
     in if result \<noteq> leds_cachedState s
        then (s\<lparr>leds_leds := ls, leds_cachedState := result\<rparr>, Board_SetLED result b)
        else (s\<lparr>leds_leds := ls\<rparr>, b))"

definition show_green :: "u16 \<Rightarrow> u8 \<Rightarrow> Chip \<Rightarrow> Chip" where
  "show_green millis slot c =
     (let (l, b) = Board_LEDs_Step millis (LEDs_SetMode slot green LedOn (ch_leds c), ch_board c)
      in c\<lparr>ch_leds := l, ch_board := b\<rparr>)"

definition setup_hardware :: "GPIO_InitTypeDef \<Rightarrow> u16 \<Rightarrow> Chip \<Rightarrow> Chip" where
  "setup_hardware mem millis c =
     (let c = c\<lparr>ch_timers := Timebase_Init (ch_timers c)\<rparr>;
          c = c\<lparr>ch_watchdog := Watchdog_Enable (configuration_compute 8000) (ch_watchdog c)\<rparr>;
          c = c\<lparr>ch_board := Board_Init mem (ch_board c)\<rparr>;
          c = show_green millis 4 c;
          (r, ps) = USART_Init mem usart_conf (ch_usart c, b_ports (ch_board c));
          c = c\<lparr>ch_usart := r, ch_board := on_ports ps (ch_board c)\<rparr>;
          c = show_green millis 3 c;
          (h, ps) = spi_Init mem spi_conf (ch_spi c, b_ports (ch_board c));
          c = c\<lparr>ch_spi := h, ch_board := on_ports ps (ch_board c)\<rparr>;
          c = show_green millis 2 c;
          c = c\<lparr>ch_timer1 := Motion_Init_timer (ch_timer1 c)\<rparr>;
          c = show_green millis 1 c;
          c = c\<lparr>ch_adc := adc_Init (ch_adc c)\<rparr>
      in show_green millis 0 c)"

text \<open>The same sequence on the content of the shift register alone, as in \<open>setup1\<close> of the main program.\<close>

definition setup_content :: "u16 \<Rightarrow> LEDs \<Rightarrow> LEDs \<times> SHR16" where
  "setup_content millis l =
     fold (\<lambda>i (l, s). LEDs_Step millis (LEDs_SetMode i green LedOn l, s)) [4, 3, 2, 1, 0] (l, SHR16_ENA_MSK)"

section \<open>Facts\<close>

lemma stepper_disabled: "TIMSK1 t AND push_bit 1 1 = 0 \<Longrightarrow> (stepper_attempt ^^ n) (t, m) = (t, m)"
  by (induction n) (simp_all add: stepper_attempt_def)

lemma SuspendIsr_atomic:
  assumes "\<And>t m. TIMSK1 t AND push_bit 1 1 = 0 \<Longrightarrow> f (t, m) = (t, g m)"
  shows "SuspendIsr before after f (t, m) = (t, g m)"
proof -
  define d where "d = t\<lparr>TIMSK1 := TIMSK1 t AND NOT (push_bit 1 1)\<rparr>"
  have d: "TIMSK1 d AND push_bit 1 1 = 0" by (simp add: d_def and.assoc)
  have e: "IsrDisable t = (bit (TIMSK1 t) 1, d)" unfolding IsrDisable_def d_def and_bit_neq_0 ..
  have "(a AND NOT (push_bit 1 1)) OR push_bit 1 1 = a" if "bit a 1" for a :: u8
    using that by (auto intro!: bit_word_eqI simp: bit_simps)
  moreover have "a AND NOT (push_bit 1 1) AND NOT (push_bit 1 1) = a" if "\<not> bit a 1" for a :: u8
    using that by (auto intro!: bit_word_eqI simp: bit_simps)
  ultimately have "IsrSetEnabled (bit (TIMSK1 t) 1) d = t" by (simp add: IsrSetEnabled_def d_def and.assoc)
  with d show ?thesis by (simp add: SuspendIsr_def e stepper_disabled assms)
qed

lemma TxRx_ready:
  assumes "\<exists>n. fst (bus b) n AND push_bit 7 1 \<noteq> 0"
  obtains hspi' where "TxRx bus hspi b = Some (snd (bus b), hspi')"
proof -
  obtain status r where b: "bus b = (status, r)" by fastforce
  then obtain n where "wait_for (\<lambda>n. status n AND push_bit 7 1 \<noteq> 0) 0 = Some n"
    using assms wait_for_ends[of "\<lambda>n. status n AND push_bit 7 1 \<noteq> 0" 0] by auto
  then have "TxRx bus hspi b = Some (r, hspi\<lparr>SPSRx := status n, SPDRx := r\<rparr>)"
    by (cases hspi) (simp add: TxRx_def b)
  then show ?thesis using that b by simp
qed

lemma exchange_ready:
  assumes "bus_ready bus"
  shows "\<exists>hspi'. exchange bus ps past bs hspi
    = Some (map (\<lambda>i. snd (bus ps (past @ take i bs) (bs ! i))) [0..<length bs], hspi')"
proof (induction bs arbitrary: past hspi)
  case (Cons b bs)
  obtain h where h: "TxRx (bus ps past) hspi b = Some (snd (bus ps past b), h)"
    using assms TxRx_ready[of "bus ps past" b hspi] unfolding bus_ready_def by metis
  from Cons.IH[of "past @ [b]" h] obtain h' where
    "exchange bus ps (past @ [b]) bs h
      = Some (map (\<lambda>i. snd (bus ps (past @ [b] @ take i bs) (bs ! i))) [0..<length bs], h')" by auto
  with h show ?case by (simp add: upt_conv_Cons map_Suc_upt[symmetric] del: upt_Suc)
qed simp

lemma cs_pins_apart:
  "is_pin (csPin x)" "x \<noteq> y \<Longrightarrow> apart (csPin x) (csPin y)"
proof -
  have "list_all (\<lambda>x. is_pin (csPin x) \<and> list_all (\<lambda>y. x = y \<or> apart (csPin x) (csPin y)) all_axes) all_axes"
    by code_simp
  then show "is_pin (csPin x)" "x \<noteq> y \<Longrightarrow> apart (csPin x) (csPin y)"
    by (cases x; cases y; simp add: all_axes_def)+
qed

lemma cs_levels:
  "ReadPin_host (csPin y) (WritePin (csPin x) l ps) = (if y = x then l else ReadPin_host (csPin y) ps)"
  by (simp add: WritePin_level WritePin_apart cs_pins_apart)

text \<open>The prescaler of the bus is the exponent of the divider.\<close>

lemma spi_prescaler:
  assumes "1 \<le> unat (prescaler conf)" "unat (prescaler conf) \<le> 7"
  shows "[4, 16, 64, 128] ! unat (spi_spr conf) div (if bit (spi_spi2x conf) 0 then 2 else 1) = (2 :: nat) ^ unat (prescaler conf)"
proof -
  define p where "p = prescaler conf"
  have "list_all (\<lambda>n. let p = word_of_nat n :: u8; spr = word_of_int (drop_bit 1 (uint p - 1)) AND 0x03 :: u8;
      spi2x = (if p = 7 then 0 else p AND 0x01)
    in [4, 16, 64, 128] ! unat spr div (if bit spi2x 0 then 2 else 1) = (2 :: nat) ^ n) [1, 2, 3, 4, 5, 6, 7]"
    by code_simp
  moreover have "unat p \<in> set [1, 2, 3, 4, 5, 6, 7]" using assms unfolding p_def by auto
  moreover have "word_of_nat (unat p) = p" by simp
  ultimately show ?thesis unfolding list_all_iff spi_spr_def spi_spi2x_def p_def[symmetric] Let_def by metis
qed

lemma baud_115200: "UART_BAUD_SELECT 115200 F_CPU = 16"
  by (simp add: UART_BAUD_SELECT_def F_CPU_def truncate_rat_def floor_unique)

text \<open>Pins that are not those of the shift register do not disturb it.\<close>

definition off_chain :: "GPIO_pin \<Rightarrow> bool" where
  "off_chain p \<longleftrightarrow> list_all (\<lambda>q. apart p q) chain_pins"

definition same_chain :: "ports \<Rightarrow> ports \<Rightarrow> bool" where
  "same_chain ps ps' \<longleftrightarrow>
     list_all (\<lambda>q. is_output q ps' = is_output q ps \<and> ReadPin_host q ps' = ReadPin_host q ps) chain_pins"

lemma same_chain_Init: "same_chain ps qs \<Longrightarrow> off_chain p \<Longrightarrow> same_chain ps (gpio_Init p i qs)"
  by (simp add: same_chain_def off_chain_def list_all_iff gpio_Init_apart)

lemma same_chain_refl [simp]: "same_chain ps ps"
  by (simp add: same_chain_def list_all_iff)

lemma on_ports_same_chain:
  assumes "same_chain (b_ports b) ps"
  shows "chain_ready (on_ports ps b) = chain_ready b" "b_outputs (on_ports ps b) = b_outputs b"
    "b_shr16_v (on_ports ps b) = b_shr16_v b"
  using assms by (simp_all add: same_chain_def chain_pins_def on_ports_def rising_def driven_high_def chain_ready_iff)

lemma conf_pins_off_chain:
  "off_chain (rx_pin usart_conf)" "off_chain (tx_pin usart_conf)" "off_chain (miso_pin spi_conf)"
  "off_chain (mosi_pin spi_conf)" "off_chain (sck_pin spi_conf)" "off_chain (ss_pin spi_conf)"
  by code_simp+

lemma USART_Init_same_chain: "same_chain ps (snd (USART_Init mem usart_conf (r, ps)))"
  by (simp add: USART_Init_def Let_def same_chain_Init conf_pins_off_chain)

lemma spi_Init_same_chain: "same_chain ps (snd (spi_Init mem spi_conf (h, ps)))"
  by (simp add: spi_Init_def Let_def same_chain_Init conf_pins_off_chain)

text \<open>What the shift register has shown since a moment at which it had shown \<open>old\<close>: the drivers were disabled all the time.\<close>

definition disabled_since :: "u16 list \<Rightarrow> Board \<Rightarrow> bool" where
  "disabled_since old b \<longleftrightarrow> chain_ready b \<and> b_shr16_v b AND SHR16_ENA_MSK = SHR16_ENA_MSK
     \<and> (\<exists>vs. b_outputs b = old @ vs \<and> list_all (\<lambda>v. v AND SHR16_ENA_MSK = SHR16_ENA_MSK) vs)"

lemma SetLED_keeps_drivers: "SHR16_SetLED led v AND SHR16_ENA_MSK = v AND SHR16_ENA_MSK"
proof (rule bit_word_eqI)
  fix i
  have "\<not> bit SHR16_ENA_MSK i" if "6 \<le> i"
  proof (rule not_bit_above)
    have "(2 :: nat) ^ 6 \<le> 2 ^ i" using that by (rule power_increasing) simp
    then show "unat SHR16_ENA_MSK < 2 ^ i" by (simp add: SHR16_ENA_MSK_def)
  qed
  then show "bit (SHR16_SetLED led v AND SHR16_ENA_MSK) i = bit (v AND SHR16_ENA_MSK) i"
    by (auto simp: bit_and_iff bit_SetLED)
qed

lemma SetLED_disabled:
  assumes "disabled_since old b" shows "disabled_since old (Board_SetLED led b)"
proof -
  define v where "v = SHR16_SetLED led (b_shr16_v b)"
  have "Board_SetLED led b = Board_Write v b" by (simp add: Board_SetLED_def v_def SHR16_SetLED_def SHR16_Write_def)
  moreover have v: "v AND SHR16_ENA_MSK = SHR16_ENA_MSK"
    using assms SetLED_keeps_drivers by (simp add: v_def disabled_since_def)
  moreover obtain vs where vs: "chain_ready b" "b_outputs b = old @ vs" "list_all (\<lambda>v. v AND SHR16_ENA_MSK = SHR16_ENA_MSK) vs"
    using assms by (auto simp: disabled_since_def)
  moreover have "list_all (\<lambda>v. v AND SHR16_ENA_MSK = SHR16_ENA_MSK) (vs @ [v])" using vs v by simp
  ultimately show ?thesis using Board_Write_facts[OF vs(1), of v] unfolding disabled_since_def by auto
qed

lemma show_green_facts:
  assumes "disabled_since old (ch_board c)"
  shows "disabled_since old (ch_board (show_green millis i c))"
    and "(ch_leds (show_green millis i c), b_shr16_v (ch_board (show_green millis i c)))
      = LEDs_Step millis (LEDs_SetMode i green LedOn (ch_leds c), b_shr16_v (ch_board c))"
proof -
  have v: "b_shr16_v (Board_SetLED led (ch_board c)) = SHR16_SetLED led (b_shr16_v (ch_board c))" for led
    using assms by (simp add: Board_SetLED_def SHR16_SetLED_def SHR16_Write_def Board_Write_facts disabled_since_def)
  show "disabled_since old (ch_board (show_green millis i c))"
    using assms SetLED_disabled by (simp add: show_green_def Board_LEDs_Step_def Let_def case_prod_beta)
  show "(ch_leds (show_green millis i c), b_shr16_v (ch_board (show_green millis i c)))
      = LEDs_Step millis (LEDs_SetMode i green LedOn (ch_leds c), b_shr16_v (ch_board c))"
    by (simp add: show_green_def Board_LEDs_Step_def LEDs_Step_def Let_def case_prod_beta v)
qed

lemma show_green_frame [simp]:
  "ch_timers (show_green millis i c) = ch_timers c" "ch_timer1 (show_green millis i c) = ch_timer1 c"
  "ch_watchdog (show_green millis i c) = ch_watchdog c" "ch_usart (show_green millis i c) = ch_usart c"
  "ch_spi (show_green millis i c) = ch_spi c" "ch_adc (show_green millis i c) = ch_adc c"
  by (simp_all add: show_green_def case_prod_beta)

lemma on_ports_disabled:
  "same_chain (b_ports b) ps \<Longrightarrow> disabled_since old (on_ports ps b) = disabled_since old b"
  by (simp add: disabled_since_def on_ports_same_chain)

text \<open>The pins do not depend on what the memory held, except the pull-up of the receiving pin of the serial line.\<close>

lemma pins_do_not_depend_on_memory:
  "spi_Init mem conf s = spi_Init mem' conf s" "Board_Init mem b = Board_Init mem' b" "TMC_Init_pins mem x ps = TMC_Init_pins mem' x ps"
  by (simp_all add: spi_Init_def Board_Init_def TMC_Init_pins_def init_pin_def gpio_Init_def InitTypeDef_level_def
      InitTypeDef_pull_def Let_def)

lemma receiver_depends_on_memory:
  "ReadPin_host USART_RX (snd (USART_Init mem usart_conf (r, ps))) = level_of_pull (gi_pull mem)"
proof -
  have p: "is_pin USART_RX" "apart USART_TX USART_RX" by code_simp+
  then have "ReadPin_host USART_RX (gpio_Init USART_RX (InitTypeDef_level mem mode_input low) ps) = level_of_pull (gi_pull mem)"
    by (simp add: gpio_Init_def InitTypeDef_level_def Let_def WritePin_level)
  then show ?thesis using p(2) by (simp add: USART_Init_def usart_conf_def Let_def gpio_Init_apart)
qed

section \<open>Properties\<close>


text \<open>A frame reaches exactly one driver. If no chip is selected before, then during the exchange of all bytes the chip of the axis is
  selected and no other, afterwards none is, and as long as the bus answers at all the frame returns: one byte for each
  byte sent, in order, each from the selected chip.\<close>

theorem frame_selects_one_driver:
  assumes "bus_ready bus" "selected_chips ps = []"
  shows "let during = WritePin (csPin x) low ps; afterwards = WritePin (csPin x) high during in
    selected_chips during = [x] \<and> selected_chips afterwards = []
    \<and> map_option (\<lambda>(rs, _, ps'). (rs, ps')) (spi_frame bus x pData (h, ps)) = Some (answers bus during pData, afterwards)"
proof -
  have none: "ReadPin_host (csPin y) ps = high" for y
    using assms(2) by (cases y; cases "ReadPin_host (csPin y) ps") (auto simp: selected_chips_def all_axes_def split: if_splits)
  obtain h' where "exchange bus (WritePin (csPin x) low ps) [] pData h = Some (answers bus (WritePin (csPin x) low ps) pData, h')"
    using exchange_ready[OF assms(1), of "WritePin (csPin x) low ps" "[]" pData h] by (auto simp: answers_def)
  then show ?thesis
    by (cases x) (simp_all add: Let_def selected_chips_def all_axes_def cs_levels none spi_frame_def del: csPin.simps)
qed

definition echo_bus :: spi_bus where
  "echo_bus ps past b = (\<lambda>_. 0x80, b)"

definition ports_high :: ports where
  "ports_high _ = \<lparr>PINx = 0, DDRx = 0xFF, PORTx = 0xFF\<rparr>"

theorem frame_selects_one_driver_witness:
  "map_option fst (spi_frame echo_bus Selector [0x6F, 0, 0, 0, 7] (\<lparr>SPCRx = 0, SPSRx = 0, SPDRx = 0\<rparr>, ports_high))
     = Some [0x6F, 0, 0, 0, 7]"
proof -
  have "bus_ready echo_bus" by (simp add: bus_ready_def echo_bus_def)
  moreover have "selected_chips ports_high = []" by code_simp
  moreover have "answers echo_bus ps [0x6F, 0, 0, 0, 7] = [0x6F, 0, 0, 0, 7]" for ps
    by (simp add: answers_def echo_bus_def upt_conv_Cons)
  ultimately show ?thesis
    using frame_selects_one_driver[of echo_bus ports_high Selector "[0x6F, 0, 0, 0, 7]" "\<lparr>SPCRx = 0, SPSRx = 0, SPDRx = 0\<rparr>"]
    by (auto simp: Let_def)
qed

text \<open>C39: aborting moves is atomic for the stepping interrupt. However often the interrupt is due between the guard, the axes
  and the inner guards, the planners end as if nothing had come in between, and the interrupt is enabled
  afterwards exactly if it was before, with its timer untouched, although the guards are nested.\<close>

theorem abort_is_atomic:
  "AbortPlannedMoves_guarded n ns halt (t, m) = (t, Motion_AbortPlannedMoves halt m)"
proof -
  have a: "AbortPlannedMoves_axis_guarded k x halt (t, m) = (t, Motion_AbortPlannedMoves_axis x halt m)" for k x t m
    unfolding AbortPlannedMoves_axis_guarded_def by (rule SuspendIsr_atomic) simp
  then have "fold (\<lambda>x. AbortPlannedMoves_axis_guarded (ns x) x halt) xs (t, m)
      = (t, fold (\<lambda>x. Motion_AbortPlannedMoves_axis x halt) xs m)" for xs t m
    by (induction xs arbitrary: m) simp_all
  then show ?thesis
    unfolding AbortPlannedMoves_guarded_def Motion_AbortPlannedMoves_def by (rule SuspendIsr_atomic)
qed

end
