(* ===== verification/Watchdog_Restart.thy ===== *)
theory Watchdog_Restart
  imports Main_Loop Board_Setup
begin

text \<open>
  The processor around the main loop: the operations of the loop that do not belong to the application (\<open>cpu::Step\<close>, the USB task, the
  reset of the watchdog), the endless loops in which the program waits for the watchdog (\<open>hal/avr/cpu.cpp\<close>), the request of the host over
  USB to enter the bootloader (\<open>modules/usb_cdc.cpp\<close>), and real time. What the USB library does has no effect on the state but for that
  request, which comes in its interrupt. The transition system of \<open>Main_Loop\<close> is an abstraction of this one.
\<close>

section \<open>State\<close>

record Mcu =
  mc_app :: App
  mc_resetPending :: bool
  mc_watchdog :: watchdog
  mc_bootkey :: u16

text \<open>Where the main program is: before an operation of the loop, or in one of the two endless loops.\<close>

datatype place = At phase | At_cpu | At_cdc | At_kick | Endless

section \<open>Operations\<close>

text \<open>The word just below the end of the RAM tells the bootloader to stay.\<close>

definition EVENT_CDC_Device_LineEncodingChanged :: "u32 \<Rightarrow> Mcu \<Rightarrow> Mcu" where
  "EVENT_CDC_Device_LineEncodingChanged baud m =
     (if baud = 1200 then
        let m = m\<lparr>mc_bootkey := 0x7777\<rparr>;
            m = m\<lparr>mc_resetPending := True\<rparr>
        in m\<lparr>mc_watchdog := Watchdog_Enable (configuration_compute 250) (mc_watchdog m)\<rparr>
      else m)"

text \<open>Both operations end in an endless loop; the first one disables interrupts, which is what \<open>a_resetting\<close> says.\<close>

definition cpu_Reset :: "Mcu \<Rightarrow> place \<times> Mcu" where
  "cpu_Reset m = (Endless, m\<lparr>mc_watchdog := Watchdog_Enable (configuration_compute 0) (mc_watchdog m)\<rparr>)"

definition resetPending_message :: "u8 list" where
  "resetPending_message = [0x72, 0x65, 0x73, 0x65, 0x74, 0x50, 0x65, 0x6e, 0x64, 0x69, 0x6e, 0x67, 0x0a, 0]"

definition cpu_Step :: "Mcu \<Rightarrow> place \<times> Mcu" where
  "cpu_Step m =
     (if mc_resetPending m
      then (Endless, m\<lparr>mc_app := (mc_app m)\<lparr>a_usart := USART_puts resetPending_message (a_usart (mc_app m))\<rparr>\<rparr>)
      else (At_cdc, m))"

definition after_setup :: "App \<Rightarrow> Mcu \<Rightarrow> place \<times> Mcu" where
  "after_setup a m =
     (let m = m\<lparr>mc_app := a, mc_resetPending := False,
                mc_watchdog := Watchdog_Enable (configuration_compute 8000) (mc_watchdog m)\<rparr>
      in if a_resetting a then cpu_Reset m else (At At_buttons, m))"

text \<open>The main program. The operations of the loop come in the order of \<open>main.cpp\<close>.\<close>

fun mcu_main :: "version \<Rightarrow> inputs \<Rightarrow> place \<times> Mcu \<Rightarrow> place \<times> Mcu" where
  "mcu_main v i (At ph, m) =
     (let (ph', a) = phase_step v i (ph, mc_app m); m = m\<lparr>mc_app := a\<rparr>
      in if a_resetting a then cpu_Reset m
         else (if ph = At_application then At_kick else if ph' = At_checks then At_cpu else At ph', m))"
| "mcu_main v i (At_cpu, m) = cpu_Step m"
| "mcu_main v i (At_cdc, m) = (At At_checks, m)"
| "mcu_main v i (At_kick, m) = (At At_buttons, m\<lparr>mc_watchdog := Watchdog_Reset (mc_watchdog m)\<rparr>)"
| "mcu_main v i (Endless, m) = (Endless, m)"

section \<open>Steps\<close>

text \<open>
  A step of the main program, an interrupt, a request over USB, a millisecond, or a restart, by the watchdog or by the power
  supply. No time passes beyond the period of the watchdog without a restart. A restart keeps the EEPROM.
\<close>

datatype label = L_main | L_isr | L_usb | L_time | L_restart

inductive mcu :: "version \<Rightarrow> label \<Rightarrow> place \<times> Mcu \<Rightarrow> place \<times> Mcu \<Rightarrow> bool" for v :: version where
  program: "\<not> wd_expired (mc_watchdog m) \<Longrightarrow> mcu v L_main (p, m) (mcu_main v i (p, m))"
| isr: "\<not> wd_expired (mc_watchdog m) \<Longrightarrow> \<not> a_resetting (mc_app m) \<Longrightarrow>
    mcu v L_isr (p, m) (p, m\<lparr>mc_app := interrupt e (mc_app m)\<rparr>)"
| usb: "\<not> wd_expired (mc_watchdog m) \<Longrightarrow> \<not> a_resetting (mc_app m) \<Longrightarrow>
    mcu v L_usb (p, m) (p, EVENT_CDC_Device_LineEncodingChanged baud m)"
| time: "\<not> wd_expired (mc_watchdog m) \<Longrightarrow>
    mcu v L_time (p, m) (p, m\<lparr>mc_watchdog := (mc_watchdog m)\<lparr>wd_elapsed := wd_elapsed (mc_watchdog m) + 1\<rparr>\<rparr>)"
| restart: "boot bi h (m_eeprom (a_mmu (mc_app m))) = Some a' \<Longrightarrow> mcu v L_restart (p, m) (after_setup a' m)"

inductive mcu_reachable :: "version \<Rightarrow> place \<times> Mcu \<Rightarrow> bool" for v :: version where
  power_up: "boot bi h e = Some a \<Longrightarrow> mcu_reachable v (after_setup a m)"
| step: "mcu_reachable v s \<Longrightarrow> mcu v l s t \<Longrightarrow> mcu_reachable v t"

inductive mcu_run :: "version \<Rightarrow> label list \<Rightarrow> place \<times> Mcu \<Rightarrow> place \<times> Mcu \<Rightarrow> bool" for v :: version where
  stop: "mcu_run v [] s s"
| more: "mcu v l s t \<Longrightarrow> mcu_run v ls t u \<Longrightarrow> mcu_run v (l # ls) s u"

inductive_cases mcuE: "mcu v l s t"

inductive_simps mcu_run_simps: "mcu_run v [] s t" "mcu_run v (l # ls) s u"

section \<open>The main loop is an abstraction\<close>

fun phase_at :: "place \<Rightarrow> phase" where
  "phase_at (At ph) = ph"
| "phase_at At_cpu = At_checks"
| "phase_at At_cdc = At_checks"
| "phase_at At_kick = At_buttons"
| "phase_at Endless = At_buttons"

lemma usart_write_wf: "usart_wf u \<Longrightarrow> usart_wf (USART_Write c u)"
proof (cases "CanWrite u")
  case False
  assume u: "usart_wf u"
  define u1 where "u1 = u\<lparr>us_written := True\<rparr>"
  have w: "usart_wf u1" "waiting u1 = waiting u" using u by (simp_all add: u1_def usart_wf_def waiting_def)
  then have full: "length (waiting u) = 32" using tx_facts[OF u] False by simp
  then have ne: "waiting u1 \<noteq> []" using w by auto
  have e: "\<not> CB_empty (us_tx_buf u1)" using tx_facts(1)[OF w(1)] ne by simp
  have f: "CB_full uart_buffer_size (us_tx_buf u1)" using False by (simp add: CanWrite_def u1_def)
  define u2 where "u2 = ISR_UDRE u1"
  have w2: "usart_wf u2" "length (waiting u2) < 32" using ISR_UDRE_facts[OF w(1) ne] full w(2) by (simp_all add: u2_def)
  have cb: "CB_wf uart_buffer_size (us_tx_buf u2)" using w2(1) by (simp add: usart_wf_def)
  have "length (CB_contents uart_buffer_size (us_tx_buf u2)) < 32" using w2(2) by (simp add: waiting_def)
  note p = circular.push_room[OF cb, of c]
  have "USART_Write c u = u2\<lparr>us_tx_buf := snd (CB_push uart_buffer_size c (us_tx_buf u2)), us_udrie := True\<rparr>"
    using e f by (simp add: USART_Write_def Let_def u2_def flip: u1_def)
  then show ?thesis using p w2 by (simp add: usart_wf_def waiting_def)
qed (use USART_Write_facts in blast)

lemma puts_wf: "usart_wf u \<Longrightarrow> usart_wf (USART_puts str u)"
proof -
  have "usart_wf u \<Longrightarrow> usart_wf (WriteS str u)" by (induction str arbitrary: u) (simp_all add: usart_write_wf)
  then show "usart_wf u \<Longrightarrow> usart_wf (USART_puts str u)" by (simp add: USART_puts_def usart_write_wf)
qed

text \<open>In the endless loop of a pending reset the application is one the loop could have reached, but for the line.\<close>

fun abstracts :: "version \<Rightarrow> place \<times> Mcu \<Rightarrow> bool" where
  "abstracts v (p, m) \<longleftrightarrow> app_wf (mc_app m) \<and> (p \<noteq> Endless \<longrightarrow> \<not> a_resetting (mc_app m))
     \<and> (if p = Endless \<and> \<not> a_resetting (mc_app m)
        then \<exists>a u. reachable v (At_checks, a) \<and> mc_app m = a\<lparr>a_usart := u\<rparr>
        else reachable v (phase_at p, mc_app m))"

lemma resetting_phase:
  assumes "phase_step v i (ph, a) = (ph', a')" "\<not> a_resetting a" "a_resetting a'" shows "ph' = At_buttons"
  using assms by (cases ph) (auto simp: phase_step_def split: if_splits)

lemma application_phase: "phase_step v i (At_application, a) = (ph', a') \<Longrightarrow> ph' = At_buttons"
  by (simp add: phase_step_def)

lemma interrupt_usart: "\<exists>b u'. (b = a \<or> b = interrupt e a) \<and> interrupt e (a\<lparr>a_usart := u\<rparr>) = b\<lparr>a_usart := u'\<rparr>"
proof (cases e)
  case (RxByte f c)
  then show ?thesis by (intro exI[of _ a] exI[of _ "ISR_RX f c u"]) (simp add: interrupt_def)
next
  case TxEmpty
  then show ?thesis by (intro exI[of _ a] exI[of _ "data_register_empty u"]) (simp add: interrupt_def)
qed (intro exI[of _ "interrupt e a"] exI[of _ u]; simp add: interrupt_def on_mmu_def)+

lemma interrupt_resetting [simp]: "a_resetting (interrupt e a) = a_resetting a"
  by (cases e) (simp_all add: interrupt_def)

lemma after_setup_abstracts:
  assumes "reachable v (At_buttons, a)" shows "abstracts v (after_setup a m)"
  using assms reachable_wf[OF assms] by (simp add: after_setup_def Let_def cpu_Reset_def)

lemma program_abstracts:
  assumes "abstracts v (p, m)" shows "abstracts v (mcu_main v i (p, m))"
proof (cases p)
  case (At ph)
  obtain ph' a where s: "phase_step v i (ph, mc_app m) = (ph', a)" by fastforce
  have n: "\<not> a_resetting (mc_app m)" "app_wf (mc_app m)" "reachable v (ph, mc_app m)" using assms At by simp_all
  have r: "reachable v (ph', a)" using reachable.step[OF n(3)] firmware.main[OF n(1), of v ph i] s by simp
  moreover have "app_wf a" using reachable_wf[OF r] by simp
  ultimately show ?thesis
    using s n(1) resetting_phase[OF s n(1)] application_phase[of v i "mc_app m" ph' a]
    by (auto simp: At Let_def cpu_Reset_def)
next
  case At_cpu
  have "app_wf ((mc_app m)\<lparr>a_usart := USART_puts resetPending_message (a_usart (mc_app m))\<rparr>)"
    using assms by (simp add: app_wf_def puts_wf)
  then show ?thesis using assms At_cpu by (auto simp: cpu_Step_def)
qed (use assms in auto)

lemma isr_abstracts:
  assumes "abstracts v (p, m)" "\<not> a_resetting (mc_app m)"
  shows "abstracts v (p, m\<lparr>mc_app := interrupt e (mc_app m)\<rparr>)"
proof -
  have isr: "\<not> a_resetting a \<Longrightarrow> reachable v (ph, a) \<Longrightarrow> reachable v (ph, interrupt e a)" for ph a
    using reachable.step firmware.isr by blast
  have wf: "app_wf (interrupt e (mc_app m))" using assms by (simp add: interrupt_wf)
  show ?thesis
  proof (cases "p = Endless")
    case True
    then obtain a u where a: "reachable v (At_checks, a)" "mc_app m = a\<lparr>a_usart := u\<rparr>" using assms by auto
    then have "\<not> a_resetting a" using assms(2) by simp
    then obtain b u' where "reachable v (At_checks, b)" "interrupt e (mc_app m) = b\<lparr>a_usart := u'\<rparr>"
      using interrupt_usart[of a e u] a isr by metis
    moreover have "\<not> a_resetting b" using calculation(2) assms(2) interrupt_resetting[of e "mc_app m"] by simp
    ultimately show ?thesis using True wf by auto
  next
    case False
    with assms wf isr show ?thesis by simp
  qed
qed

lemma restart_abstracts:
  assumes "abstracts v (p, m)" "boot bi h (m_eeprom (a_mmu (mc_app m))) = Some a'"
  shows "abstracts v (after_setup a' m)"
proof -
  obtain ph a where "reachable v (ph, a)" "m_eeprom (a_mmu a) = m_eeprom (a_mmu (mc_app m))"
    using assms(1) by (auto split: if_splits)
  with assms(2) firmware.restart[of bi h a a' v ph] have "reachable v (At_buttons, a')" by (metis reachable.step)
  then show ?thesis by (rule after_setup_abstracts)
qed

lemma mcu_reachable_abstracts: "mcu_reachable v s \<Longrightarrow> abstracts v s"
proof (induction rule: mcu_reachable.induct)
  case (power_up bi h e a m)
  then show ?case by (intro after_setup_abstracts reachable.power_up)
next
  case (step s l t)
  from step.hyps(2) step.IH show ?case
  proof (cases rule: mcu.cases)
    case (usb m p baud)
    then show ?thesis using step.IH by (auto simp: EVENT_CDC_Device_LineEncodingChanged_def Let_def)
  next
    case (time m p)
    then show ?thesis using step.IH by auto
  qed (use step.IH in \<open>simp_all add: program_abstracts isr_abstracts restart_abstracts del: mcu_main.simps abstracts.simps\<close>)
qed

section \<open>The two levels of the hardware\<close>

text \<open>The first part of the initialisation leaves the same LEDs and the same content of the shift register in the model of the main
  program as \<open>setup_hardware\<close> does on the pins.\<close>

definition led_view :: "mmu \<Rightarrow> LEDs \<times> SHR16" where
  "led_view w = (m_leds w, hw_shr16 (mo_hw (m_motion w)))"

lemma leds_step_view [simp]:
  "led_view (leds_step (led f w)) = LEDs_Step (m_ms w) (f (fst (led_view w)), snd (led_view w))"
  "m_ms (leds_step (led f w)) = m_ms w"
  by (simp_all add: led_view_def leds_step_def led_def on_hw_def Let_def case_prod_beta)

lemma setup1_levels_agree:
  "led_view (a_mmu (setup1 raw a)) = setup_content (m_ms (a_mmu a)) (m_leds (a_mmu a))"
proof -
  define w where "w = on_hw (\<lambda>h. h\<lparr>hw_shr16 := SHR16_Init (hw_shr16 h)\<rparr>)
    ((a_mmu a)\<lparr>m_globals := Globals_Init (m_eeprom (a_mmu a)) (m_globals (a_mmu a))\<rparr>)"
  have w: "led_view w = (m_leds (a_mmu a), SHR16_ENA_MSK)" "m_ms w = m_ms (a_mmu a)"
    by (simp_all add: w_def led_view_def on_hw_def SHR16_Init_def SHR16_Write_def)
  have "a_mmu (setup1 raw a) = fold (\<lambda>i w. leds_step (led (LEDs_SetMode i green LedOn) w)) [4, 3, 2, 1, 0] w"
    by (simp add: setup1_def Let_def on_mmu_def w_def buttons_step_def)
  then show ?thesis by (simp add: setup_content_def case_prod_beta w)
qed

section \<open>Waiting for the watchdog\<close>

text \<open>
  The milliseconds that can pass before the restart: the rest of the period, and one more period while the loop is on the way to the
  next reset of the watchdog.
\<close>

fun will_kick :: "place \<Rightarrow> bool" where
  "will_kick (At ph) = (ph = At_checks \<or> ph = At_application)"
| "will_kick At_cpu = False"
| "will_kick At_cdc = True"
| "will_kick At_kick = True"
| "will_kick Endless = False"

definition credit :: "place \<times> Mcu \<Rightarrow> nat" where
  "credit = (\<lambda>(p, m). wd_limit (mc_watchdog m) - wd_elapsed (mc_watchdog m) + (if will_kick p then wd_limit (mc_watchdog m) else 0))"

text \<open>The program is bound to wait for the watchdog: a request over USB is pending, or it has restarted itself.\<close>

definition bound_to_restart :: "place \<times> Mcu \<Rightarrow> bool" where
  "bound_to_restart = (\<lambda>(p, m).
     (mc_resetPending m \<and> mc_bootkey m = 0x7777 \<or> a_resetting (mc_app m)) \<and> (a_resetting (mc_app m) \<longrightarrow> p = Endless)
     \<and> (wd_config (mc_watchdog m) = Some (configuration_compute 250) \<or>
        wd_config (mc_watchdog m) = Some (configuration_compute 0) \<and> p = Endless))"

lemma limits:
  "wd_config w = Some (configuration_compute 250) \<Longrightarrow> wd_limit w = 256"
  "wd_config w = Some (configuration_compute 0) \<Longrightarrow> wd_limit w = 16"
  "wd_limit (Watchdog_Enable c w) = wdt_period c" "wd_limit (Watchdog_Reset w) = wd_limit w"
  "wd_limit (w\<lparr>wd_elapsed := n\<rparr>) = wd_limit w"
  by (simp_all add: wd_limit_def compute_periods Watchdog_Enable_def Watchdog_Reset_def)

lemma bound_program:
  assumes b: "bound_to_restart (p, m)" and x: "\<not> wd_expired (mc_watchdog m)"
  shows "bound_to_restart (mcu_main v i (p, m)) \<and> credit (mcu_main v i (p, m)) \<le> credit (p, m)"
proof (cases p)
  case (At ph)
  obtain ph' a where s: "phase_step v i (ph, mc_app m) = (ph', a)" by fastforce
  have n: "\<not> a_resetting (mc_app m)" "mc_resetPending m" "mc_bootkey m = 0x7777"
    and c: "wd_config (mc_watchdog m) = Some (configuration_compute 250)"
    using b At by (auto simp: bound_to_restart_def)
  have w: "ph = At_checks \<Longrightarrow> ph' = At_application" "ph' = At_application \<Longrightarrow> ph = At_checks"
    using s by (cases ph; auto simp: phase_step_def split: if_splits)+
  have r: "ph = At_application" if "a_resetting a"
    using s n(1) that by (cases ph) (auto simp: phase_step_def split: if_splits)
  show ?thesis
  proof (cases "a_resetting a")
    case True
    then have "mcu_main v i (p, m) = cpu_Reset (m\<lparr>mc_app := a\<rparr>)" by (simp add: At s)
    moreover have "credit (p, m) \<ge> 256" using r[OF True] limits(1)[OF c] by (simp add: At credit_def)
    ultimately show ?thesis
      using n True by (simp add: cpu_Reset_def bound_to_restart_def credit_def limits compute_periods)
        (auto simp: Watchdog_Enable_def split: if_splits)
  next
    case False
    define q where "q = (if ph = At_application then At_kick else if ph' = At_checks then At_cpu else At ph')"
    have "mcu_main v i (p, m) = (q, m\<lparr>mc_app := a\<rparr>)" using False by (simp add: At s q_def)
    moreover have "will_kick q \<Longrightarrow> will_kick p" using w by (auto simp: q_def At split: if_splits)
    ultimately show ?thesis using n c False by (auto simp: bound_to_restart_def credit_def)
  qed
next
  case At_kick
  then show ?thesis using b by (auto simp: bound_to_restart_def credit_def limits Watchdog_Reset_def)
qed (use b in \<open>auto simp: bound_to_restart_def credit_def cpu_Step_def limits\<close>)

lemma bound_step:
  assumes "mcu v l s t" "bound_to_restart s" "l \<noteq> L_usb" "l \<noteq> L_restart"
  shows "bound_to_restart t \<and> (if l = L_time then credit t < credit s else credit t \<le> credit s)"
  using assms(1)
proof (cases rule: mcu.cases)
  case (program m p i)
  then show ?thesis using bound_program assms(2) by simp
next
  case (isr m p e)
  then show ?thesis using assms(2) by (simp add: bound_to_restart_def credit_def)
next
  case (time m p)
  have "wd_elapsed (mc_watchdog m) < wd_limit (mc_watchdog m)"
    using assms(2) time by (auto simp: bound_to_restart_def wd_limit_def wd_expired_def)
  then show ?thesis using assms(2) time by (auto simp: bound_to_restart_def credit_def limits)
qed (use assms in simp_all)

lemma bound_run:
  assumes "mcu_run v ls s t" "bound_to_restart s" "L_usb \<notin> set ls" "L_restart \<notin> set ls"
  shows "bound_to_restart t \<and> count_list ls L_time + credit t \<le> credit s"
  using assms
proof (induction rule: mcu_run.induct)
  case (more l s t ls u)
  then show ?case using bound_step[OF more.hyps(1)] by (auto split: if_splits)
qed simp

lemma bootkey_run:
  assumes "mcu_run v ls s t" "L_usb \<notin> set ls" "L_restart \<notin> set ls"
  shows "mc_bootkey (snd t) = mc_bootkey (snd s)"
  using assms
proof (induction rule: mcu_run.induct)
  case (more l s t ls u)
  have m: "mc_bootkey (snd (mcu_main v i (p, m))) = mc_bootkey m" for v i p m
    by (cases p) (simp_all add: Let_def case_prod_beta cpu_Reset_def cpu_Step_def)
  from more.hyps(1) have "mc_bootkey (snd t) = mc_bootkey (snd s)"
    using more.prems by (cases rule: mcu.cases) (simp_all add: m)
  then show ?case using more by simp
qed simp

text \<open>The start without a button pressed takes about half of the eight seconds the watchdog allows.\<close>

lemma quiet_boot_in_time:
  "sum_list (map (\<lambda>(es, es', _). length es + length es') (bi_finda quiet_boot)) + sum_list (map length (bi_sanity quiet_boot)) = 4182"
  "4182 < wdt_period (configuration_compute 8000)"
  by (simp_all add: quiet_boot_def compute_periods sum_list_replicate)

section \<open>Properties\<close>

text \<open>C40: the transition system of the main loop is a faithful abstraction of the processor with its watchdog, the USB
  requests and real time. Every state the processor can reach is well-formed, and unless the program waits in an endless loop it is a state the
  main loop reaches, at the corresponding operation; the additional operations and the restarts add no behaviour.\<close>

theorem processor_refines_main_loop:
  assumes "mcu_reachable v (p, m)"
  shows "app_wf (mc_app m) \<and> (p \<noteq> Endless \<longrightarrow> reachable v (phase_at p, mc_app m))"
  using mcu_reachable_abstracts[OF assms] by simp

definition quiet_mcu :: "App \<Rightarrow> Mcu" where
  "quiet_mcu a = \<lparr>mc_app = a, mc_resetPending = False, mc_watchdog = \<lparr>wd_config = None, wd_elapsed = 0\<rparr>, mc_bootkey = 0\<rparr>"

theorem processor_refines_main_loop_witness:
  "\<exists>p m. mcu_reachable some_version (p, m) \<and> app_wf (mc_app m)"
proof -
  obtain a where "boot quiet_boot idle_hw blank_eeprom = Some a" using quiet_boot_ends by blast
  then have "mcu_reachable some_version (after_setup a (quiet_mcu a))" by (rule mcu_reachable.power_up)
  moreover obtain p m where pm: "after_setup a (quiet_mcu a) = (p, m)" by fastforce
  ultimately have r: "mcu_reachable some_version (p, m)" by simp
  with processor_refines_main_loop[OF r] show ?thesis by blast
qed

text \<open>C9: a restart that has been requested comes. After the host has asked for the bootloader at any point of the program, at most 512
  milliseconds can pass before the watchdog restarts the processor, whatever interrupts come: the loop resets the watchdog at most once
  more and then waits. After the program has restarted itself it is 16 milliseconds. Until then the key for the
  bootloader stays in place, and once the period is over nothing but the restart happens. A further request over USB starts
  the waiting time again.\<close>

theorem restart_in_time:
  assumes "mcu_run v ls s t" "L_usb \<notin> set ls" "L_restart \<notin> set ls"
    and "s = (p, EVENT_CDC_Device_LineEncodingChanged 1200 m) \<and> \<not> a_resetting (mc_app m) \<and> bound = 512
       \<or> s = cpu_Reset m \<and> a_resetting (mc_app m) \<and> bound = 16"
  shows "count_list ls L_time \<le> bound
    \<and> (bound = 512 \<longrightarrow> mc_bootkey (snd t) = 0x7777)
    \<and> (\<forall>l u. wd_expired (mc_watchdog (snd t)) \<longrightarrow> mcu v l t u \<longrightarrow> l = L_restart)"
proof -
  have b: "bound_to_restart s \<and> credit s \<le> bound"
    using assms(4)
    by (auto simp: bound_to_restart_def credit_def EVENT_CDC_Device_LineEncodingChanged_def cpu_Reset_def Let_def limits
        compute_periods) (simp_all add: Watchdog_Enable_def)
  then have r: "bound_to_restart t" "count_list ls L_time + credit t \<le> credit s"
    using bound_run[OF assms(1)] assms(2,3) by simp_all
  have "\<forall>l u. wd_expired (mc_watchdog (snd t)) \<longrightarrow> mcu v l t u \<longrightarrow> l = L_restart"
    by (auto elim: mcu.cases)
  moreover have "bound = 512 \<longrightarrow> mc_bootkey (snd s) = 0x7777"
    using assms(4) by (auto simp: EVENT_CDC_Device_LineEncodingChanged_def Let_def)
  ultimately show ?thesis using b r bootkey_run[OF assms(1-3)] by auto
qed

theorem restart_in_time_witness:
  "\<exists>t. mcu_run some_version [L_time, L_time] (At At_buttons, EVENT_CDC_Device_LineEncodingChanged 1200 (quiet_mcu idle_app)) t
     \<and> mc_bootkey (snd t) = 0x7777"
proof -
  define m where "m = EVENT_CDC_Device_LineEncodingChanged 1200 (quiet_mcu idle_app)"
  have w: "mc_watchdog m = \<lparr>wd_config = Some (configuration_compute 250), wd_elapsed = 0\<rparr>"
    by (simp add: m_def EVENT_CDC_Device_LineEncodingChanged_def Watchdog_Enable_def Let_def)
  define m' where "m' = m\<lparr>mc_watchdog := (mc_watchdog m)\<lparr>wd_elapsed := 1\<rparr>\<rparr>"
  have "mcu some_version L_time (At At_buttons, m) (At At_buttons, m')"
    using mcu.time[of m some_version "At At_buttons"] by (simp add: m'_def w wd_expired_def compute_periods)
  moreover have "\<exists>t. mcu some_version L_time (At At_buttons, m') t"
    using mcu.time[of m' some_version "At At_buttons"] by (auto simp: m'_def w wd_expired_def compute_periods)
  ultimately obtain t where t: "mcu_run some_version [L_time, L_time] (At At_buttons, m) t"
    by (meson mcu_run.intros)
  have "\<not> a_resetting (mc_app (quiet_mcu idle_app))" by (simp add: quiet_mcu_def idle_app_def App_new_def)
  then have "mc_bootkey (snd t) = 0x7777"
    using restart_in_time[OF t, of "At At_buttons" "quiet_mcu idle_app" 512] unfolding m_def by simp
  then show ?thesis using t unfolding m_def by blast
qed

end
